(* ===== verification/GoBase.thy ===== *)
theory GoBase
  imports Main "HOL-Library.Word" "HOL-Library.Monad_Syntax" "HOL-Library.Sublist"
begin

text \<open>
  The prelude: the part of the Go language that the driver's files use, and the lemma
  collections that the component theories share.

  \<^item> A Go \<^verbatim>\<open>int16\<close>, \<^verbatim>\<open>int32\<close>, \<^verbatim>\<open>int64\<close> or \<^verbatim>\<open>byte\<close> is a word of that width; \<open>sint\<close> reads it as
    signed.  A Go \<^verbatim>\<open>int\<close> is an \<open>int\<close>, since every value the driver computes in one is far from
    the 64-bit bounds; a conversion to a narrower type is \<open>word_of_int\<close>, which truncates as Go does.
  \<^item> A Go string is a list of bytes, read as an Isabelle \<open>string\<close>; \<open>bytes_of_string\<close> and
    \<open>string_of_bytes\<close> are the conversions \<^verbatim>\<open>[]byte(s)\<close> and \<^verbatim>\<open>string(b)\<close>.
  \<^item> A run-time panic (index out of range, negative \<^verbatim>\<open>make\<close>, nil dereference) is the value \<open>None\<close>
    of an \<open>option\<close>, and statements are sequenced with the option monad, so a panic stops the rest.
    An error return is the left side of a sum.
\<close>

named_theorems go_const "the untyped constants of the source"
named_theorems wire_simps "what a reader does on a buffer that starts with an encoded value"
named_theorems advances_intro "readers that keep the buffer and only move forward inside it"

type_synonym byte = "8 word"
type_synonym int16 = "16 word"
type_synonym int32 = "32 word"
type_synonym int64 = "64 word"

unbundle bit_operations_syntax

section \<open>Strings and bytes\<close>

definition bytes_of_string :: "string \<Rightarrow> byte list" where
  "bytes_of_string s = map of_char s"

definition string_of_bytes :: "byte list \<Rightarrow> string" where
  "string_of_bytes bs = map (\<lambda>b. char_of (unat b)) bs"

lemma unat_of_char [simp]: "unat (of_char c :: byte) = of_char c"
proof -
  have "(of_char c :: byte) = of_nat (of_char c)"
    by (simp add: of_nat_of_char)
  moreover have "of_char c < (2::nat) ^ 8"
    using nat_of_char_less_256 [of c] by simp
  ultimately show ?thesis
    by (simp add: unat_of_nat take_bit_nat_eq_self)
qed

lemma of_char_char_of_unat [simp]: "(of_char (char_of (unat (b :: byte))) :: byte) = b"
proof -
  have "unat b < 256"
    using unsigned_less [of b, where 'a = nat] by simp
  then have "(of_char (char_of (unat b)) :: nat) = unat b"
    by simp
  then show ?thesis
    by (metis of_nat_of_char word_unat_eq_iff unat_of_char)
qed

lemma length_bytes_of_string [simp]: "length (bytes_of_string s) = length s"
  by (simp add: bytes_of_string_def)

lemma length_string_of_bytes [simp]: "length (string_of_bytes bs) = length bs"
  by (simp add: string_of_bytes_def)

lemma string_of_bytes_of_string [simp]: "string_of_bytes (bytes_of_string s) = s"
  by (simp add: string_of_bytes_def bytes_of_string_def comp_def)

lemma bytes_of_string_of_bytes [simp]: "bytes_of_string (string_of_bytes bs) = bs"
  by (simp add: string_of_bytes_def bytes_of_string_def comp_def)

lemma bytes_of_string_Nil [simp]: "bytes_of_string [] = []"
  by (simp add: bytes_of_string_def)

lemma string_of_bytes_Nil [simp]: "string_of_bytes [] = []"
  by (simp add: string_of_bytes_def)

lemma bytes_of_string_append: "bytes_of_string (s @ t) = bytes_of_string s @ bytes_of_string t"
  by (simp add: bytes_of_string_def)

lemma string_of_bytes_append: "string_of_bytes (s @ t) = string_of_bytes s @ string_of_bytes t"
  by (simp add: string_of_bytes_def)

lemma inj_bytes_of_string [simp]: "bytes_of_string s = bytes_of_string t \<longleftrightarrow> s = t"
  by (metis string_of_bytes_of_string)

lemma bytes_of_string_Nil_iff [simp]: "bytes_of_string s = [] \<longleftrightarrow> s = []"
  by (simp add: bytes_of_string_def)

section \<open>Slices\<close>

text \<open>\<^verbatim>\<open>s[i:]\<close> panics when \<open>i\<close> is past the end of the slice.\<close>

definition slice_from :: "'a list \<Rightarrow> nat \<Rightarrow> 'a list option" where
  "slice_from xs i = (if i \<le> length xs then Some (drop i xs) else None)"

text \<open>\<^verbatim>\<open>s[i:j]\<close>, for a slice whose capacity is its length, as \<^verbatim>\<open>make\<close> returns it.\<close>

definition slice :: "'a list \<Rightarrow> nat \<Rightarrow> nat \<Rightarrow> 'a list option" where
  "slice xs i j = (if i \<le> j \<and> j \<le> length xs then Some (take (j - i) (drop i xs)) else None)"

text \<open>\<^verbatim>\<open>s[i]\<close> for a Go \<^verbatim>\<open>int\<close> index.\<close>

definition index :: "'a list \<Rightarrow> int \<Rightarrow> 'a option" where
  "index xs i = (if 0 \<le> i \<and> i < int (length xs) then Some (xs ! nat i) else None)"

section \<open>Big-endian words: encoding/binary\<close>

definition be16 :: "int16 \<Rightarrow> byte list" where
  "be16 v = [ucast (drop_bit 8 v), ucast v]"

definition be32 :: "int32 \<Rightarrow> byte list" where
  "be32 v = [ucast (drop_bit 24 v), ucast (drop_bit 16 v), ucast (drop_bit 8 v), ucast v]"

definition be64 :: "int64 \<Rightarrow> byte list" where
  "be64 v = [ucast (drop_bit 56 v), ucast (drop_bit 48 v), ucast (drop_bit 40 v),
     ucast (drop_bit 32 v), ucast (drop_bit 24 v), ucast (drop_bit 16 v),
     ucast (drop_bit 8 v), ucast v]"

fun Uint16 :: "byte list \<Rightarrow> int16 option" where
  "Uint16 (b0 # b1 # _) = Some (ucast b1 OR push_bit 8 (ucast b0))"
| "Uint16 _ = None"

fun Uint32 :: "byte list \<Rightarrow> int32 option" where
  "Uint32 (b0 # b1 # b2 # b3 # _) =
     Some (ucast b3 OR push_bit 8 (ucast b2) OR push_bit 16 (ucast b1) OR push_bit 24 (ucast b0))"
| "Uint32 _ = None"

fun Uint64 :: "byte list \<Rightarrow> int64 option" where
  "Uint64 (b0 # b1 # b2 # b3 # b4 # b5 # b6 # b7 # _) =
     Some (ucast b7 OR push_bit 8 (ucast b6) OR push_bit 16 (ucast b5) OR push_bit 24 (ucast b4)
       OR push_bit 32 (ucast b3) OR push_bit 40 (ucast b2) OR push_bit 48 (ucast b1)
       OR push_bit 56 (ucast b0))"
| "Uint64 _ = None"

lemma length_be16 [simp]: "length (be16 v) = 2"
  by (simp add: be16_def)

lemma length_be32 [simp]: "length (be32 v) = 4"
  by (simp add: be32_def)

lemma length_be64 [simp]: "length (be64 v) = 8"
  by (simp add: be64_def)

lemma bit_ucast_ucast [bit_simps]:
  "bit (ucast (ucast (v :: 'a::len word) :: byte) :: 'a word) n
     \<longleftrightarrow> n < 8 \<and> bit v n"
  by (auto simp: bit_simps dest: bit_imp_le_length)

lemma bit_push_bit_byte:
  "bit (push_bit k (ucast (ucast (drop_bit k v) :: byte)) :: 'a::len word) n
     \<longleftrightarrow> k \<le> n \<and> n < k + 8 \<and> bit (v :: 'a word) n"
  by (auto simp: bit_simps dest: bit_imp_le_length)

lemma Uint16_be16 [simp]: "Uint16 (be16 v @ rest) = Some v"
  by (simp add: be16_def)
    (rule bit_word_eqI, auto simp: bit_or_iff bit_push_bit_byte bit_ucast_ucast)

lemma Uint32_be32 [simp]: "Uint32 (be32 v @ rest) = Some v"
  by (simp add: be32_def)
    (rule bit_word_eqI, auto simp: bit_or_iff bit_push_bit_byte bit_ucast_ucast)

lemma Uint64_be64 [simp]: "Uint64 (be64 v @ rest) = Some v"
  by (simp add: be64_def)
    (rule bit_word_eqI, auto simp: bit_or_iff bit_push_bit_byte bit_ucast_ucast)

lemma Uint16_None_iff: "Uint16 bs = None \<longleftrightarrow> length bs < 2"
  by (cases bs rule: Uint16.cases) auto

lemma Uint32_None_iff: "Uint32 bs = None \<longleftrightarrow> length bs < 4"
  by (cases bs rule: Uint32.cases) auto

lemma Uint32_take [simp]: "Uint32 (take 4 bs) = Uint32 bs"
  by (cases bs rule: Uint32.cases) auto

lemma Uint64_None_iff: "Uint64 bs = None \<longleftrightarrow> length bs < 8"
  by (cases bs rule: Uint64.cases) auto

end
