(* ===== verification/GoTime.thy ===== *)
theory GoTime
  imports GoBase
begin

text \<open>
  What the driver uses of Go's \<^verbatim>\<open>time.Time\<close>: an instant with the offset of its location, the
  calendar fields read in that location, the change to UTC, and \<^verbatim>\<open>time.Date\<close>, which normalises
  out-of-range fields the way the standard library documents (month 13 is January of the next
  year, hour 25 is one o'clock of the next day).  The calendar is the proleptic Gregorian one.
\<close>

record Time =
  unixNano :: int  \<comment> \<open>nanoseconds since 1970-01-01 00:00:00 UTC\<close>
  zoneOff :: int   \<comment> \<open>offset of the location in seconds east of UTC\<close>

section \<open>The calendar\<close>

definition is_leap :: "int \<Rightarrow> bool" where
  "is_leap y \<longleftrightarrow> y mod 4 = 0 \<and> (y mod 100 \<noteq> 0 \<or> y mod 400 = 0)"

definition leaps :: "int \<Rightarrow> int" where
  "leaps y = y div 4 - y div 100 + y div 400"

definition days_to_year :: "int \<Rightarrow> int" where
  "days_to_year y = 365 * (y - 1970) + leaps (y - 1) - 477"

definition cumulative :: "bool \<Rightarrow> int list" where
  "cumulative leap =
     (if leap then [31, 60, 91, 121, 152, 182, 213, 244, 274, 305, 335]
      else [31, 59, 90, 120, 151, 181, 212, 243, 273, 304, 334])"

definition days_before :: "bool \<Rightarrow> int \<Rightarrow> int" where
  "days_before leap m = (0 # cumulative leap) ! nat (m - 1)"

definition days_in :: "bool \<Rightarrow> int \<Rightarrow> int" where
  "days_in leap m = [31, if leap then 29 else 28, 31, 30, 31, 30, 31, 31, 30, 31, 30, 31] ! nat (m - 1)"

definition date_days :: "int \<Rightarrow> int \<Rightarrow> int \<Rightarrow> int" where
  "date_days y m d = days_to_year y + days_before (is_leap y) m + d - 1"

definition year_of_days :: "int \<Rightarrow> int" where
  "year_of_days z =
     (let y = 1970 + (400 * z) div 146097
      in if z < days_to_year y then y - 1
         else if days_to_year (y + 1) \<le> z then y + 1
         else y)"

definition month_of_days :: "int \<Rightarrow> int" where
  "month_of_days z =
     (let y = year_of_days z; doy = z - days_to_year y
      in 1 + int (length (filter (\<lambda>b. b \<le> doy) (cumulative (is_leap y)))))"

definition day_of_days :: "int \<Rightarrow> int" where
  "day_of_days z =
     (let y = year_of_days z
      in z - days_to_year y - days_before (is_leap y) (month_of_days z) + 1)"

definition valid_date :: "int \<Rightarrow> int \<Rightarrow> int \<Rightarrow> bool" where
  "valid_date y m d \<longleftrightarrow> 1 \<le> m \<and> m \<le> 12 \<and> 1 \<le> d \<and> d \<le> days_in (is_leap y) m"

definition valid_clock :: "int \<Rightarrow> int \<Rightarrow> int \<Rightarrow> bool" where
  "valid_clock h mi s \<longleftrightarrow> 0 \<le> h \<and> h < 24 \<and> 0 \<le> mi \<and> mi < 60 \<and> 0 \<le> s \<and> s < 60"

lemma div_bounds:
  assumes "0 < (k :: int)"
  shows "k * (a div k) \<le> a" and "a < k * (a div k) + k"
  using assms mult_div_mod_eq [of k a] pos_mod_sign [of k a] pos_mod_bound [of k a] by linarith+

lemma leaps_lower: "97 * a - 800 < 400 * leaps a"
  unfolding leaps_def
  using div_bounds [of 4 a] div_bounds [of 100 a] div_bounds [of 400 a] by simp

lemma leaps_upper: "400 * leaps a < 97 * a + 400"
  unfolding leaps_def
  using div_bounds [of 4 a] div_bounds [of 100 a] div_bounds [of 400 a] by simp

lemma div_pred:
  assumes "0 < (k :: int)"
  shows "y div k = (y - 1) div k + (if y mod k = 0 then 1 else 0)"
proof (cases "y mod k = 0")
  case True
  have "(y - 1) div k = y div k - 1"
    by (rule int_div_pos_eq [where r = "k - 1"])
      (use assms True mult_div_mod_eq [of k y] in \<open>simp_all add: algebra_simps\<close>)
  with True show ?thesis by simp
next
  case False
  then have "0 < y mod k"
    using pos_mod_sign [OF assms, of y] by linarith
  then have "(y - 1) div k = y div k"
    using int_div_pos_eq [of "y - 1" k "y div k" "y mod k - 1"] mult_div_mod_eq [of k y]
      pos_mod_bound [OF assms, of y] by linarith
  with False show ?thesis by simp
qed

lemma leaps_step: "leaps y = leaps (y - 1) + (if is_leap y then 1 else 0)"
proof -
  have count: "a - b + c = a' - b' + c' + (if p \<and> (\<not> q \<or> r) then 1 else 0)"
    if "a = a' + (if p then 1 else 0)" "b = b' + (if q then 1 else 0)"
      "c = c' + (if r then 1 else 0)" "q \<Longrightarrow> p" "r \<Longrightarrow> q"
    for a a' b b' c c' :: int and p q r
    using that by (cases p; cases q; cases r; simp)
  show ?thesis
    unfolding leaps_def is_leap_def
  proof (rule count [OF div_pred div_pred div_pred])
    show "y mod 100 = 0 \<Longrightarrow> y mod 4 = 0" "y mod 400 = 0 \<Longrightarrow> y mod 100 = 0"
      using dvd_trans [of 4 100 y] dvd_trans [of 100 400 y] by (simp_all add: mod_eq_0_iff_dvd)
  qed simp_all
qed

lemma days_to_year_Suc: "days_to_year (y + 1) = days_to_year y + (if is_leap y then 366 else 365)"
  using leaps_step [of y] by (simp add: days_to_year_def)

lemma days_to_year_mono: "y \<le> y' \<Longrightarrow> days_to_year y \<le> days_to_year y'"
proof (induction y' rule: int_ge_induct)
  case (step i)
  then show ?case using days_to_year_Suc [of i] by (auto split: if_splits)
qed simp

text \<open>The year is found from an estimate that is at most one year off.\<close>

lemma year_of_days:
  "days_to_year (year_of_days z) \<le> z \<and> z < days_to_year (year_of_days z + 1)"
proof -
  let ?y = "1970 + (400 * z) div 146097"
  have q: "400 * z = 146097 * ((400 * z) div 146097) + (400 * z) mod 146097"
    "0 \<le> (400 * z) mod 146097" "(400 * z) mod 146097 < 146097" by simp_all
  have "days_to_year (?y - 1) \<le> z"
    using leaps_upper [of "?y - 2"] q unfolding days_to_year_def by simp
  moreover have "z < days_to_year (?y + 2)"
    using leaps_lower [of "?y + 1"] q unfolding days_to_year_def by simp
  ultimately show ?thesis
    unfolding year_of_days_def Let_def by (auto simp: add.commute)
qed

lemma year_of_days_unique:
  assumes "days_to_year y \<le> z" and "z < days_to_year (y + 1)"
  shows "year_of_days z = y"
proof (rule ccontr)
  assume "year_of_days z \<noteq> y"
  then consider "year_of_days z + 1 \<le> y" | "y + 1 \<le> year_of_days z" by linarith
  then show False
    using assms year_of_days [of z] by cases (use days_to_year_mono in force)+
qed

lemma day_of_year_bounds:
  assumes "1 \<le> m" and "m \<le> 12" and "1 \<le> d" and "d \<le> days_in leap m"
  shows "0 \<le> days_before leap m + d - 1"
    and "days_before leap m + d - 1 < (if leap then 366 else 365)"
    and "1 + int (length (filter (\<lambda>b. b \<le> days_before leap m + d - 1) (cumulative leap))) = m"
proof -
  have m: "m = 1 \<or> m = 2 \<or> m = 3 \<or> m = 4 \<or> m = 5 \<or> m = 6 \<or> m = 7 \<or> m = 8 \<or> m = 9
      \<or> m = 10 \<or> m = 11 \<or> m = 12"
    using assms(1,2) by presburger
  show "0 \<le> days_before leap m + d - 1"
    and "days_before leap m + d - 1 < (if leap then 366 else 365)"
    and "1 + int (length (filter (\<lambda>b. b \<le> days_before leap m + d - 1) (cumulative leap))) = m"
    using m assms(3,4)
    by (elim disjE; cases leap; simp add: days_before_def cumulative_def days_in_def)+
qed

text \<open>A valid calendar date is recovered from its day number.\<close>

lemma civil_date_days:
  assumes "valid_date y m d"
  shows "year_of_days (date_days y m d) = y" and "month_of_days (date_days y m d) = m"
    and "day_of_days (date_days y m d) = d"
proof -
  have v: "1 \<le> m" "m \<le> 12" "1 \<le> d" "d \<le> days_in (is_leap y) m"
    using assms by (simp_all add: valid_date_def)
  show y: "year_of_days (date_days y m d) = y"
    by (rule year_of_days_unique)
      (use day_of_year_bounds [OF v] days_to_year_Suc [of y] in \<open>simp_all add: date_days_def\<close>)
  show m: "month_of_days (date_days y m d) = m"
  proof -
    have "date_days y m d - days_to_year y = days_before (is_leap y) m + d - 1"
      by (simp add: date_days_def)
    then show ?thesis
      using day_of_year_bounds(3) [OF v] by (simp only: month_of_days_def y Let_def)
  qed
  show "day_of_days (date_days y m d) = d"
    by (simp add: day_of_days_def y m) (simp add: date_days_def)
qed

section \<open>time.Time\<close>

definition localNano :: "Time \<Rightarrow> int" where
  "localNano t = unixNano t + zoneOff t * 1000000000"

definition localDays :: "Time \<Rightarrow> int" where
  "localDays t = localNano t div 86400000000000"

definition localSeconds :: "Time \<Rightarrow> int" where
  "localSeconds t = localNano t div 1000000000 mod 86400"

definition Year :: "Time \<Rightarrow> int" where "Year t = year_of_days (localDays t)"

definition Month :: "Time \<Rightarrow> int" where "Month t = month_of_days (localDays t)"

definition Day :: "Time \<Rightarrow> int" where "Day t = day_of_days (localDays t)"

definition Hour :: "Time \<Rightarrow> int" where "Hour t = localSeconds t div 3600"

definition Minute :: "Time \<Rightarrow> int" where "Minute t = localSeconds t mod 3600 div 60"

definition Second :: "Time \<Rightarrow> int" where "Second t = localSeconds t mod 60"

definition Nanosecond :: "Time \<Rightarrow> int" where "Nanosecond t = localNano t mod 1000000000"

definition UTC :: "Time \<Rightarrow> Time" where "UTC t = t\<lparr>zoneOff := 0\<rparr>"

text \<open>\<^verbatim>\<open>time.Date(year, month, day, hour, min, sec, nsec, time.UTC)\<close>.\<close>

definition Date :: "int \<Rightarrow> int \<Rightarrow> int \<Rightarrow> int \<Rightarrow> int \<Rightarrow> int \<Rightarrow> int \<Rightarrow> Time" where
  "Date year month day hour minute sec nsec =
     (let y = year + (month - 1) div 12; m = (month - 1) mod 12 + 1;
          days = date_days y m day
      in \<lparr>unixNano = ((days * 86400) + hour * 3600 + minute * 60 + sec) * 1000000000 + nsec,
          zoneOff = 0\<rparr>)"

lemma nano_split:
  assumes "valid_clock h mi s" and "0 \<le> ns" and "ns < 1000000000"
  shows "((D * 86400 + h * 3600 + mi * 60 + s) * 1000000000 + ns) div 86400000000000 = D"
    and "((D * 86400 + h * 3600 + mi * 60 + s) * 1000000000 + ns) div 1000000000 mod 86400
           = h * 3600 + mi * 60 + s"
    and "((D * 86400 + h * 3600 + mi * 60 + s) * 1000000000 + ns) mod 1000000000 = ns"
proof -
  have c: "0 \<le> h * 3600 + mi * 60 + s" "h * 3600 + mi * 60 + s < 86400"
    using assms(1) unfolding valid_clock_def by linarith+
  have sec: "((D * 86400 + h * 3600 + mi * 60 + s) * 1000000000 + ns) div 1000000000
      = D * 86400 + (h * 3600 + mi * 60 + s)"
    by (rule int_div_pos_eq [where r = ns]) (use assms in simp_all)
  show "((D * 86400 + h * 3600 + mi * 60 + s) * 1000000000 + ns) div 86400000000000 = D"
    by (rule int_div_pos_eq [where r = "(h * 3600 + mi * 60 + s) * 1000000000 + ns"])
      (use assms c in \<open>simp_all add: algebra_simps\<close>)
  show "((D * 86400 + h * 3600 + mi * 60 + s) * 1000000000 + ns) div 1000000000 mod 86400
      = h * 3600 + mi * 60 + s"
    unfolding sec using c by simp
  show "((D * 86400 + h * 3600 + mi * 60 + s) * 1000000000 + ns) mod 1000000000 = ns"
    by (rule int_mod_pos_eq [where q = "D * 86400 + h * 3600 + mi * 60 + s"])
      (use assms in simp_all)
qed

text \<open>\<^verbatim>\<open>time.Date\<close> of valid fields reads back as those fields.\<close>

lemma Date_fields:
  assumes "valid_date y m d" and "valid_clock h mi s" and "0 \<le> ns" and "ns < 1000000000"
  shows "Year (Date y m d h mi s ns) = y" and "Month (Date y m d h mi s ns) = m"
    and "Day (Date y m d h mi s ns) = d" and "Hour (Date y m d h mi s ns) = h"
    and "Minute (Date y m d h mi s ns) = mi" and "Second (Date y m d h mi s ns) = s"
    and "Nanosecond (Date y m d h mi s ns) = ns"
proof -
  have m: "1 \<le> m" "m \<le> 12" using assms(1) by (simp_all add: valid_date_def)
  have D: "localNano (Date y m d h mi s ns)
      = (date_days y m d * 86400 + h * 3600 + mi * 60 + s) * 1000000000 + ns"
    using m by (simp add: Date_def Let_def localNano_def)
  note split = nano_split [OF assms(2-4), of "date_days y m d"]
  show "Year (Date y m d h mi s ns) = y" "Month (Date y m d h mi s ns) = m"
    "Day (Date y m d h mi s ns) = d"
    by (simp_all only: Year_def Month_def Day_def localDays_def D split(1) civil_date_days [OF assms(1)])
  have c: "0 \<le> mi" "mi < 60" "0 \<le> s" "s < 60"
    using assms(2) by (simp_all add: valid_clock_def)
  have "(h * 3600 + mi * 60 + s) div 3600 = h"
    by (rule int_div_pos_eq [where r = "mi * 60 + s"]) (use c in simp_all)
  then show "Hour (Date y m d h mi s ns) = h"
    by (simp only: Hour_def localSeconds_def D split(2))
  have "(h * 3600 + mi * 60 + s) mod 3600 = mi * 60 + s"
    by (rule int_mod_pos_eq [where q = h]) (use c in simp_all)
  moreover have "(mi * 60 + s) div 60 = mi"
    by (rule int_div_pos_eq [where r = s]) (use c in simp_all)
  ultimately show "Minute (Date y m d h mi s ns) = mi"
    by (simp only: Minute_def localSeconds_def D split(2))
  have "(h * 3600 + mi * 60 + s) mod 60 = s"
    by (rule int_mod_pos_eq [where q = "h * 60 + mi"]) (use c in simp_all)
  then show "Second (Date y m d h mi s ns) = s"
    by (simp only: Second_def localSeconds_def D split(2))
  show "Nanosecond (Date y m d h mi s ns) = ns"
    by (simp only: Nanosecond_def D split(3))
qed

text \<open>Any instant is \<^verbatim>\<open>time.Date\<close> of its own UTC fields.\<close>

lemma days_in_cover:
  assumes "0 \<le> doy" and "doy < (if leap then 366 else 365)"
  defines "m \<equiv> 1 + int (length (filter (\<lambda>b. b \<le> doy) (cumulative leap)))"
  shows "1 \<le> m \<and> m \<le> 12 \<and> days_before leap m \<le> doy \<and> doy < days_before leap m + days_in leap m"
  using assms(1,2) unfolding m_def
  by (cases leap) (auto simp: cumulative_def days_before_def days_in_def)

lemma civil_of_days:
  "valid_date (year_of_days z) (month_of_days z) (day_of_days z)"
  "date_days (year_of_days z) (month_of_days z) (day_of_days z) = z"
proof -
  let ?y = "year_of_days z"
  have "0 \<le> z - days_to_year ?y" and "z - days_to_year ?y < (if is_leap ?y then 366 else 365)"
    using year_of_days [of z] days_to_year_Suc [of ?y] by simp_all
  from days_in_cover [OF this]
  have c: "1 \<le> month_of_days z" "month_of_days z \<le> 12"
    "days_before (is_leap ?y) (month_of_days z) \<le> z - days_to_year ?y"
    "z - days_to_year ?y
       < days_before (is_leap ?y) (month_of_days z) + days_in (is_leap ?y) (month_of_days z)"
    by (simp_all only: month_of_days_def Let_def)
  then show "valid_date ?y (month_of_days z) (day_of_days z)"
    by (simp add: valid_date_def day_of_days_def Let_def)
  show "date_days ?y (month_of_days z) (day_of_days z) = z"
    by (simp add: date_days_def day_of_days_def Let_def)
qed

lemma fields_valid:
  "valid_date (Year t) (Month t) (Day t)" "valid_clock (Hour t) (Minute t) (Second t)"
  "0 \<le> Nanosecond t" "Nanosecond t < 1000000000"
proof -
  have "0 \<le> localSeconds t" "localSeconds t < 86400"
    by (simp_all add: localSeconds_def)
  moreover have "0 \<le> localSeconds t mod 3600" "localSeconds t mod 3600 < 3600"
    by simp_all
  ultimately show "valid_clock (Hour t) (Minute t) (Second t)"
    using div_bounds(1) [of 3600 "localSeconds t"] div_bounds(1) [of 60 "localSeconds t mod 3600"]
    by (simp add: valid_clock_def Hour_def Minute_def Second_def pos_imp_zdiv_nonneg_iff)
qed (simp_all add: Year_def Month_def Day_def civil_of_days Nanosecond_def)

lemma Date_of_fields:
  "Date (Year t) (Month t) (Day t) (Hour t) (Minute t) (Second t) ns
     = \<lparr>unixNano = localNano t - Nanosecond t + ns, zoneOff = 0\<rparr>"
proof -
  have m: "1 \<le> Month t" "Month t \<le> 12"
    using fields_valid(1) [of t] by (simp_all add: valid_date_def)
  have s: "Hour t * 3600 + Minute t * 60 + Second t = localSeconds t"
    unfolding Hour_def Minute_def Second_def
    using mult_div_mod_eq [of 3600 "localSeconds t"] mult_div_mod_eq [of 60 "localSeconds t mod 3600"]
      mod_mod_cancel [of 60 3600 "localSeconds t", simplified] by linarith
  have n: "localNano t = localNano t div 1000000000 * 1000000000 + Nanosecond t"
    by (simp add: Nanosecond_def)
  have "localNano t div 1000000000 div 86400 = localDays t"
    by (simp add: localDays_def zdiv_zmult2_eq [symmetric])
  then have "localNano t div 1000000000 = localDays t * 86400 + localSeconds t"
    unfolding localSeconds_def by (metis div_mult_mod_eq)
  then have "(localDays t * 86400 + (Hour t * 3600 + Minute t * 60 + Second t)) * 1000000000
      = localNano t - Nanosecond t"
    using n s by simp
  then show ?thesis
    using m by (simp add: Date_def Let_def civil_of_days Year_def Month_def Day_def
        add.assoc del: mult_numeral_left)
qed

end
