(* ===== verification/Errors.thy ===== *)
theory Errors
  imports GoStrings
begin

text \<open>
  \<^verbatim>\<open>errors.go\<close>: the driver's error types, the classification of a server error by its message,
  and the case-insensitive search it uses.  \<open>go_error\<close> also holds the error values of other
  packages that the driver returns or compares: \<^verbatim>\<open>driver.ErrBadConn\<close>, \<^verbatim>\<open>io.EOF\<close>,
  \<^verbatim>\<open>io.ErrUnexpectedEOF\<close>, errors of \<^verbatim>\<open>net\<close> and \<^verbatim>\<open>context\<close>, and \<^verbatim>\<open>fmt.Errorf\<close> texts.
\<close>

record CubridError =
  Code :: int
  Message :: string

datatype go_error =
    BaseError CubridError
  | IntegrityError CubridError
  | ProgrammingError CubridError
  | OperationalError CubridError
  | ErrBadConn
  | IoEOF
  | IoUnexpectedEOF
  | NetError string
  | ContextError string
  | FmtError string

definition CubridError_Error :: "CubridError \<Rightarrow> string" where
  "CubridError_Error e = ''cubrid: ['' @ FormatInt (Code e) @ ''] '' @ Message e"

text \<open>\<^verbatim>\<open>toLower\<close> maps the bytes one by one, and only the ASCII capitals.\<close>

definition toLower_byte :: "char \<Rightarrow> char" where
  "toLower_byte c =
     (if CHR ''A'' \<le> c \<and> c \<le> CHR ''Z''
      then char_of (of_char c + (of_char CHR ''a'' - of_char CHR ''A'') :: nat) else c)"

definition toLower :: "string \<Rightarrow> string" where
  "toLower s = map toLower_byte s"

function indexCI_loop :: "string \<Rightarrow> string \<Rightarrow> int \<Rightarrow> int" where
  "indexCI_loop sLow subLow i =
     (if i \<le> int (length sLow) - int (length subLow)
      then if take (length subLow) (drop (nat i) sLow) = subLow then i
           else indexCI_loop sLow subLow (i + 1)
      else -1)"
  by pat_completeness auto
termination
  by (relation "measure (\<lambda>(sLow, subLow, i). nat (int (length sLow) - int (length subLow) + 1 - i))")
    auto

declare indexCI_loop.simps [simp del]

definition indexCI :: "string \<Rightarrow> string \<Rightarrow> int" where
  "indexCI s sub = (let sLow = toLower s; subLow = toLower sub in indexCI_loop sLow subLow 0)"

definition containsCI :: "string \<Rightarrow> string \<Rightarrow> bool" where
  "containsCI s sub \<longleftrightarrow> length sub \<le> length s \<and> 0 \<le> indexCI s sub"

definition integrity_keywords :: "string list" where
  "integrity_keywords = [''unique'', ''duplicate'', ''foreign key'', ''constraint violation'']"

definition programming_keywords :: "string list" where
  "programming_keywords = [''syntax'', ''unknown class'', ''does not exist'', ''not found'']"

definition newError :: "32 word \<Rightarrow> string \<Rightarrow> go_error" where
  "newError code message =
     (let base = \<lparr>Code = sint code, Message = message\<rparr>; msg = message in
      if list_ex (\<lambda>kw. containsCI msg kw) integrity_keywords then IntegrityError base
      else if list_ex (\<lambda>kw. containsCI msg kw) programming_keywords then ProgrammingError base
      else BaseError base)"

section \<open>The search\<close>

lemma length_toLower [simp]: "length (toLower s) = length s"
  by (simp add: toLower_def)

lemma toLower_append: "toLower (s @ t) = toLower s @ toLower t"
  by (simp add: toLower_def)

lemma toLower_byte_idem: "toLower_byte (toLower_byte c) = toLower_byte c"
  by (simp add: toLower_byte_def less_eq_char_def)

lemma toLower_idem [simp]: "toLower (toLower s) = toLower s"
  by (simp add: toLower_def toLower_byte_idem)

text \<open>
  The loop finds the first match at or after its index: the result is -1 when there is none,
  and otherwise a match with no match before it.
\<close>

definition matches_at :: "string \<Rightarrow> string \<Rightarrow> int \<Rightarrow> bool" where
  "matches_at s sub i \<longleftrightarrow> 0 \<le> i \<and> i + int (length sub) \<le> int (length s)
     \<and> take (length sub) (drop (nat i) s) = sub"

lemma indexCI_loop_spec:
  assumes "0 \<le> i"
  shows "(indexCI_loop s sub i = -1 \<and> (\<forall>j\<ge>i. \<not> matches_at s sub j))
    \<or> (i \<le> indexCI_loop s sub i \<and> matches_at s sub (indexCI_loop s sub i)
       \<and> (\<forall>j. i \<le> j \<and> j < indexCI_loop s sub i \<longrightarrow> \<not> matches_at s sub j))"
  using assms
proof (induction s sub i rule: indexCI_loop.induct)
  case (1 s sub i)
  consider (past) "\<not> i \<le> int (length s) - int (length sub)"
    | (hit) "i \<le> int (length s) - int (length sub)" "take (length sub) (drop (nat i) s) = sub"
    | (miss) "i \<le> int (length s) - int (length sub)" "take (length sub) (drop (nat i) s) \<noteq> sub"
    by blast
  then show ?case
  proof cases
    case past
    then show ?thesis by (simp add: indexCI_loop.simps [of s sub i] matches_at_def)
  next
    case hit
    with 1(2) show ?thesis by (auto simp: indexCI_loop.simps [of s sub i] matches_at_def)
  next
    case miss
    then have step: "indexCI_loop s sub i = indexCI_loop s sub (i + 1)"
      and no: "\<not> matches_at s sub i"
      by (simp_all add: indexCI_loop.simps [of s sub i] matches_at_def)
    have "j = i \<or> i + 1 \<le> j" if "i \<le> j" for j
      using that by linarith
    with 1(1) [OF miss] 1(2) no show ?thesis
      unfolding step by (smt (verit))
  qed
qed

lemma matches_at_sublist: "(\<exists>i. matches_at s sub i) \<longleftrightarrow> sublist sub s"
proof
  assume "\<exists>i. matches_at s sub i"
  then obtain i where "take (length sub) (drop (nat i) s) = sub"
    by (auto simp: matches_at_def)
  then have "s = take (nat i) s @ sub @ drop (length sub) (drop (nat i) s)"
    by (metis append_take_drop_id)
  then show "sublist sub s" by (metis sublist_appendI)
next
  assume "sublist sub s"
  then obtain p q where "s = p @ sub @ q" by (auto simp: sublist_def)
  then have "matches_at s sub (int (length p))" by (simp add: matches_at_def)
  then show "\<exists>i. matches_at s sub i" ..
qed

lemma indexCI_spec:
  "if sublist (toLower sub) (toLower s)
   then matches_at (toLower s) (toLower sub) (indexCI s sub)
     \<and> (\<forall>j<indexCI s sub. \<not> matches_at (toLower s) (toLower sub) j)
   else indexCI s sub = -1"
proof -
  have neg: "\<not> matches_at (toLower s) (toLower sub) j" if "j < 0" for j
    using that by (simp add: matches_at_def)
  show ?thesis
    using indexCI_loop_spec [of 0 "toLower s" "toLower sub"]
      matches_at_sublist [of "toLower s" "toLower sub"] neg
    by (simp add: indexCI_def) (metis not_le)
qed

lemma containsCI_sublist: "containsCI s sub \<longleftrightarrow> sublist (toLower sub) (toLower s)"
proof
  assume "containsCI s sub"
  then show "sublist (toLower sub) (toLower s)"
    using indexCI_spec [of sub s] by (auto simp: containsCI_def split: if_splits)
next
  assume sub: "sublist (toLower sub) (toLower s)"
  then have "length sub \<le> length s"
    using sublist_length_le by fastforce
  with sub indexCI_spec [of sub s] show "containsCI s sub"
    by (auto simp: containsCI_def matches_at_def)
qed

section \<open>The classification\<close>

fun error_info :: "go_error \<Rightarrow> CubridError option" where
  "error_info (BaseError e) = Some e"
| "error_info (IntegrityError e) = Some e"
| "error_info (ProgrammingError e) = Some e"
| "error_info (OperationalError e) = Some e"
| "error_info _ = None"

lemma newError_cases:
  "newError code msg =
     (if \<exists>kw\<in>set integrity_keywords. sublist (toLower kw) (toLower msg)
      then IntegrityError \<lparr>Code = sint code, Message = msg\<rparr>
      else if \<exists>kw\<in>set programming_keywords. sublist (toLower kw) (toLower msg)
      then ProgrammingError \<lparr>Code = sint code, Message = msg\<rparr>
      else BaseError \<lparr>Code = sint code, Message = msg\<rparr>)"
  by (simp add: newError_def Let_def list_ex_iff containsCI_sublist)

section \<open>Properties\<close>

text \<open>What it means that a word occurs in any case, without the lowering: some stretch of the text has the
  same characters, or the capital for a small letter or the other way round.\<close>

definition same_letter :: "char \<Rightarrow> char \<Rightarrow> bool" where
  "same_letter c d \<longleftrightarrow> c = d
     \<or> (\<exists>n\<in>{65..90}. {c, d} = {char_of n, char_of (n + 32 :: nat)})"

definition occurs :: "string \<Rightarrow> string \<Rightarrow> bool" where
  "occurs word text \<longleftrightarrow> (\<exists>p w q. text = p @ w @ q \<and> list_all2 same_letter word w)"

lemma toLower_byte_code:
  "of_char (toLower_byte c) = (if 65 \<le> (of_char c :: nat) \<and> of_char c \<le> (90 :: nat) then of_char c + 32 else of_char c :: nat)"
  by (simp add: toLower_byte_def less_eq_char_def)

lemma same_letter_codes:
  "same_letter c d \<longleftrightarrow> of_char c = (of_char d :: nat)
     \<or> (65 \<le> (of_char c :: nat) \<and> of_char c \<le> (90 :: nat) \<and> of_char d = of_char c + (32 :: nat))
     \<or> (65 \<le> (of_char d :: nat) \<and> of_char d \<le> (90 :: nat) \<and> of_char c = of_char d + (32 :: nat))"
proof -
  have code: "x = char_of n \<longleftrightarrow> of_char x = n" if "n < 256" for x :: char and n :: nat
    using that by (auto simp: of_char_of)
  have "{c, d} = {char_of n, char_of (n + 32 :: nat)}
      \<longleftrightarrow> of_char c = n \<and> of_char d = n + 32 \<or> of_char d = n \<and> of_char c = n + 32"
    if "n \<in> {65..90}" for n :: nat
  proof -
    have "n < 256" "n + 32 < 256" using that by simp_all
    then have "char_of n \<noteq> (char_of (n + 32) :: char)"
      using code [of "n + 32" "char_of n"] by (simp add: of_char_of)
    then show ?thesis unfolding code [OF \<open>n < 256\<close>, symmetric] code [OF \<open>n + 32 < 256\<close>, symmetric]
      by (auto simp: doubleton_eq_iff)
  qed
  then show ?thesis by (auto simp: same_letter_def)
qed

lemma same_letter_toLower: "same_letter c d \<longleftrightarrow> toLower_byte c = toLower_byte d"
proof -
  have "toLower_byte c = toLower_byte d \<longleftrightarrow> of_char (toLower_byte c) = (of_char (toLower_byte d) :: nat)" by simp
  then show ?thesis unfolding toLower_byte_code same_letter_codes by (auto split: if_splits)
qed

lemma occurs_toLower: "occurs word text \<longleftrightarrow> sublist (toLower word) (toLower text)"
proof -
  have w: "list_all2 same_letter word w \<longleftrightarrow> toLower word = toLower w" for w
    by (auto simp: toLower_def list_all2_conv_all_nth same_letter_toLower list_eq_iff_nth_eq)
  have split: "\<exists>u v. s = u @ v \<and> toLower u = x \<and> toLower v = y" if "toLower s = x @ y" for s x y
    using that by (auto simp: toLower_def map_eq_append_conv)
  have "\<exists>p w q. text = p @ w @ q \<and> toLower word = toLower w" if run: "toLower text = p @ toLower word @ q" for p q
  proof -
    obtain u v where 1: "text = u @ v" "toLower v = toLower word @ q" using split [OF run] by blast
    obtain w z where "v = w @ z" "toLower w = toLower word" using split [OF 1(2)] by blast
    with 1 show ?thesis by (intro exI [of _ u] exI [of _ w] exI [of _ z]) simp
  qed
  moreover have "\<exists>p' q'. toLower text = p' @ toLower word @ q'" if "text = p @ w @ q" "toLower word = toLower w" for p w q
    using that by (intro exI [of _ "toLower p"] exI [of _ "toLower q"]) (simp add: toLower_append)
  ultimately show ?thesis
    unfolding occurs_def w sublist_def by blast
qed

text \<open>C29: Every server error keeps its code and message, and its class is decided by the message alone:
  an integrity error when one of unique, duplicate, foreign key and constraint violation occurs in it, in
  any mixture of capital and small letters, else a programming error when one of syntax, unknown class,
  does not exist and not found occurs, else a plain error.\<close>

theorem newError_classifies:
  "error_info (newError code msg) = Some \<lparr>Code = sint code, Message = msg\<rparr>
   \<and> ((\<exists>e. newError code msg = IntegrityError e)
       \<longleftrightarrow> (\<exists>kw\<in>{''unique'', ''duplicate'', ''foreign key'', ''constraint violation''}. occurs kw msg))
   \<and> ((\<exists>e. newError code msg = ProgrammingError e)
       \<longleftrightarrow> (\<exists>kw\<in>{''syntax'', ''unknown class'', ''does not exist'', ''not found''}. occurs kw msg)
          \<and> \<not> (\<exists>kw\<in>{''unique'', ''duplicate'', ''foreign key'', ''constraint violation''}. occurs kw msg))
   \<and> (\<nexists>e. newError code msg = OperationalError e)"
  unfolding newError_cases occurs_toLower integrity_keywords_def programming_keywords_def list.set by auto

text \<open>The case-insensitive search returns the first index at which the lower-cased text holds the
  lower-cased pattern, and -1 when there is none.\<close>

theorem indexCI_first_match:
  "indexCI s sub =
     (case find (\<lambda>i. take (length sub) (drop i (toLower s)) = toLower sub) [0..<length s + 1 - length sub] of
        None \<Rightarrow> -1 | Some i \<Rightarrow> int i)"
proof -
  let ?P = "\<lambda>i. take (length sub) (drop i (toLower s)) = toLower sub"
  let ?is = "[0..<length s + 1 - length sub]"
  have m: "matches_at (toLower s) (toLower sub) (int i) \<longleftrightarrow> i \<in> set ?is \<and> ?P i" for i
    by (auto simp: matches_at_def)
  show ?thesis
  proof (cases "find ?P ?is")
    case None
    then have "\<not> matches_at (toLower s) (toLower sub) (int i)" for i
      unfolding m by (auto simp: find_None_iff)
    then have "\<not> sublist (toLower sub) (toLower s)"
      unfolding matches_at_sublist [symmetric] by (metis matches_at_def nonneg_int_cases)
    with None indexCI_spec [of sub s] show ?thesis by simp
  next
    case (Some i)
    then have i: "matches_at (toLower s) (toLower sub) (int i)"
      and first: "\<And>j. j < i \<Longrightarrow> \<not> matches_at (toLower s) (toLower sub) (int j)"
      unfolding m by (auto simp: find_Some_iff)
    from i have "sublist (toLower sub) (toLower s)"
      using matches_at_sublist by blast
    with indexCI_spec [of sub s] have k: "matches_at (toLower s) (toLower sub) (indexCI s sub)"
      and least: "\<forall>j<indexCI s sub. \<not> matches_at (toLower s) (toLower sub) j" by simp_all
    obtain k' where k': "indexCI s sub = int k'"
      using k by (auto simp: matches_at_def elim: nonneg_int_cases)
    from least i have "\<not> int i < int k'" unfolding k' by blast
    moreover have "\<not> k' < i" using first [of k'] k unfolding k' by blast
    ultimately show ?thesis using Some k' by simp
  qed
qed

end
