(* ===== verification/Values.thy ===== *)
theory Values
  imports GoTime Errors
begin

text \<open>
  The values that cross the \<^verbatim>\<open>database/sql/driver\<close> interface.  \<^verbatim>\<open>driver.Value\<close> is \<^verbatim>\<open>nil\<close> or one of six
  types; the type switches of the source also have a default branch, which \<open>VOther\<close> stands for: a
  value of any other dynamic type, with the texts that \<^verbatim>\<open>%T\<close> and \<^verbatim>\<open>%v\<close> print for it.
\<close>

datatype Value =
    VNil
  | VBool bool
  | VInt64 int64
  | VFloat64 int64
  | VString string
  | VBytes "byte list"
  | VTime Time
  | VOther string string

record NamedValue =
  nvName :: string
  nvValue :: Value

end
