(* ===== verification/GoFloat.thy ===== *)
theory GoFloat
  imports GoStrings
begin

text \<open>
  \<^verbatim>\<open>strconv.FormatFloat(v, 'g', -1, 64)\<close> on the bit pattern of a \<^verbatim>\<open>float64\<close>: the fewest decimal
  digits that identify the number, laid out as \<^verbatim>\<open>%e\<close> when the decimal exponent is below -4 or at
  least 6, and as \<^verbatim>\<open>%f\<close> otherwise (the rule of package strconv for the shortest \<^verbatim>\<open>'g'\<close>).
  The digits follow the library's rounding: keep the first \<open>n\<close> digits for the least \<open>n\<close> at which the
  truncated or the incremented prefix lies inside the interval of decimals that read back as the
  same number.  The widening of a \<^verbatim>\<open>float32\<close> to a \<^verbatim>\<open>float64\<close> is also here.
\<close>

section \<open>Decoding\<close>

definition f64_neg :: "int64 \<Rightarrow> bool" where "f64_neg b = bit b 63"

definition f64_exp :: "int64 \<Rightarrow> nat" where "f64_exp b = unat (take_bit 11 (drop_bit 52 b))"

definition f64_frac :: "int64 \<Rightarrow> int" where "f64_frac b = uint (take_bit 52 b)"

text \<open>A finite number is \<open>mant * 2 ^ (pow - 1076)\<close>, which keeps every exponent below a \<open>nat\<close>.\<close>

definition f64_mant :: "int64 \<Rightarrow> int" where
  "f64_mant b = (if f64_exp b = 0 then f64_frac b else 2 ^ 52 + f64_frac b)"

definition f64_pow :: "int64 \<Rightarrow> nat" where
  "f64_pow b = (if f64_exp b = 0 then 2 else f64_exp b + 1)"

section \<open>The shortest digits\<close>

text \<open>The number and the bounds of its interval, all as multiples of \<open>2 ^ -1076\<close>.\<close>

definition f64_num :: "int64 \<Rightarrow> int" where
  "f64_num b = f64_mant b * 2 ^ f64_pow b"

definition f64_upper :: "int64 \<Rightarrow> int" where
  "f64_upper b = (2 * f64_mant b + 1) * 2 ^ (f64_pow b - 1)"

definition f64_lower :: "int64 \<Rightarrow> int" where
  "f64_lower b =
     (if f64_mant b = 2 ^ 52 \<and> 1 < f64_exp b
      then (4 * f64_mant b - 1) * 2 ^ (f64_pow b - 2)
      else (2 * f64_mant b - 1) * 2 ^ (f64_pow b - 1))"

definition f64_den :: int where "f64_den = 2 ^ 1076"

text \<open>The position of the decimal point: \<open>10 ^ (dp - 1) \<le> x < 10 ^ dp\<close>; every number is above \<open>10 ^ -400\<close>.\<close>

definition dec_point :: "int \<Rightarrow> int" where
  "dec_point num = int (length (dec (num * 10 ^ 400 div f64_den))) - 400"

text \<open>\<open>num * 10 ^ k\<close> as a fraction.\<close>

definition scale10 :: "int \<Rightarrow> int \<Rightarrow> int \<times> int" where
  "scale10 num k = (if 0 \<le> k then (num * 10 ^ nat k, f64_den) else (num, f64_den * 10 ^ nat (- k)))"

definition trim_zeros :: "string \<Rightarrow> string" where
  "trim_zeros s = rev (dropWhile (\<lambda>c. c = CHR ''0'') (rev s))"

definition mk_digits :: "int \<Rightarrow> int \<Rightarrow> string \<times> int" where
  "mk_digits D e = (trim_zeros (dec D), int (length (dec D)) + e)"

fun shortest_loop :: "int64 \<Rightarrow> int \<Rightarrow> int \<Rightarrow> nat \<Rightarrow> string \<times> int" where
  "shortest_loop b dp n 0 = mk_digits (case scale10 (f64_num b) (n - dp) of (x, d) \<Rightarrow> x div d) (dp - n)"
| "shortest_loop b dp n (Suc fuel) =
     (let (v, d) = scale10 (f64_num b) (n - dp);
          (lo, _) = scale10 (f64_lower b) (n - dp);
          (hi, _) = scale10 (f64_upper b) (n - dp);
          inclusive = even (f64_mant b);
          t = v div d;
          okdown = (lo < t * d \<or> inclusive \<and> lo = t * d);
          okup = ((t + 1) * d < hi \<or> inclusive \<and> (t + 1) * d = hi)
      in if okdown \<and> okup then
           mk_digits (if 2 * (v mod d) < d \<or> (2 * (v mod d) = d \<and> even t) then t else t + 1) (dp - n)
         else if okdown then mk_digits t (dp - n)
         else if okup then mk_digits (t + 1) (dp - n)
         else shortest_loop b dp (n + 1) fuel)"

text \<open>Seventeen digits always identify a number; the search begins at the upper bound's first digit.\<close>

definition shortest :: "int64 \<Rightarrow> string \<times> int" where
  "shortest b =
     (let dp = dec_point (f64_num b)
      in shortest_loop b dp (dp - dec_point (f64_upper b) + 1) 18)"

section \<open>The layout\<close>

definition fmtE :: "string \<Rightarrow> int \<Rightarrow> string" where
  "fmtE digs dp =
     (let e = dp - 1 in
      take 1 digs @ (if 1 < length digs then CHR ''.'' # drop 1 digs else [])
        @ ''e'' @ (if e < 0 then ''-'' else ''+'') @ pad_dec 2 \<bar>e\<bar>)"

definition fmtF :: "string \<Rightarrow> int \<Rightarrow> string" where
  "fmtF digs dp =
     (if 0 < dp then take (nat dp) digs @ replicate (nat dp - length digs) CHR ''0'' else ''0'')
     @ (if int (length digs) > dp
        then CHR ''.'' # (replicate (nat (- dp)) CHR ''0'' @ drop (nat dp) digs) else [])"

definition FormatFloat :: "int64 \<Rightarrow> string" where
  "FormatFloat b =
     (if f64_exp b = 2047
      then (if f64_frac b \<noteq> 0 then ''NaN'' else if f64_neg b then ''-Inf'' else ''+Inf'')
      else
        (let (digs, dp) = (if f64_mant b = 0 then ([], 0) else shortest b); e = dp - 1
         in (if f64_neg b then ''-'' else [])
            @ (if e < -4 \<or> 6 \<le> e then fmtE digs dp else fmtF digs dp)))"

section \<open>Widening\<close>

text \<open>
  \<^verbatim>\<open>float64(x)\<close> of a \<^verbatim>\<open>float32\<close>: exact for every number; a NaN keeps its payload and is made quiet,
  as the conversion instruction does.
\<close>

definition f32_to_f64 :: "int32 \<Rightarrow> int64" where
  "f32_to_f64 b =
     (let s = (if bit b 31 then 2 ^ 63 else 0 :: int);
          e = uint (take_bit 8 (drop_bit 23 b)); f = uint (take_bit 23 b);
          mk = (\<lambda>e f. word_of_int (s + e * 2 ^ 52 + f) :: int64)
      in if e = 255 then (if f = 0 then mk 2047 0 else mk 2047 (f * 2 ^ 29 mod 2 ^ 51 + 2 ^ 51))
         else if e = 0 then
           (if f = 0 then mk 0 0
            else let k = length (filter (\<lambda>i. 2 ^ i \<le> f) [0..<23]) - 1 in mk (int k + 874) (f * 2 ^ (52 - k) mod 2 ^ 52))
         else mk (e + 896) (f * 2 ^ 29))"

end
