(* ===== verification/SqlText.thy ===== *)
theory SqlText
  imports Values GoFloat
begin

text \<open>
  \<^verbatim>\<open>types.go\<close>: client-side interpolation.  The scanner that finds the \<^verbatim>\<open>?\<close> placeholders outside
  strings and comments, the formatting of a driver value as a SQL literal, and the loop that puts
  the literals in place of the placeholders.
\<close>

section \<open>Literals\<close>

definition hx :: string where "hx = ''0123456789abcdef''"

text \<open>\<open>out[i*2]\<close> and \<open>out[i*2+1]\<close> of the source are the two characters each byte contributes.\<close>

definition hexEncode :: "byte list \<Rightarrow> string" where
  "hexEncode b = concat (map (\<lambda>c. [hx ! unat (drop_bit 4 c), hx ! unat (c AND 0x0f)]) b)"

definition escapeString :: "string \<Rightarrow> string" where
  "escapeString s =
     (let s = ReplaceAll s [CHR 0x5C] [CHR 0x5C, CHR 0x5C];
          s = ReplaceAll s [CHR 0x27] [CHR 0x27, CHR 0x27]
      in s)"

text \<open>\<^verbatim>\<open>t.Format("2006-01-02 15:04:05")\<close>.\<close>

definition formatDateTime :: "Time \<Rightarrow> string" where
  "formatDateTime t = appendInt (Year t) 4 @ ''-'' @ appendInt (Month t) 2 @ ''-'' @ appendInt (Day t) 2
     @ '' '' @ appendInt (Hour t) 2 @ '':'' @ appendInt (Minute t) 2 @ '':'' @ appendInt (Second t) 2"

fun FormatValue :: "Value \<Rightarrow> go_error + string" where
  "FormatValue VNil = Inr ''NULL''"
| "FormatValue (VBool val) = Inr (if val then ''1'' else ''0'')"
| "FormatValue (VInt64 val) = Inr (FormatInt (sint val))"
| "FormatValue (VFloat64 val) = Inr (FormatFloat val)"
| "FormatValue (VString val) = Inr ([CHR 0x27] @ escapeString val @ [CHR 0x27])"
| "FormatValue (VBytes val) = Inr (CHR ''X'' # [CHR 0x27] @ hexEncode val @ [CHR 0x27])"
| "FormatValue (VTime val) =
     (let val = UTC val; ms = Nanosecond val div 1000000
      in Inr (''DATETIME'' @ [CHR 0x27] @ formatDateTime val @ ''.'' @ pad_dec 3 ms @ [CHR 0x27]))"
| "FormatValue (VOther T _) = Inl (FmtError (''cubrid: unsupported value type '' @ T))"

definition namedValueToValue :: "NamedValue list \<Rightarrow> Value list" where
  "namedValueToValue named = map nvValue named"

section \<open>The placeholder scanner\<close>

datatype scan_state = scanNormal | scanSingleQuote | scanBlockComment | scanLineComment

text \<open>\<^verbatim>\<open>i+1 < len(sql) && sql[i+1] == c\<close>.\<close>

definition next_is :: "string \<Rightarrow> nat \<Rightarrow> char \<Rightarrow> bool" where
  "next_is sql i c \<longleftrightarrow> i + 1 < length sql \<and> sql ! (i + 1) = c"

function scan_loop :: "string \<Rightarrow> nat \<Rightarrow> scan_state \<Rightarrow> nat list \<Rightarrow> nat list" where
  "scan_loop sql i state positions =
     (if i < length sql then
        let ch = sql ! i in
        (case state of
           scanNormal \<Rightarrow>
             if ch = CHR 0x27 then scan_loop sql (i + 1) scanSingleQuote positions
             else if ch = CHR ''/'' then
               (if next_is sql i CHR ''*'' then scan_loop sql (i + 2) scanBlockComment positions
                else scan_loop sql (i + 1) scanNormal positions)
             else if ch = CHR ''-'' then
               (if next_is sql i CHR ''-'' then scan_loop sql (i + 2) scanLineComment positions
                else scan_loop sql (i + 1) scanNormal positions)
             else if ch = CHR ''?'' then scan_loop sql (i + 1) scanNormal (positions @ [i])
             else scan_loop sql (i + 1) scanNormal positions
         | scanSingleQuote \<Rightarrow>
             if ch = CHR 0x27 then
               (if next_is sql i CHR 0x27 then scan_loop sql (i + 2) scanSingleQuote positions
                else scan_loop sql (i + 1) scanNormal positions)
             else scan_loop sql (i + 1) scanSingleQuote positions
         | scanBlockComment \<Rightarrow>
             if ch = CHR ''*'' \<and> next_is sql i CHR ''/'' then scan_loop sql (i + 2) scanNormal positions
             else scan_loop sql (i + 1) scanBlockComment positions
         | scanLineComment \<Rightarrow>
             if ch = CHR 0x0A then scan_loop sql (i + 1) scanNormal positions
             else scan_loop sql (i + 1) scanLineComment positions)
      else positions)"
  by pat_completeness auto
termination
  by (relation "measure (\<lambda>(sql, i, state, positions). length sql - i)") auto

declare scan_loop.simps [simp del]

definition findBindPlaceholders :: "string \<Rightarrow> nat list" where
  "findBindPlaceholders sql = scan_loop sql 0 scanNormal []"

section \<open>Interpolation\<close>

fun interpolate_loop ::
  "string \<Rightarrow> (nat \<times> Value) list \<Rightarrow> nat \<Rightarrow> string \<Rightarrow> (go_error + string) option" where
  "interpolate_loop sql [] prev sb = do {
     rest \<leftarrow> slice_from sql prev;
     Some (Inr (sb @ rest))
   }"
| "interpolate_loop sql ((pos, arg) # rest) prev sb = do {
     seg \<leftarrow> slice sql prev pos;
     case FormatValue arg of
       Inl err \<Rightarrow> Some (Inl err)
     | Inr formatted \<Rightarrow> interpolate_loop sql rest (pos + 1) (sb @ seg @ formatted)
   }"

definition InterpolateArgs :: "string \<Rightarrow> Value list \<Rightarrow> (go_error + string) option" where
  "InterpolateArgs sql args =
     (let placeholders = findBindPlaceholders sql in
      if length placeholders \<noteq> length args
      then Some (Inl (FmtError (''cubrid: expected '' @ FormatInt (int (length placeholders))
             @ '' bind args, got '' @ FormatInt (int (length args)))))
      else if length placeholders = 0 then Some (Inr sql)
      else interpolate_loop sql (zip placeholders args) 0 [])"

end
