(* ===== verification/SqlLex.thy ===== *)
theory SqlLex
  imports SqlText
begin

text \<open>
  What the interpolation of \<^verbatim>\<open>types.go\<close> promises, against a reference lexer.  The lexer gives every
  character of a statement its class (code, string, block comment, line comment) by the same
  lexical rules as the scanner, but as a recursion on the text, which composes over
  concatenation.  The contract of a literal formatter is a locale: a literal is a closed piece of
  text.  Interpolation then leaves the class of every other character as it was.
\<close>

section \<open>The reference lexer\<close>

text \<open>
  A character may form a two-character token with a certain next one: \<open>joiner\<close> names it, \<open>joined\<close>
  is the state after the token, and \<open>next_state\<close> the state after the character alone.
\<close>

fun joiner :: "scan_state \<Rightarrow> char \<Rightarrow> char option" where
  "joiner scanNormal c =
     (if c = CHR ''/'' then Some CHR ''*'' else if c = CHR ''-'' then Some CHR ''-'' else None)"
| "joiner scanSingleQuote c = (if c = CHR 0x27 then Some CHR 0x27 else None)"
| "joiner scanBlockComment c = (if c = CHR ''*'' then Some CHR ''/'' else None)"
| "joiner scanLineComment c = None"

fun joined :: "scan_state \<Rightarrow> char \<Rightarrow> scan_state" where
  "joined scanNormal c = (if c = CHR ''/'' then scanBlockComment else scanLineComment)"
| "joined scanSingleQuote c = scanSingleQuote"
| "joined scanBlockComment c = scanNormal"
| "joined scanLineComment c = scanLineComment"

fun next_state :: "scan_state \<Rightarrow> char \<Rightarrow> scan_state" where
  "next_state scanNormal c = (if c = CHR 0x27 then scanSingleQuote else scanNormal)"
| "next_state scanSingleQuote c = (if c = CHR 0x27 then scanNormal else scanSingleQuote)"
| "next_state scanBlockComment c = scanBlockComment"
| "next_state scanLineComment c = (if c = CHR 0x0A then scanNormal else scanLineComment)"

text \<open>The class of every character, the state at the end, and the character that would still join.\<close>

fun classes :: "scan_state \<Rightarrow> string \<Rightarrow> scan_state list" where
  "classes st [] = []"
| "classes st [c] = [st]"
| "classes st (c # d # cs) =
     (if joiner st c = Some d then st # st # classes (joined st c) cs
      else st # classes (next_state st c) (d # cs))"

fun final :: "scan_state \<Rightarrow> string \<Rightarrow> scan_state" where
  "final st [] = st"
| "final st [c] = next_state st c"
| "final st (c # d # cs) =
     (if joiner st c = Some d then final (joined st c) cs
      else final (next_state st c) (d # cs))"

fun pending :: "scan_state \<Rightarrow> string \<Rightarrow> char option" where
  "pending st [] = None"
| "pending st [c] = joiner st c"
| "pending st (c # d # cs) =
     (if joiner st c = Some d then pending (joined st c) cs
      else pending (next_state st c) (d # cs))"

definition hole :: "scan_state \<Rightarrow> char \<Rightarrow> bool" where
  "hole st c \<longleftrightarrow> st = scanNormal \<and> c = CHR ''?''"

fun holes :: "scan_state \<Rightarrow> nat \<Rightarrow> string \<Rightarrow> nat list" where
  "holes st i [] = []"
| "holes st i [c] = (if hole st c then [i] else [])"
| "holes st i (c # d # cs) =
     (if joiner st c = Some d then holes (joined st c) (i + 2) cs
      else (if hole st c then [i] else []) @ holes (next_state st c) (i + 1) (d # cs))"

lemma joiner_not_hole: "joiner st c = Some d \<Longrightarrow> \<not> hole st c \<and> d \<noteq> CHR ''?''"
  by (cases st) (auto simp: hole_def split: if_splits)

lemma length_lex [simp]: "length (classes st s) = length s"
  by (induction st s rule: classes.induct) auto

lemma lex_append:
  "t = [] \<or> pending st s \<noteq> Some (hd t) \<Longrightarrow> classes st (s @ t) = classes st s @ classes (final st s) t"
proof (induction st s rule: classes.induct)
  case (2 st c)
  then show ?case by (cases t) auto
qed auto

lemma final_append:
  "t = [] \<or> pending st s \<noteq> Some (hd t) \<Longrightarrow> final st (s @ t) = final (final st s) t"
proof (induction st s rule: classes.induct)
  case (2 st c)
  then show ?case by (cases t) auto
qed auto

lemma pending_append:
  "t \<noteq> [] \<Longrightarrow> pending st s \<noteq> Some (hd t) \<Longrightarrow> pending st (s @ t) = pending (final st s) t"
proof (induction st s rule: classes.induct)
  case (2 st c)
  then show ?case by (cases t) auto
qed auto

lemma holes_append:
  "t = [] \<or> pending st s \<noteq> Some (hd t) \<Longrightarrow>
     holes st i (s @ t) = holes st i s @ holes (final st s) (i + length s) t"
proof (induction st i s rule: holes.induct)
  case (2 st i c)
  then show ?case by (cases t) auto
qed auto

lemma pending_not_hole: "pending st s \<noteq> Some CHR ''?''"
  by (induction st s rule: classes.induct) (auto dest: joiner_not_hole)

lemma holes_shift: "holes st (i + k) s = map ((+) k) (holes st i s)"
  by (induction st i s rule: holes.induct) (auto simp: add.commute add.left_commute)

text \<open>The holes are exactly the question marks that the lexer classes as code.\<close>

lemma holes_lex:
  "holes st i s = map ((+) i) (filter (\<lambda>j. hole (classes st s ! j) (s ! j)) [0..<length s])"
proof (induction st i s rule: holes.induct)
  case (3 st i c d cs)
  have up2: "[0..<length (c # d # cs)] = 0 # 1 # map (\<lambda>j. j + 2) [0..<length cs]"
    by (simp add: upt_conv_Cons map_Suc_upt [symmetric] comp_def del: upt_Suc)
  have up1: "[0..<length (c # d # cs)] = 0 # map Suc [0..<length (d # cs)]"
    by (simp add: upt_conv_Cons map_Suc_upt del: upt_Suc)
  show ?case
  proof (cases "joiner st c = Some d")
    case True
    with 3(1) joiner_not_hole [OF True] show ?thesis
      unfolding up2 by (auto simp: hole_def filter_map comp_def)
  next
    case False
    with 3(2) show ?thesis
      unfolding up1 by (auto simp: filter_map comp_def)
  qed
qed (auto)

text \<open>The scanner's loop over indices computes the holes.\<close>

lemma next_is_drop: "drop i sql = c # ds \<Longrightarrow> next_is sql i d \<longleftrightarrow> (\<exists>es. ds = d # es)"
proof -
  assume eq: "drop i sql = c # ds"
  then have tl: "drop (i + 1) sql = ds" and "i < length sql"
    by (metis drop_Suc Suc_eq_plus1 tl_drop list.sel(3), metis drop_all list.distinct(1) not_le)
  show ?thesis
  proof (cases ds)
    case Nil
    with tl show ?thesis by (simp add: next_is_def)
  next
    case (Cons e es)
    with tl have "i + 1 < length sql" and "sql ! (i + 1) = e"
      by (metis drop_all list.distinct(1) not_le, metis hd_drop_conv_nth drop_all list.distinct(1) not_le list.sel(1))
    with Cons show ?thesis by (auto simp: next_is_def)
  qed
qed

lemma scan_loop_holes: "scan_loop sql i st ps = ps @ holes st i (drop i sql)"
proof (induction sql i st ps rule: scan_loop.induct)
  case (1 sql i st ps)
  show ?case
  proof (cases "i < length sql")
    case False
    then show ?thesis by (simp add: scan_loop.simps [of sql i])
  next
    case True
    then obtain ds where drop: "drop i sql = sql ! i # ds" and ds: "ds = drop (Suc i) sql"
      by (metis Cons_nth_drop_Suc)
    note IH = "1.IH" [OF True refl]
    show ?thesis
    proof (cases ds)
      case Nil
      then have "length sql \<le> Suc i" using ds by simp
      with True have i: "length sql = Suc i" by simp
      have "scan_loop sql (Suc i) st' ps' = ps'" for st' ps'
        using i by (simp add: scan_loop.simps)
      then show ?thesis
        using True drop Nil i
        by (cases st) (auto simp: scan_loop.simps [of sql i] next_is_def hole_def Let_def)
    next
      case (Cons d es)
      then have d: "next_is sql i c \<longleftrightarrow> c = d" for c
        using next_is_drop [OF drop] by auto
      have d1: "drop (Suc i) sql = d # es"
        using ds Cons by simp
      then have es: "drop (Suc (Suc i)) sql = es"
        by (metis drop_Suc list.sel(3) tl_drop)
      show ?thesis
        using IH True
        by (cases st) (auto simp: scan_loop.simps [of sql i] d hole_def drop Cons es d1 Let_def)
    qed
  qed
qed

lemma findBindPlaceholders_holes: "findBindPlaceholders sql = holes scanNormal 0 sql"
  by (simp add: findBindPlaceholders_def scan_loop_holes)

section \<open>Splicing literals into a statement\<close>

text \<open>\<open>xs\<close> from index \<open>prev\<close> on, with the element at each listed position replaced by a list.\<close>

fun splice_at :: "'a list \<Rightarrow> nat \<Rightarrow> (nat \<times> 'a list) list \<Rightarrow> 'a list" where
  "splice_at xs prev [] = drop prev xs"
| "splice_at xs prev ((p, l) # rest) = take (p - prev) (drop prev xs) @ l @ splice_at xs (p + 1) rest"

fun ascending :: "nat \<Rightarrow> nat list \<Rightarrow> nat \<Rightarrow> bool" where
  "ascending lo [] n \<longleftrightarrow> lo \<le> n"
| "ascending lo (p # ps) n \<longleftrightarrow> lo \<le> p \<and> p < n \<and> ascending (p + 1) ps n"

lemma ascending_weaken: "ascending (lo + k) ps n \<Longrightarrow> ascending lo ps n"
  by (cases ps) auto

lemma holes_ascending: "ascending i (holes st i s) (i + length s)"
proof (induction st i s rule: holes.induct)
  case (3 st i c d cs)
  show ?case
  proof (cases "joiner st c = Some d")
    case True
    with "3.IH"(1) show ?thesis
      using ascending_weaken [of i 2] by (simp add: add.commute add.left_commute)
  next
    case False
    with "3.IH"(2) show ?thesis
      using ascending_weaken [of i 1] by simp
  qed
qed auto

text \<open>The literals of all arguments, or the error of the first argument that has none.\<close>

fun format_list :: "Value list \<Rightarrow> go_error + string list" where
  "format_list [] = Inr []"
| "format_list (v # vs) =
     (case FormatValue v of Inl e \<Rightarrow> Inl e | Inr l \<Rightarrow> map_sum id ((#) l) (format_list vs))"

lemma map_sum_Inr: "map_sum id f x = Inr y \<longleftrightarrow> (\<exists>z. x = Inr z \<and> y = f z)"
  by (cases x) auto

lemma format_list_Inr: "format_list vs = Inr ls \<longleftrightarrow> list_all2 (\<lambda>v l. FormatValue v = Inr l) vs ls"
proof (induction vs arbitrary: ls)
  case (Cons v vs)
  then show ?case
    by (cases "FormatValue v") (auto simp: map_sum_Inr list_all2_Cons1)
qed auto

text \<open>The loop of \<open>InterpolateArgs\<close> never leaves the statement, and computes the splice.\<close>

lemma interpolate_loop_spec:
  assumes "ascending prev (map fst pas) (length sql)"
  shows "interpolate_loop sql pas prev sb =
    Some (map_sum id (\<lambda>lits. sb @ splice_at sql prev (zip (map fst pas) lits)) (format_list (map snd pas)))"
  using assms
proof (induction sql pas prev sb rule: interpolate_loop.induct)
  case (1 sql prev sb)
  then show ?case by (simp add: slice_from_def)
next
  case (2 sql pos arg rest prev sb)
  have seg: "slice sql prev pos = Some (take (pos - prev) (drop prev sql))"
    using "2.prems" by (simp add: slice_def)
  show ?case
  proof (cases "FormatValue arg")
    case (Inr l)
    with "2.IH" [OF seg Inr] "2.prems" show ?thesis
      by (cases "format_list (map snd rest)") (simp_all add: seg)
  qed (simp add: seg)
qed

lemma InterpolateArgs_spec:
  assumes "length args = length (findBindPlaceholders sql)"
  shows "InterpolateArgs sql args =
    Some (map_sum id (\<lambda>lits. splice_at sql 0 (zip (findBindPlaceholders sql) lits)) (format_list args))"
proof -
  let ?ps = "findBindPlaceholders sql"
  have asc: "ascending 0 ?ps (length sql)"
    using holes_ascending [of 0 scanNormal sql] by (simp add: findBindPlaceholders_holes)
  show ?thesis
    using assms asc interpolate_loop_spec [of 0 "zip ?ps args" sql "[]"]
    by (cases "?ps = []") (simp_all add: InterpolateArgs_def Let_def)
qed

lemma InterpolateArgs_InrD:
  assumes "InterpolateArgs sql args = Some (Inr out)"
  shows "length args = length (findBindPlaceholders sql)"
    and "\<exists>lits. list_all2 (\<lambda>v l. FormatValue v = Inr l) args lits
      \<and> out = splice_at sql 0 (zip (findBindPlaceholders sql) lits)"
proof -
  show len: "length args = length (findBindPlaceholders sql)"
    using assms by (simp add: InterpolateArgs_def Let_def split: if_splits)
  show "\<exists>lits. list_all2 (\<lambda>v l. FormatValue v = Inr l) args lits
      \<and> out = splice_at sql 0 (zip (findBindPlaceholders sql) lits)"
    using InterpolateArgs_spec [OF len] assms
    by (cases "format_list args") (auto simp: format_list_Inr)
qed

section \<open>The contract of a literal\<close>

text \<open>
  A closed literal starts and ends in code, holds no placeholder, does not complete a comment
  opener before it, and can only be continued by a quote after it.
\<close>

definition closed_literal :: "string \<Rightarrow> bool" where
  "closed_literal l \<longleftrightarrow> l \<noteq> [] \<and> hd l \<noteq> CHR ''*'' \<and> final scanNormal l = scanNormal
     \<and> pending scanNormal l \<in> {None, Some CHR 0x27} \<and> holes scanNormal 0 l = []"

text \<open>
  A statement keeps its placeholders apart when none follows a minus sign or a quote and none is
  followed by a quote or another placeholder.
\<close>

definition apart :: "string \<Rightarrow> nat \<Rightarrow> bool" where
  "apart sql p \<longleftrightarrow> (0 < p \<longrightarrow> sql ! (p - 1) \<noteq> CHR ''-'' \<and> sql ! (p - 1) \<noteq> CHR 0x27)
     \<and> (p + 1 < length sql \<longrightarrow> sql ! (p + 1) \<noteq> CHR 0x27 \<and> sql ! (p + 1) \<noteq> CHR ''?'')"

lemma pending_last: "pending st s = Some d \<Longrightarrow> s \<noteq> [] \<and> (d = CHR ''*'' \<and> last s = CHR ''/''
    \<or> d = CHR ''-'' \<and> last s = CHR ''-'' \<or> d = CHR 0x27 \<and> last s = CHR 0x27
    \<or> d = CHR ''/'' \<and> last s = CHR ''*'')"
proof (induction st s rule: classes.induct)
  case (2 st c)
  then show ?case by (cases st) (auto split: if_splits)
next
  case (3 st c d cs)
  then show ?case by (auto split: if_splits)
qed simp

lemma pending_normal: "final st s = scanNormal \<Longrightarrow> pending st s \<noteq> Some CHR ''/''"
proof (induction st s rule: classes.induct)
  case (2 st c)
  then show ?case by (cases st) (auto split: if_splits)
qed (auto split: if_splits)

lemma holes_Cons_shift: "holes st (Suc i) s = map Suc (holes st i s)"
  using holes_shift [of st i 1 s] by (simp add: plus_1_eq_Suc)

lemma holes_Nil_any: "holes st i s = [] \<longleftrightarrow> holes st 0 s = []"
  using holes_shift [of st 0 i s] by simp

text \<open>The text before the first placeholder is in code at its end, and the rest starts in code.\<close>

lemma holes_split:
  "holes st i s = p # ps \<Longrightarrow>
     final st (take (p - i) s) = scanNormal \<and> i \<le> p \<and> p - i < length s \<and> s ! (p - i) = CHR ''?''
     \<and> holes st i (take (p - i) s) = [] \<and> holes scanNormal (p + 1) (drop (p + 1 - i) s) = ps"
proof (induction st i s rule: holes.induct)
  case (2 st i c)
  then show ?case by (auto simp: hole_def split: if_splits)
next
  case (3 st i c d cs)
  show ?case
  proof (cases "joiner st c = Some d")
    case True
    with 3 have IH: "final (joined st c) (take (p - (i + 2)) cs) = scanNormal" "i + 2 \<le> p"
      "p - (i + 2) < length cs" "cs ! (p - (i + 2)) = CHR ''?''"
      "holes (joined st c) (i + 2) (take (p - (i + 2)) cs) = []"
      "holes scanNormal (p + 1) (drop (p + 1 - (i + 2)) cs) = ps"
      by auto
    then have "p - i = Suc (Suc (p - (i + 2)))" "p + 1 - i = Suc (Suc (p + 1 - (i + 2)))" by simp_all
    with IH True show ?thesis by simp
  next
    case False
    show ?thesis
    proof (cases "hole st c")
      case True
      with 3 False show ?thesis by (auto simp: hole_def)
    next
      case nohole: False
      with 3 False have IH: "final (next_state st c) (take (p - (i + 1)) (d # cs)) = scanNormal"
        "i + 1 \<le> p" "p - (i + 1) < length (d # cs)" "(d # cs) ! (p - (i + 1)) = CHR ''?''"
        "holes (next_state st c) (i + 1) (take (p - (i + 1)) (d # cs)) = []"
        "holes scanNormal (p + 1) (drop (p + 1 - (i + 1)) (d # cs)) = ps"
        by auto
      then have p: "p - i = Suc (p - (i + 1))" "p + 1 - i = Suc (p + 1 - (i + 1))" by simp_all
      show ?thesis
      proof (cases "p - (i + 1)")
        case 0
        with IH p nohole False show ?thesis by simp
      next
        case (Suc k)
        moreover from this have "p - Suc (Suc i) = k" by simp
        ultimately show ?thesis using IH p nohole False by simp
      qed
    qed
  qed
qed simp

text \<open>
  The interface between the formatter and the interpolation: the formatter promises closed
  literals, and the client proves that splicing them in leaves the classes of the statement's own
  characters alone.
\<close>

locale literal_formatter =
  fixes fmt :: "'v \<Rightarrow> go_error + string"
  assumes closed: "fmt v = Inr l \<Longrightarrow> closed_literal l"
begin

lemma closed_append:
  assumes l: "fmt v = Inr l" and t: "t \<noteq> [] \<Longrightarrow> hd t \<noteq> CHR 0x27"
  shows "classes scanNormal (l @ t) = classes scanNormal l @ classes scanNormal t"
    and "final scanNormal (l @ t) = final scanNormal t"
    and "holes scanNormal i (l @ t) = holes scanNormal (i + length l) t"
proof -
  note c = closed [OF l]
  have join: "t = [] \<or> pending scanNormal l \<noteq> Some (hd t)"
    using c t by (auto simp: closed_literal_def)
  from c lex_append [OF join] show "classes scanNormal (l @ t) = classes scanNormal l @ classes scanNormal t"
    by (simp add: closed_literal_def)
  from c final_append [OF join] show "final scanNormal (l @ t) = final scanNormal t"
    by (simp add: closed_literal_def)
  from c holes_append [OF join, of i] show "holes scanNormal i (l @ t) = holes scanNormal (i + length l) t"
    by (simp add: closed_literal_def holes_Nil_any [of _ i])
qed

text \<open>One placeholder: the text before it, the literal, and what follows.\<close>

lemma splice_one:
  assumes l: "fmt v = Inr l" and t: "t \<noteq> [] \<Longrightarrow> hd t \<noteq> CHR 0x27"
    and seg: "final scanNormal seg = scanNormal" "holes scanNormal 0 seg = []"
    and sep: "seg \<noteq> [] \<Longrightarrow> last seg \<noteq> CHR ''-'' \<and> last seg \<noteq> CHR 0x27"
  shows "classes scanNormal (seg @ l @ t) = classes scanNormal seg @ classes scanNormal l @ classes scanNormal t"
    and "final scanNormal (seg @ l @ t) = final scanNormal t"
    and "holes scanNormal 0 (seg @ l @ t) = holes scanNormal (length seg + length l) t"
proof -
  have "l \<noteq> []" and "hd l \<noteq> CHR ''*''"
    using closed [OF l] by (simp_all add: closed_literal_def)
  moreover have "pending scanNormal seg = Some d \<Longrightarrow> d = CHR ''*''" for d
    using pending_last [of scanNormal seg d] pending_normal [OF seg(1)] sep by auto
  ultimately have join: "l @ t = [] \<or> pending scanNormal seg \<noteq> Some (hd (l @ t))"
    by auto
  show "classes scanNormal (seg @ l @ t) = classes scanNormal seg @ classes scanNormal l @ classes scanNormal t"
    using lex_append [OF join] seg(1) closed_append(1) [OF l t] by simp
  show "final scanNormal (seg @ l @ t) = final scanNormal t"
    using final_append [OF join] seg(1) closed_append(2) [OF l t] by simp
  show "holes scanNormal 0 (seg @ l @ t) = holes scanNormal (length seg + length l) t"
    using holes_append [OF join, of 0] seg closed_append(3) [OF l t, of "length seg"] by simp
qed

end

text \<open>Around a placeholder: the characters beside it, and the class of the text on both sides.\<close>

lemma last_seg:
  assumes "take (p - prev) (drop prev sql) \<noteq> []" and "p < length sql"
  shows "last (take (p - prev) (drop prev sql)) = sql ! (p - 1) \<and> 0 < p"
proof -
  from assms have "prev < p" by (auto simp: not_less)
  then show ?thesis
    using assms by (simp add: last_conv_nth nth_append)
qed

lemma hd_splice_at:
  assumes "p < length sql" and "apart sql p" and "ascending (p + 1) ps (length sql)"
    and "\<forall>q\<in>set ps. sql ! q = CHR ''?''" and "splice_at sql (p + 1) (zip ps ls) \<noteq> []"
    and "length ps = length ls"
  shows "hd (splice_at sql (p + 1) (zip ps ls)) \<noteq> CHR 0x27"
proof (cases ps)
  case Nil
  with assms have "p + 1 < length sql" by (simp add: not_le)
  with assms Nil show ?thesis
    by (simp add: apart_def hd_drop_conv_nth)
next
  case (Cons q qs)
  with assms obtain l ls' where ls: "ls = l # ls'" by (cases ls) auto
  from Cons assms have q: "p + 1 \<le> q" "q < length sql" "sql ! q = CHR ''?''" by auto
  with assms(2) have "p + 1 < q" by (auto simp: apart_def le_less)
  moreover from this q have "take (q - (p + 1)) (drop (p + 1) sql) \<noteq> []" by simp
  ultimately show ?thesis
    using Cons ls q assms(2) by (simp add: apart_def hd_append hd_take hd_drop_conv_nth)
qed

lemma hole_lex:
  assumes "holes scanNormal prev (drop prev sql) = p # ps" and "prev \<le> length sql"
    and "drop prev (classes scanNormal sql) = classes scanNormal (drop prev sql)"
  defines "seg \<equiv> take (p - prev) (drop prev sql)"
  shows "drop prev sql = seg @ CHR ''?'' # drop (p + 1) sql" and "p < length sql" and "prev \<le> p"
    and "final scanNormal seg = scanNormal" and "holes scanNormal 0 seg = []"
    and "holes scanNormal (p + 1) (drop (p + 1) sql) = ps"
    and "take (p - prev) (drop prev (classes scanNormal sql)) = classes scanNormal seg"
    and "drop (p + 1) (classes scanNormal sql) = classes scanNormal (drop (p + 1) sql)"
    and "final scanNormal (drop prev sql) = final scanNormal (drop (p + 1) sql)"
proof -
  note h = holes_split [OF assms(1)]
  show p: "p < length sql" "prev \<le> p" using h by auto
  show fin: "final scanNormal seg = scanNormal" and "holes scanNormal 0 seg = []"
    using h holes_Nil_any [of scanNormal prev] by (simp_all add: seg_def)
  have "drop (p + 1 - prev) (drop prev sql) = drop (p + 1) sql" using p by simp
  moreover have "holes scanNormal (p + 1) (drop (p + 1 - prev) (drop prev sql)) = ps"
    using h by blast
  ultimately show "holes scanNormal (p + 1) (drop (p + 1) sql) = ps" by simp
  have "drop prev sql = seg @ drop (p - prev) (drop prev sql)"
    unfolding seg_def by (rule append_take_drop_id [symmetric])
  also have "drop (p - prev) (drop prev sql) = CHR ''?'' # drop (p + 1) sql"
    using h p by (simp add: Cons_nth_drop_Suc [symmetric])
  finally show split: "drop prev sql = seg @ CHR ''?'' # drop (p + 1) sql" .
  have lex1: "classes scanNormal (CHR ''?'' # t) = scanNormal # classes scanNormal t"
    and fin1: "final scanNormal (CHR ''?'' # t) = final scanNormal t" for t
    by (cases t; simp)+
  have join: "CHR ''?'' # drop (p + 1) sql = []
      \<or> pending scanNormal seg \<noteq> Some (hd (CHR ''?'' # drop (p + 1) sql))"
    by (simp add: pending_not_hole)
  have L: "drop prev (classes scanNormal sql)
      = classes scanNormal seg @ scanNormal # classes scanNormal (drop (p + 1) sql)"
    unfolding assms(3) split lex_append [OF join] fin lex1 ..
  have len: "length seg = p - prev" using p by (simp add: seg_def)
  show "take (p - prev) (drop prev (classes scanNormal sql)) = classes scanNormal seg"
    unfolding L using len by simp
  have "drop (p + 1) (classes scanNormal sql) = drop (Suc (p - prev)) (drop prev (classes scanNormal sql))"
    using p by simp
  also have "\<dots> = classes scanNormal (drop (p + 1) sql)"
    unfolding L using len by simp
  finally show "drop (p + 1) (classes scanNormal sql) = classes scanNormal (drop (p + 1) sql)" .
  show "final scanNormal (drop prev sql) = final scanNormal (drop (p + 1) sql)"
    unfolding split final_append [OF join] fin fin1 ..
qed

lemma holes_question: "q \<in> set (holes scanNormal i (drop i sql)) \<Longrightarrow> sql ! q = CHR ''?''"
  by (auto simp: holes_lex hole_def)

context literal_formatter
begin

lemma splice_keeps_classes:
  assumes "holes scanNormal prev (drop prev sql) = ps" and "prev \<le> length sql"
    and "drop prev (classes scanNormal sql) = classes scanNormal (drop prev sql)"
    and "\<forall>p\<in>set ps. apart sql p"
    and "list_all2 (\<lambda>v l. fmt v = Inr l) args lits" and "length args = length ps"
  shows "classes scanNormal (splice_at sql prev (zip ps lits))
      = splice_at (classes scanNormal sql) prev (zip ps (map (classes scanNormal) lits))
    \<and> final scanNormal (splice_at sql prev (zip ps lits)) = final scanNormal (drop prev sql)
    \<and> holes scanNormal 0 (splice_at sql prev (zip ps lits)) = []"
  using assms
proof (induction ps arbitrary: prev args lits)
  case Nil
  then show ?case by (simp add: holes_Nil_any [of _ prev])
next
  case (Cons p ps)
  from Cons.prems(5,6) obtain v l vs ls where
    lits: "args = v # vs" "lits = l # ls" "fmt v = Inr l" "list_all2 (\<lambda>v l. fmt v = Inr l) vs ls"
    by (cases args) (auto simp: list_all2_Cons1)
  note H = hole_lex [OF Cons.prems(1-3)]
  define seg where "seg = take (p - prev) (drop prev sql)"
  define rest where "rest = splice_at sql (p + 1) (zip ps ls)"
  note H = H [folded seg_def]
  have IH: "classes scanNormal rest = splice_at (classes scanNormal sql) (p + 1) (zip ps (map (classes scanNormal) ls))
      \<and> final scanNormal rest = final scanNormal (drop (p + 1) sql) \<and> holes scanNormal 0 rest = []"
    unfolding rest_def
    by (rule Cons.IH [of "p + 1" vs ls]) (use H Cons.prems lits in auto)
  have len: "length ps = length ls"
    using Cons.prems(6) lits by (simp add: list_all2_lengthD)
  have asc: "ascending (p + 1) ps (length sql)"
  proof -
    have e: "p + 1 + length (drop (p + 1) sql) = length sql" using H(2) by simp
    show ?thesis
      using holes_ascending [of "p + 1" scanNormal "drop (p + 1) sql"] unfolding H(6) e .
  qed
  have hd: "rest \<noteq> [] \<Longrightarrow> hd rest \<noteq> CHR 0x27"
    unfolding rest_def
    by (rule hd_splice_at [OF H(2) _ asc _ _ len])
      (use Cons.prems(4) H(6) holes_question [of _ "p + 1" sql] in auto)
  have sep: "seg \<noteq> [] \<Longrightarrow> last seg \<noteq> CHR ''-'' \<and> last seg \<noteq> CHR 0x27"
    unfolding seg_def using last_seg [of p prev sql] H(2) Cons.prems(4) by (auto simp: apart_def)
  note S = splice_one [OF lits(3) hd H(4,5) sep]
  have e1: "splice_at sql prev (zip (p # ps) lits) = seg @ l @ rest"
    by (simp add: lits seg_def rest_def)
  have e2: "splice_at (classes scanNormal sql) prev (zip (p # ps) (map (classes scanNormal) lits))
      = classes scanNormal seg @ classes scanNormal l
        @ splice_at (classes scanNormal sql) (p + 1) (zip ps (map (classes scanNormal) ls))"
    using H(7) by (simp add: lits)
  have "holes scanNormal (length seg + length l) rest = []"
    using IH holes_Nil_any [of scanNormal "length seg + length l" rest] by simp
  with S have "classes scanNormal (seg @ l @ rest)
      = classes scanNormal seg @ classes scanNormal l @ classes scanNormal rest
      \<and> final scanNormal (seg @ l @ rest) = final scanNormal rest
      \<and> holes scanNormal 0 (seg @ l @ rest) = []"
    by (intro conjI) simp_all
  with IH show ?case
    unfolding e1 e2 H(9) by presburger
qed

end

section \<open>Every literal of FormatValue is closed\<close>

text \<open>Plain text has no character the lexer reacts to; calm text may hold single minus signs.\<close>

definition plain :: "char \<Rightarrow> bool" where
  "plain c \<longleftrightarrow> c \<notin> {CHR 0x27, CHR ''/'', CHR ''*'', CHR ''-'', CHR ''?''}"

fun calm :: "string \<Rightarrow> bool" where
  "calm [] \<longleftrightarrow> True"
| "calm [c] \<longleftrightarrow> plain c"
| "calm (c # d # cs) \<longleftrightarrow> (plain c \<or> c = CHR ''-'' \<and> d \<noteq> CHR ''-'') \<and> calm (d # cs)"

lemma calm_lex:
  "calm s \<Longrightarrow> final scanNormal s = scanNormal \<and> pending scanNormal s = None
     \<and> holes scanNormal i s = []"
proof (induction s arbitrary: i rule: calm.induct)
  case (3 c d cs)
  then show ?case by (auto simp: plain_def hole_def)
qed (auto simp: plain_def hole_def)

lemma calm_plain: "\<forall>c\<in>set s. plain c \<Longrightarrow> calm s"
  by (induction s rule: calm.induct) auto

lemma calm_minus: "t \<noteq> [] \<Longrightarrow> calm t \<Longrightarrow> hd t \<noteq> CHR ''-'' \<Longrightarrow> calm (CHR ''-'' # t)"
  by (cases t) auto

lemma calm_append: "calm s \<Longrightarrow> calm t \<Longrightarrow> calm (s @ t)"
proof (induction s rule: calm.induct)
  case (2 c)
  then show ?case by (cases t) auto
qed auto

lemma calm_hd: "calm s \<Longrightarrow> s \<noteq> [] \<Longrightarrow> hd s \<noteq> CHR ''*''"
  by (cases s rule: calm.cases) (auto simp: plain_def)

lemma calm_closed: "calm s \<Longrightarrow> s \<noteq> [] \<Longrightarrow> closed_literal s"
  using calm_lex [of s 0] calm_hd [of s] by (simp add: closed_literal_def)

lemma digit_plain: "is_digit c \<Longrightarrow> plain c"
  by (auto simp: is_digit_iff plain_def)

lemma calm_dec: "0 \<le> n \<Longrightarrow> calm (dec n)"
  by (rule calm_plain) (auto intro: digit_plain dec_digits)

lemma hd_dec: "0 \<le> n \<Longrightarrow> hd (dec n) \<noteq> CHR ''-''"
  using dec_digits [of n "hd (dec n)"] by (auto simp: is_digit_iff)

lemma calm_FormatInt: "calm (FormatInt i) \<and> FormatInt i \<noteq> []"
  by (auto simp: FormatInt_def calm_dec hd_dec intro!: calm_minus)

text \<open>The digits of a float are digits.\<close>

lemma scale10_nonneg: "0 \<le> x \<Longrightarrow> scale10 x k = (v, d) \<Longrightarrow> 0 \<le> v \<and> 0 < d"
  by (auto simp: scale10_def f64_den_def split: if_splits)

lemma trim_zeros_subset: "set (trim_zeros s) \<subseteq> set s"
  unfolding trim_zeros_def using set_dropWhileD by fastforce

lemma mk_digits_digits: "0 \<le> D \<Longrightarrow> c \<in> set (fst (mk_digits D e)) \<Longrightarrow> is_digit c"
  using trim_zeros_subset dec_digits by (fastforce simp: mk_digits_def)

lemma f64_num_nonneg: "0 \<le> f64_num b"
  by (simp add: f64_num_def f64_mant_def f64_frac_def)

lemma shortest_loop_digits: "c \<in> set (fst (shortest_loop b dp n fuel)) \<Longrightarrow> is_digit c"
proof (induction fuel arbitrary: n)
  case 0
  obtain v d where v: "scale10 (f64_num b) (n - dp) = (v, d)" by force
  then have "0 \<le> v div d"
    using scale10_nonneg [OF f64_num_nonneg v] by (simp add: pos_imp_zdiv_nonneg_iff)
  with 0 show ?case by (auto simp: v intro: mk_digits_digits)
next
  case (Suc fuel)
  obtain v d where v: "scale10 (f64_num b) (n - dp) = (v, d)" by force
  obtain lo d1 where lo: "scale10 (f64_lower b) (n - dp) = (lo, d1)" by force
  obtain hi d2 where hi: "scale10 (f64_upper b) (n - dp) = (hi, d2)" by force
  have t: "0 \<le> v div d"
    using scale10_nonneg [OF f64_num_nonneg v] by (simp add: pos_imp_zdiv_nonneg_iff)
  have "shortest_loop b dp n (Suc fuel)
      \<in> {mk_digits (v div d) (dp - n), mk_digits (v div d + 1) (dp - n), shortest_loop b dp (n + 1) fuel}"
    by (simp add: v lo hi Let_def)
  then show ?case
    using Suc t mk_digits_digits [of "v div d" c "dp - n"] mk_digits_digits [of "v div d + 1" c "dp - n"]
    by (elim insertE) (auto simp del: shortest_loop.simps)
qed

lemma calm_digits: "\<forall>c\<in>set s. is_digit c \<Longrightarrow> calm s"
  by (rule calm_plain) (auto intro: digit_plain)

lemma is_digit_zero: "is_digit CHR ''0''"
  by (simp add: is_digit_iff)

lemma pad_dec_digits: "0 \<le> n \<Longrightarrow> c \<in> set (pad_dec w n) \<Longrightarrow> is_digit c"
  using dec_digits [of n c] is_digit_zero by (auto simp: pad_dec_def)

lemma pad_dec_nonempty [simp]: "pad_dec w n \<noteq> []"
  by (simp add: pad_dec_def)

lemma digits_part:
  assumes "\<forall>c\<in>set digs. is_digit c"
  shows "c \<in> set digs \<Longrightarrow> plain c" and "c \<in> set (take k digs) \<Longrightarrow> plain c"
    and "c \<in> set (drop k digs) \<Longrightarrow> plain c"
  using assms digit_plain by (blast, meson in_set_takeD, meson in_set_dropD)

lemma plain_const [simp]: "plain CHR ''0''" "plain CHR ''.''" "plain CHR ''e''" "plain CHR ''+''"
  by (simp_all add: plain_def)

lemma fmtF_calm: "\<forall>c\<in>set digs. is_digit c \<Longrightarrow> calm (fmtF digs dp) \<and> fmtF digs dp \<noteq> []
    \<and> hd (fmtF digs dp) \<noteq> CHR ''-''"
proof -
  assume d: "\<forall>c\<in>set digs. is_digit c"
  have p: "plain c" if "c \<in> set (fmtF digs dp)" for c
    using that by (auto simp: fmtF_def split: if_splits dest: digits_part [OF d])
  have "fmtF digs dp \<noteq> []"
    by (auto simp: fmtF_def)
  with p [of "hd (fmtF digs dp)"] show ?thesis
    by (auto simp: plain_def intro: calm_plain p)
qed

lemma fmtE_calm: "\<forall>c\<in>set digs. is_digit c \<Longrightarrow> calm (fmtE digs dp) \<and> fmtE digs dp \<noteq> []
    \<and> hd (fmtE digs dp) \<noteq> CHR ''-''"
proof -
  assume d: "\<forall>c\<in>set digs. is_digit c"
  define m where "m = take 1 digs @ (if 1 < length digs then CHR ''.'' # drop 1 digs else []) @ ''e''"
  define p where "p = pad_dec 2 \<bar>dp - 1\<bar>"
  have pl: "plain c" if "c \<in> set m" for c
    using that by (auto simp: m_def split: if_splits dest: digits_part [OF d])
  have m0: "m \<noteq> []" by (simp add: m_def)
  from pl [OF hd_in_set [OF m0]] have m: "calm m" "hd m \<noteq> CHR ''-''"
    by (blast intro: calm_plain pl, auto simp: plain_def)
  have dig: "c \<in> set p \<Longrightarrow> is_digit c" for c
    unfolding p_def by (rule pad_dec_digits) simp_all
  have p0: "p \<noteq> []" by (simp add: p_def)
  from dig [OF hd_in_set [OF p0]] dig have p: "calm p" "hd p \<noteq> CHR ''-''"
    by (blast intro: calm_digits, auto simp: is_digit_iff)
  have "fmtE digs dp = m @ (if dp - 1 < 0 then ''-'' else ''+'') @ p"
    by (simp add: fmtE_def m_def p_def Let_def)
  moreover have "calm ((if dp - 1 < 0 then ''-'' else ''+'') @ p)"
    using p p0 by (auto intro!: calm_minus calm_append [of "''+''" p, simplified])
  ultimately show ?thesis
    using m m0 by (auto intro!: calm_append simp: hd_append)
qed

lemma FormatFloat_closed: "closed_literal (FormatFloat b)"
proof (cases "f64_exp b = 2047")
  case True
  then show ?thesis
    by (auto simp: FormatFloat_def plain_def intro!: calm_closed)
next
  case False
  obtain digs dp where ds: "(if f64_mant b = 0 then ([], 0) else shortest b) = (digs, dp)" by force
  have "\<forall>c\<in>set digs. is_digit c"
    using ds shortest_loop_digits by (auto simp: shortest_def Let_def split: if_splits) (metis fst_conv)
  from fmtE_calm [OF this] fmtF_calm [OF this] show ?thesis
    using False by (auto simp: FormatFloat_def ds Let_def intro!: calm_closed calm_minus)
qed

text \<open>Quoted text whose inner quotes are doubled is closed.\<close>

definition doubled :: "string \<Rightarrow> string" where
  "doubled s = concat (map (\<lambda>c. if c = CHR 0x27 then [CHR 0x27, CHR 0x27] else [c]) s)"

lemma doubled_lex:
  "final scanSingleQuote (doubled s @ [CHR 0x27]) = scanNormal
   \<and> pending scanSingleQuote (doubled s @ [CHR 0x27]) = Some CHR 0x27
   \<and> holes scanSingleQuote i (doubled s @ [CHR 0x27]) = []"
proof (induction s arbitrary: i)
  case (Cons c s)
  obtain d ds where "doubled s @ [CHR 0x27] = d # ds" by (cases "doubled s") auto
  with Cons show ?case by (auto simp: doubled_def hole_def)
qed (simp add: doubled_def hole_def)

lemma doubled_id: "CHR 0x27 \<notin> set s \<Longrightarrow> doubled s = s"
  by (induction s) (auto simp: doubled_def)

lemma quoted_closed:
  assumes "\<forall>c\<in>set pre. plain c"
  shows "closed_literal (pre @ [CHR 0x27] @ doubled s @ [CHR 0x27])"
proof -
  let ?q = "doubled s @ [CHR 0x27]"
  obtain d ds where q: "?q = d # ds" by (cases "doubled s") auto
  have q0: "final scanNormal (CHR 0x27 # ?q) = scanNormal"
      "pending scanNormal (CHR 0x27 # ?q) = Some CHR 0x27" "holes scanNormal i (CHR 0x27 # ?q) = []" for i
    using doubled_lex [of s] unfolding q by (simp_all add: hole_def)
  note pre = calm_lex [OF calm_plain [OF assms]]
  have ne: "CHR 0x27 # ?q \<noteq> []" by simp
  have join: "CHR 0x27 # ?q = [] \<or> pending scanNormal pre \<noteq> Some (hd (CHR 0x27 # ?q))"
    and join': "pending scanNormal pre \<noteq> Some (hd (CHR 0x27 # ?q))"
    using pre [of 0] by simp_all
  have "hd (pre @ CHR 0x27 # ?q) \<noteq> CHR ''*''"
    using assms by (cases pre) (auto simp: plain_def)
  with final_append [OF join] pending_append [OF ne join'] holes_append [OF join, of 0] q0 pre [of 0]
  show ?thesis by (simp add: closed_literal_def)
qed

lemma escapeString_doubled:
  "escapeString s = doubled (concat (map (\<lambda>c. if c = CHR 0x5C then [CHR 0x5C, CHR 0x5C] else [c]) s))"
  by (simp add: escapeString_def ReplaceAll_char doubled_def)

lemma appendInt_chars: "c \<in> set (appendInt x w) \<Longrightarrow> is_digit c \<or> c = CHR ''-''"
  using pad_dec_digits [of x c w] pad_dec_digits [of "- x" c w] by (auto simp: appendInt_def split: if_splits)

lemma datetime_no_quote: "CHR 0x27 \<notin> set (formatDateTime t @ ''.'' @ pad_dec 3 (Nanosecond t div 1000000))"
  using appendInt_chars [of "CHR 0x27"] pad_dec_digits [of "Nanosecond t div 1000000" "CHR 0x27" 3]
    fields_valid(3) [of t]
  by (auto simp: formatDateTime_def is_digit_iff pos_imp_zdiv_nonneg_iff)

lemma unat_nibble: "unat (drop_bit 4 (b :: byte)) < 16" "unat (b AND 0x0f) < 16"
proof -
  have "unat b < 256"
    using unsigned_less [of b, where 'a = nat] by simp
  then show "unat (drop_bit 4 b) < 16"
    by (simp add: unat_drop_bit_eq) (simp add: drop_bit_eq_div less_mult_imp_div_less)
  have "unat (b AND 0x0f) \<le> unat (0x0f :: byte)"
    by (rule word_and_le1 [THEN word_le_nat_alt [THEN iffD1]])
  then show "unat (b AND 0x0f) < 16" by simp
qed

lemma hx_nth: "n < 16 \<Longrightarrow> hx ! n \<in> set hx"
  by (rule nth_mem) (simp add: hx_def)

lemma hexEncode_chars: "set (hexEncode b) \<subseteq> set hx"
  using hx_nth unat_nibble by (auto simp: hexEncode_def)

interpretation lits: literal_formatter FormatValue
proof
  fix v l assume fv: "FormatValue v = Inr l"
  have s: "plain CHR ''X''" "\<forall>c\<in>set ''DATETIME''. plain c" "calm ''NULL''" "calm ''1''" "calm ''0''"
    by (simp_all add: plain_def)
  show "closed_literal l"
  proof (cases v)
    case (VString t)
    then show ?thesis using fv quoted_closed [of "[]"] by (auto simp: escapeString_doubled)
  next
    case (VBytes t)
    have "CHR 0x27 \<notin> set (hexEncode t)" using hexEncode_chars [of t] by (auto simp: hx_def)
    with VBytes show ?thesis using fv quoted_closed [of "''X''" "hexEncode t"] s(1) by (auto simp: doubled_id)
  next
    case (VTime t)
    let ?s = "formatDateTime (UTC t) @ ''.'' @ pad_dec 3 (Nanosecond (UTC t) div 1000000)"
    have "doubled ?s = ?s" by (rule doubled_id) (rule datetime_no_quote)
    with VTime show ?thesis using fv quoted_closed [OF s(2), of ?s] by (auto simp: Let_def)
  next
    case (VBool x)
    then show ?thesis using fv calm_closed [OF s(4)] calm_closed [OF s(5)] by auto
  next
    case (VFloat64 x)
    then show ?thesis using fv FormatFloat_closed by auto
  next
    case VNil
    moreover have "closed_literal ''NULL''" by (rule calm_closed [OF s(3)]) simp
    ultimately show ?thesis using fv by simp
  qed (use fv in \<open>auto intro!: calm_closed simp: calm_FormatInt\<close>)
qed

section \<open>Reading a literal back\<close>

text \<open>
  What the server reads from a literal: a decimal integer, a quoted string in which a doubled quote
  is one quote, a hexadecimal string.
\<close>

definition read_int :: "string \<Rightarrow> int" where
  "read_int s = (case s of c # cs \<Rightarrow> if c = CHR ''-'' then - dec_val cs else dec_val s | [] \<Rightarrow> 0)"

fun unquote :: "string \<Rightarrow> string option" where
  "unquote [] = None"
| "unquote (c # cs) =
     (if c \<noteq> CHR 0x27 then map_option ((#) c) (unquote cs)
      else case cs of [] \<Rightarrow> Some []
        | d # ds \<Rightarrow> if d = CHR 0x27 then map_option ((#) CHR 0x27) (unquote ds) else None)"

definition read_quoted :: "string \<Rightarrow> string option" where
  "read_quoted s = (case s of c # cs \<Rightarrow> if c = CHR 0x27 then unquote cs else None | [] \<Rightarrow> None)"

definition hex_val :: "char \<Rightarrow> nat" where
  "hex_val c = (if is_digit c then of_char c - 48 else of_char c - 87)"

fun hex_bytes :: "string \<Rightarrow> byte list" where
  "hex_bytes (c # d # cs) = word_of_nat (16 * hex_val c + hex_val d) # hex_bytes cs"
| "hex_bytes _ = []"

definition read_bits :: "string \<Rightarrow> byte list option" where
  "read_bits s = (case s of c # cs \<Rightarrow> if c = CHR ''X'' then map_option hex_bytes (read_quoted cs) else None
     | [] \<Rightarrow> None)"

definition double_backslash :: "string \<Rightarrow> string" where
  "double_backslash s = concat (map (\<lambda>c. if c = CHR 0x5C then [CHR 0x5C, CHR 0x5C] else [c]) s)"

lemma read_int_FormatInt: "read_int (FormatInt i) = i"
proof (cases "0 \<le> i")
  case True
  obtain c cs where d: "dec i = c # cs" by (cases "dec i") auto
  with dec_not_minus [OF True, of cs] dec_val_dec [OF True] True show ?thesis
    by (auto simp: read_int_def FormatInt_def)
qed (simp add: read_int_def FormatInt_def)

lemma unquote_doubled: "unquote (doubled s @ [CHR 0x27]) = Some s"
  by (induction s) (auto simp: doubled_def)

lemma double_backslash_Cons:
  "double_backslash (c # s) = (if c = CHR 0x5C then [c, c] else [c]) @ double_backslash s"
  by (simp add: double_backslash_def)

lemma length_double_backslash: "length s \<le> length (double_backslash s)"
  by (induction s) (simp_all add: double_backslash_Cons double_backslash_def)

lemma double_backslash_id: "double_backslash s = s \<longleftrightarrow> CHR 0x5C \<notin> set s"
proof (induction s)
  case (Cons c s)
  have "d # double_backslash s \<noteq> s" for d
  proof
    assume "d # double_backslash s = s"
    then have "length (d # double_backslash s) = length s" by (rule arg_cong)
    with length_double_backslash [of s] show False by simp
  qed
  with Cons show ?case by (simp add: double_backslash_Cons)
qed (simp add: double_backslash_def)

lemma hex_val_hx: "n < 16 \<Longrightarrow> hex_val (hx ! n) = n"
proof -
  have "\<forall>n\<in>set [0..<16]. hex_val (hx ! n) = n" by code_simp
  then show "n < 16 \<Longrightarrow> hex_val (hx ! n) = n" by simp
qed

lemma nibbles: "16 * unat (drop_bit 4 b) + unat (b AND 0x0f) = unat (b :: byte)"
proof -
  have "unat (b AND 0x0f) = unat b mod 16"
    using take_bit_eq_mask [of 4 "unat b"]
    by (simp add: unsigned_and_eq mask_eq_exp_minus_1 take_bit_eq_mod)
  moreover have "unat (drop_bit 4 b) = unat b div 16"
    using unat_drop_bit_eq [of 4 b] drop_bit_eq_div [of 4 "unat b"] by simp
  ultimately show ?thesis by simp
qed

lemma hex_bytes_hexEncode: "hex_bytes (hexEncode bs) = bs"
  by (induction bs) (simp_all add: hexEncode_def hex_val_hx unat_nibble nibbles)

text \<open>Text without a question mark has no placeholder; a line comment runs to the end of the line.\<close>

lemma no_question_no_hole: "CHR ''?'' \<notin> set s \<Longrightarrow> holes st i s = []"
  by (induction st i s rule: holes.induct) (auto simp: hole_def)

lemma line_comment_classes:
  "CHR 0x0A \<notin> set s \<Longrightarrow> classes scanLineComment s = replicate (length s) scanLineComment"
  by (induction scanLineComment s rule: classes.induct) auto

text \<open>A splice at positions of the first part only touches that part; and when neither the text nor a literal
  ends in a character, the splice does not.\<close>

lemma splice_at_append:
  assumes "ascending prev (map fst pls) (length pre)" and "\<And>p l qs. rest = (p, l) # qs \<Longrightarrow> length pre \<le> p"
  shows "splice_at (pre @ t) prev (pls @ rest) = splice_at pre prev pls @ splice_at (pre @ t) (length pre) rest"
  using assms(1)
proof (induction pls arbitrary: prev)
  case Nil
  then show ?case using assms(2)
    by (cases rest) auto
next
  case (Cons pl pls)
  then show ?case by (cases pl) simp
qed

lemma last_splice_at:
  assumes "\<forall>pl\<in>set pls. snd pl \<noteq> [] \<and> last (snd pl) \<noteq> c" and "xs = [] \<or> last xs \<noteq> c"
  shows "splice_at xs prev pls = [] \<or> last (splice_at xs prev pls) \<noteq> c"
  using assms
proof (induction xs prev pls rule: splice_at.induct)
  case (1 xs prev)
  then show ?case by (cases "drop prev xs = []") (auto simp: last_drop)
next
  case (2 xs prev p l rest)
  then show ?case by (auto simp: last_append)
qed

lemma last_minus: "final st s = scanNormal \<Longrightarrow> s \<noteq> [] \<Longrightarrow> last s = CHR ''-'' \<Longrightarrow> pending st s = Some CHR ''-''"
proof (induction st s rule: classes.induct)
  case (2 st c)
  then show ?case by (cases st) auto
next
  case (3 st c d cs)
  show ?case
  proof (cases "joiner st c = Some d")
    case True
    show ?thesis
    proof (cases "cs = []")
      case True
      with \<open>joiner st c = Some d\<close> 3(3,5) show ?thesis by (cases st) (auto split: if_splits)
    qed (use True 3 in auto)
  qed (use 3 in auto)
qed simp

lemma closed_last: "closed_literal l \<Longrightarrow> l \<noteq> [] \<and> last l \<noteq> CHR ''-''"
  using last_minus [of scanNormal l] by (auto simp: closed_literal_def)

lemma line_comment_start:
  "take (length (takeWhile (\<lambda>c. c \<noteq> CHR 0x0A) s)) (classes scanLineComment s)
    = replicate (length (takeWhile (\<lambda>c. c \<noteq> CHR 0x0A) s)) scanLineComment"
proof -
  let ?l = "takeWhile (\<lambda>c. c \<noteq> CHR 0x0A) s" and ?r = "dropWhile (\<lambda>c. c \<noteq> CHR 0x0A) s"
  have "pending scanLineComment ?l = None"
  proof -
    have "CHR 0x0A \<notin> set l \<Longrightarrow> pending scanLineComment l = None" for l
      by (induction scanLineComment l rule: classes.induct) auto
    moreover have "CHR 0x0A \<notin> set ?l" by (auto dest: set_takeWhileD)
    ultimately show ?thesis by blast
  qed
  then have "classes scanLineComment (?l @ ?r) = classes scanLineComment ?l @ classes (final scanLineComment ?l) ?r"
    by (intro lex_append) simp
  moreover have "CHR 0x0A \<notin> set ?l" by (auto dest: set_takeWhileD)
  ultimately show ?thesis using line_comment_classes [of ?l] by simp
qed

section \<open>Properties\<close>

text \<open>C4: Interpolation never panics, and its result is known exactly.  The placeholders are the
  question marks that stand in code, outside strings and comments.  When their number is not the
  number of arguments the call fails with the count error; otherwise it fails with the error of
  the first argument that has no literal, and with none it returns the statement with each
  placeholder replaced by the literal of its argument and every other character kept.\<close>

theorem interpolation_exact:
  "let ps = filter (\<lambda>j. classes scanNormal sql ! j = scanNormal \<and> sql ! j = CHR ''?'') [0..<length sql]
   in InterpolateArgs sql args = Some
        (if length ps \<noteq> length args
         then Inl (FmtError (''cubrid: expected '' @ FormatInt (int (length ps))
                @ '' bind args, got '' @ FormatInt (int (length args))))
         else map_sum id (\<lambda>lits. splice_at sql 0 (zip ps lits)) (format_list args))"
proof -
  have ps: "findBindPlaceholders sql
      = filter (\<lambda>j. classes scanNormal sql ! j = scanNormal \<and> sql ! j = CHR ''?'') [0..<length sql]"
    using holes_lex [of scanNormal 0 sql] by (simp add: findBindPlaceholders_holes hole_def comp_def map_idI)
  show ?thesis
    unfolding ps [symmetric]
    by (cases "length (findBindPlaceholders sql) = length args")
      (simp_all add: InterpolateArgs_spec Let_def, simp add: InterpolateArgs_def Let_def)
qed

text \<open>C3: No argument value can change how the rest of the statement is read.  When the placeholders
  are kept apart from quotes, minus signs and each other, the interpolated statement classes every
  character of the original as the original did (code, string, comment), each literal is read from
  the start state back to it, and no placeholder is left, whatever bytes the arguments hold.\<close>

theorem interpolation_confines_values:
  assumes "InterpolateArgs sql args = Some (Inr out)"
    and "\<forall>p\<in>set (findBindPlaceholders sql). apart sql p"
  shows "\<exists>lits. list_all2 (\<lambda>v l. FormatValue v = Inr l) args lits
    \<and> out = splice_at sql 0 (zip (findBindPlaceholders sql) lits)
    \<and> classes scanNormal out = splice_at (classes scanNormal sql) 0
        (zip (findBindPlaceholders sql) (map (classes scanNormal) lits))
    \<and> (\<forall>l\<in>set lits. final scanNormal l = scanNormal)
    \<and> final scanNormal out = final scanNormal sql
    \<and> findBindPlaceholders out = []"
proof -
  note len = InterpolateArgs_InrD(1) [OF assms(1)]
  from InterpolateArgs_InrD(2) [OF assms(1)] obtain lits where
    lits: "list_all2 (\<lambda>v l. FormatValue v = Inr l) args lits"
    and out: "out = splice_at sql 0 (zip (findBindPlaceholders sql) lits)" by blast
  have fin: "\<forall>l\<in>set lits. final scanNormal l = scanNormal"
  proof
    fix l assume "l \<in> set lits"
    with lits obtain v where "FormatValue v = Inr l"
      by (auto simp: list_all2_conv_all_nth in_set_conv_nth)
    from lits.closed [OF this] show "final scanNormal l = scanNormal"
      by (simp add: closed_literal_def)
  qed
  have "classes scanNormal out = splice_at (classes scanNormal sql) 0
        (zip (findBindPlaceholders sql) (map (classes scanNormal) lits))
      \<and> final scanNormal out = final scanNormal (drop 0 sql) \<and> holes scanNormal 0 out = []"
    unfolding out
    by (rule lits.splice_keeps_classes [OF _ _ _ assms(2) lits len])
       (simp_all add: findBindPlaceholders_holes)
  with lits out fin show ?thesis
    by (auto simp: findBindPlaceholders_holes)
qed

theorem interpolation_confines_values_witness:
  "\<exists>lits. list_all2 (\<lambda>v l. FormatValue v = Inr l) [VString ''a?--'', VInt64 7] lits
    \<and> findBindPlaceholders (splice_at ''f ? = ?'' 0 (zip [2, 6] lits)) = []"
proof -
  have ps: "findBindPlaceholders ''f ? = ?'' = [2, 6]"
    by (simp add: findBindPlaceholders_holes hole_def)
  have len: "length [VString ''a?--'', VInt64 7] = length (findBindPlaceholders ''f ? = ?'')"
    by (simp add: ps)
  obtain out where out: "InterpolateArgs ''f ? = ?'' [VString ''a?--'', VInt64 7] = Some (Inr out)"
    using InterpolateArgs_spec [OF len] by simp
  have "\<forall>p\<in>set (findBindPlaceholders ''f ? = ?''). apart ''f ? = ?'' p"
    by (simp add: ps apart_def)
  from interpolation_confines_values [OF out this] show ?thesis
    unfolding ps by blast
qed

text \<open>C27: A literal denotes its value.  An integer literal reads back as the 64-bit value, a bit
  string literal as the bytes, and a string literal, read by the scanner's own rule for quotes, as
  the string with every backslash doubled.\<close>

theorem literal_roundtrip:
  "(\<exists>l. FormatValue (VInt64 i) = Inr l \<and> read_int l = sint i)
   \<and> (\<exists>l. FormatValue (VBytes b) = Inr l \<and> read_bits l = Some b)
   \<and> (\<exists>l. FormatValue (VString s) = Inr l \<and> read_quoted l = Some (double_backslash s))"
proof -
  have "CHR 0x27 \<notin> set (hexEncode b)" using hexEncode_chars [of b] by (auto simp: hx_def)
  then have "unquote (hexEncode b @ [CHR 0x27]) = Some (hexEncode b)"
    using unquote_doubled [of "hexEncode b"] by (simp add: doubled_id)
  then show ?thesis
    by (simp add: read_int_FormatInt read_bits_def read_quoted_def hex_bytes_hexEncode
        escapeString_doubled double_backslash_def unquote_doubled)
qed

text \<open>C31: A string reaches the server unchanged exactly when it holds no backslash: the escaping
  doubles backslashes, while the scanner (and standard SQL) read a backslash as an ordinary
  character.\<close>

theorem string_literal_exact_iff:
  "(\<exists>l. FormatValue (VString s) = Inr l \<and> read_quoted l = Some s) \<longleftrightarrow> CHR 0x5C \<notin> set s"
  using double_backslash_id [of s]
  by (simp add: read_quoted_def escapeString_doubled double_backslash_def unquote_doubled)

text \<open>C32: What the hypothesis of confinement excludes.  When a placeholder follows a single minus sign in
  code, after any text whose own placeholders are kept apart, and its argument is negative, the two
  minus signs open a line comment: the text before them reads as it does alone, and the digits of the
  number and everything up to the end of the line are comment, whatever follows and whatever the other
  arguments are.\<close>

theorem negative_literal_opens_comment:
  assumes "sint i < 0" and "final scanNormal pre = scanNormal" and "pre = [] \<or> last pre \<noteq> CHR ''-''"
    and "\<forall>p\<in>set (findBindPlaceholders pre). apart pre p"
    and "length vs = length (findBindPlaceholders pre)"
    and "InterpolateArgs (pre @ ''-?'' @ post) (vs @ VInt64 i # ws) = Some (Inr out)"
  shows "\<exists>pre' rest. InterpolateArgs pre vs = Some (Inr pre')
    \<and> out = pre' @ ''-'' @ FormatInt (sint i) @ rest
    \<and> (let n = length (takeWhile (\<lambda>c. c \<noteq> CHR 0x0A) (tl (FormatInt (sint i)) @ rest))
       in length (FormatInt (sint i)) \<le> n + 1
        \<and> take (length pre' + 2 + n) (classes scanNormal out)
          = classes scanNormal pre' @ [scanNormal, scanNormal] @ replicate n scanLineComment)"
proof -
  let ?sql = "pre @ ''-?'' @ post" and ?ps = "findBindPlaceholders pre" and ?n = "length pre"
  have pend: "pending scanNormal pre \<noteq> Some CHR ''-''"
    using pending_last [of scanNormal pre "CHR ''-''"] assms(3) by auto
  define qs where "qs = holes scanNormal (?n + 2) post"
  have "holes scanNormal ?n (''-?'' @ post) = (?n + 1) # qs"
    by (cases post) (simp_all add: hole_def qs_def)
  then have ps: "findBindPlaceholders ?sql = ?ps @ (?n + 1) # qs"
    using holes_append [of "''-?'' @ post" scanNormal pre 0] pend assms(2)
    by (simp add: findBindPlaceholders_holes)
  obtain lits where l: "list_all2 (\<lambda>v l. FormatValue v = Inr l) (vs @ VInt64 i # ws) lits"
    and out: "out = splice_at ?sql 0 (zip (?ps @ (?n + 1) # qs) lits)"
    using InterpolateArgs_InrD(2) [OF assms(6)] unfolding ps by blast
  then obtain l1 l2 where lits: "lits = l1 @ FormatInt (sint i) # l2"
    and l1: "list_all2 (\<lambda>v l. FormatValue v = Inr l) vs l1"
    by (auto simp: list_all2_append1 list_all2_Cons1)
  have len: "length ?ps = length l1" using l1 assms(5) by (simp add: list_all2_lengthD)
  define pre' where "pre' = splice_at pre 0 (zip ?ps l1)"
  define rest where "rest = splice_at ?sql (?n + 2) (zip qs l2)"
  have asc: "ascending 0 (map fst (zip ?ps l1)) (length pre)"
    using holes_ascending [of 0 scanNormal pre] len by (simp add: findBindPlaceholders_holes)
  have "splice_at ?sql 0 (zip ?ps l1 @ (?n + 1, FormatInt (sint i)) # zip qs l2)
      = pre' @ splice_at ?sql ?n ((?n + 1, FormatInt (sint i)) # zip qs l2)"
    unfolding pre'_def by (rule splice_at_append [OF asc]) simp
  then have out: "out = pre' @ ''-'' @ FormatInt (sint i) @ rest"
    using len by (simp add: out lits rest_def)
  have ip: "InterpolateArgs pre vs = Some (Inr pre')"
    using InterpolateArgs_spec [OF assms(5)] format_list_Inr [of vs l1] l1 by (simp add: pre'_def)
  have keep: "final scanNormal pre' = final scanNormal (drop 0 pre)"
    using lits.splice_keeps_classes [of 0 pre ?ps vs l1] assms(4,5) l1
    by (simp add: findBindPlaceholders_holes pre'_def)
  have "\<forall>pl\<in>set (zip ?ps l1). snd pl \<noteq> [] \<and> last (snd pl) \<noteq> CHR ''-''"
  proof
    fix pl assume "pl \<in> set (zip ?ps l1)"
    then have "snd pl \<in> set l1" by (metis set_zip_rightD surjective_pairing)
    with l1 obtain v where "FormatValue v = Inr (snd pl)"
      by (auto simp: list_all2_conv_all_nth in_set_conv_nth)
    from closed_last [OF lits.closed [OF this]] show "snd pl \<noteq> [] \<and> last (snd pl) \<noteq> CHR ''-''" .
  qed
  from last_splice_at [OF this assms(3)] have "pre' = [] \<or> last pre' \<noteq> CHR ''-''" unfolding pre'_def .
  then have pend': "pending scanNormal pre' \<noteq> Some CHR ''-''"
    using pending_last [of scanNormal pre' "CHR ''-''"] by auto
  have neg: "FormatInt (sint i) = CHR ''-'' # dec (- sint i)"
    using assms(1) by (simp add: FormatInt_def)
  let ?line = "takeWhile (\<lambda>c. c \<noteq> CHR 0x0A) (dec (- sint i) @ rest)"
  have nl: "CHR 0x0A \<notin> set (dec (- sint i))"
    using assms dec_digits [of "- sint i" "CHR 0x0A"] by (auto simp: is_digit_iff)
  then have "takeWhile (\<lambda>c. c \<noteq> CHR 0x0A) (dec (- sint i) @ rest)
      = dec (- sint i) @ takeWhile (\<lambda>c. c \<noteq> CHR 0x0A) rest"
    by (intro takeWhile_append2) auto
  then have d: "length (dec (- sint i)) \<le> length ?line" by simp
  have "classes scanNormal out = classes scanNormal pre' @ classes scanNormal (CHR ''-'' # CHR ''-'' # dec (- sint i) @ rest)"
    using lex_append [of "CHR ''-'' # CHR ''-'' # dec (- sint i) @ rest" scanNormal pre'] pend' keep assms(2)
    by (simp add: out neg)
  also have "\<dots> = classes scanNormal pre' @ [scanNormal, scanNormal] @ classes scanLineComment (dec (- sint i) @ rest)"
    by simp
  finally have "take (length pre' + 2 + length ?line) (classes scanNormal out)
      = classes scanNormal pre' @ [scanNormal, scanNormal] @ replicate (length ?line) scanLineComment"
    using line_comment_start [of "dec (- sint i) @ rest"] by simp
  with ip out d show ?thesis by (auto simp: neg Let_def)
qed

theorem negative_literal_opens_comment_witness:
  "\<exists>out pre'. InterpolateArgs ''x = ? and b-? or c = ?'' [VString ''--'', VInt64 (-1), VNil] = Some (Inr out)
    \<and> prefix (pre' @ ''--1'') out \<and> classes scanNormal out ! (length pre' + 2) = scanLineComment"
proof -
  let ?sql = "''x = ? and b'' @ ''-?'' @ '' or c = ?''" and ?args = "[VString ''--''] @ VInt64 (-1) # [VNil]"
  have ps: "findBindPlaceholders ''x = ? and b'' = [4]" "findBindPlaceholders ?sql = [4, 12, 21]"
    by (simp_all add: findBindPlaceholders_holes hole_def)
  then have len: "length ?args = length (findBindPlaceholders ?sql)" by simp
  obtain out where out: "InterpolateArgs ?sql ?args = Some (Inr out)"
    using InterpolateArgs_spec [OF len] by simp
  have i: "sint (-1 :: int64) < 0" "FormatInt (sint (-1 :: int64)) = ''-1''"
    by (simp_all add: FormatInt_def dec.simps digit_char_def char_of_def)
  have pre: "final scanNormal ''x = ? and b'' = scanNormal" "''x = ? and b'' = [] \<or> last ''x = ? and b'' \<noteq> CHR ''-''"
    "\<forall>p\<in>set (findBindPlaceholders ''x = ? and b''). apart ''x = ? and b'' p"
    "length [VString ''--''] = length (findBindPlaceholders ''x = ? and b'')"
    by (simp_all add: ps apart_def)
  obtain pre' rest where r: "out = pre' @ ''--1'' @ rest"
    and c: "let n = length (takeWhile (\<lambda>c. c \<noteq> CHR 0x0A) (''1'' @ rest)) in 2 \<le> n + 1
      \<and> take (length pre' + 2 + n) (classes scanNormal out)
        = classes scanNormal pre' @ [scanNormal, scanNormal] @ replicate n scanLineComment"
    using negative_literal_opens_comment [OF i(1) pre out] unfolding i(2) by auto
  obtain n where n: "1 \<le> n" "take (length pre' + 2 + n) (classes scanNormal out)
      = classes scanNormal pre' @ [scanNormal, scanNormal] @ replicate n scanLineComment"
    using c [unfolded Let_def] that [of "length (takeWhile (\<lambda>c. c \<noteq> CHR 0x0A) (''1'' @ rest))"] by simp
  have "classes scanNormal out ! (length pre' + 2) = take (length pre' + 2 + n) (classes scanNormal out) ! (length pre' + 2)"
    using n(1) by simp
  also have "\<dots> = scanLineComment" using n by (simp add: nth_append)
  finally show ?thesis using out r by (auto simp: prefix_def)
qed

end
