(* ===== verification/Constants.thy ===== *)
theory Constants
  imports GoBase
begin

text \<open>
  \<^verbatim>\<open>constants.go\<close>: the untyped constants of the CAS protocol.  An untyped Go constant takes the
  type its context asks for, so each is polymorphic over the semirings (\<open>nat\<close>, \<open>int\<close> and the
  words).  All of them are simplification rules.
\<close>

section \<open>CAS function codes\<close>

definition FuncEndTran :: "'a::semiring_1" where [simp]: "FuncEndTran = 1"

definition FuncPrepare :: "'a::semiring_1" where [simp]: "FuncPrepare = 2"

definition FuncExecute :: "'a::semiring_1" where [simp]: "FuncExecute = 3"

definition FuncGetDbParameter :: "'a::semiring_1" where [simp]: "FuncGetDbParameter = 4"

definition FuncSetDbParameter :: "'a::semiring_1" where [simp]: "FuncSetDbParameter = 5"

definition FuncCloseReqHandle :: "'a::semiring_1" where [simp]: "FuncCloseReqHandle = 6"

definition FuncFetch :: "'a::semiring_1" where [simp]: "FuncFetch = 8"

definition FuncSchemaInfo :: "'a::semiring_1" where [simp]: "FuncSchemaInfo = 9"

definition FuncGetDbVersion :: "'a::semiring_1" where [simp]: "FuncGetDbVersion = 15"

definition FuncExecuteBatch :: "'a::semiring_1" where [simp]: "FuncExecuteBatch = 20"

definition FuncConClose :: "'a::semiring_1" where [simp]: "FuncConClose = 31"

definition FuncGetLastInsertId :: "'a::semiring_1" where [simp]: "FuncGetLastInsertId = 40"

definition FuncPrepareAndExecute :: "'a::semiring_1" where [simp]: "FuncPrepareAndExecute = 41"

section \<open>CUBRID data types\<close>

definition TypeNull :: "'a::semiring_1" where [simp]: "TypeNull = 0"

definition TypeChar :: "'a::semiring_1" where [simp]: "TypeChar = 1"

definition TypeString :: "'a::semiring_1" where [simp]: "TypeString = 2"

definition TypeNChar :: "'a::semiring_1" where [simp]: "TypeNChar = 3"

definition TypeVarNChar :: "'a::semiring_1" where [simp]: "TypeVarNChar = 4"

definition TypeBit :: "'a::semiring_1" where [simp]: "TypeBit = 5"

definition TypeVarBit :: "'a::semiring_1" where [simp]: "TypeVarBit = 6"

definition TypeNumeric :: "'a::semiring_1" where [simp]: "TypeNumeric = 7"

definition TypeInt :: "'a::semiring_1" where [simp]: "TypeInt = 8"

definition TypeShort :: "'a::semiring_1" where [simp]: "TypeShort = 9"

definition TypeMonetary :: "'a::semiring_1" where [simp]: "TypeMonetary = 10"

definition TypeFloat :: "'a::semiring_1" where [simp]: "TypeFloat = 11"

definition TypeDouble :: "'a::semiring_1" where [simp]: "TypeDouble = 12"

definition TypeDate :: "'a::semiring_1" where [simp]: "TypeDate = 13"

definition TypeTime :: "'a::semiring_1" where [simp]: "TypeTime = 14"

definition TypeTimestamp :: "'a::semiring_1" where [simp]: "TypeTimestamp = 15"

definition TypeSet :: "'a::semiring_1" where [simp]: "TypeSet = 16"

definition TypeMultiset :: "'a::semiring_1" where [simp]: "TypeMultiset = 17"

definition TypeSequence :: "'a::semiring_1" where [simp]: "TypeSequence = 18"

definition TypeObject :: "'a::semiring_1" where [simp]: "TypeObject = 19"

definition TypeBigInt :: "'a::semiring_1" where [simp]: "TypeBigInt = 21"

definition TypeDatetime :: "'a::semiring_1" where [simp]: "TypeDatetime = 22"

definition TypeBlob :: "'a::semiring_1" where [simp]: "TypeBlob = 23"

definition TypeClob :: "'a::semiring_1" where [simp]: "TypeClob = 24"

definition TypeEnum :: "'a::semiring_1" where [simp]: "TypeEnum = 25"

section \<open>Transaction types\<close>

definition TxCommit :: "'a::semiring_1" where [simp]: "TxCommit = 1"

definition TxRollback :: "'a::semiring_1" where [simp]: "TxRollback = 2"

section \<open>Prepare flags\<close>

definition PrepareNormal :: "'a::semiring_1" where [simp]: "PrepareNormal = 0"

definition PrepareHoldable :: "'a::semiring_1" where [simp]: "PrepareHoldable = 8"

section \<open>Execute flags\<close>

definition ExecuteNormal :: "'a::semiring_1" where [simp]: "ExecuteNormal = 0"

definition ExecuteQueryAll :: "'a::semiring_1" where [simp]: "ExecuteQueryAll = 2"

section \<open>Statement types\<close>

definition StmtAlterClass :: "'a::semiring_1" where [simp]: "StmtAlterClass = 0"

definition StmtAlterSerial :: "'a::semiring_1" where [simp]: "StmtAlterSerial = 1"

definition StmtCommitWork :: "'a::semiring_1" where [simp]: "StmtCommitWork = 2"

definition StmtRegisterDB :: "'a::semiring_1" where [simp]: "StmtRegisterDB = 3"

definition StmtCreateClass :: "'a::semiring_1" where [simp]: "StmtCreateClass = 4"

definition StmtCreateIndex :: "'a::semiring_1" where [simp]: "StmtCreateIndex = 5"

definition StmtCreateTrigger :: "'a::semiring_1" where [simp]: "StmtCreateTrigger = 6"

definition StmtCreateSerial :: "'a::semiring_1" where [simp]: "StmtCreateSerial = 7"

definition StmtDropDatabase :: "'a::semiring_1" where [simp]: "StmtDropDatabase = 8"

definition StmtDropClass :: "'a::semiring_1" where [simp]: "StmtDropClass = 9"

definition StmtDropIndex :: "'a::semiring_1" where [simp]: "StmtDropIndex = 10"

definition StmtDropLabel :: "'a::semiring_1" where [simp]: "StmtDropLabel = 11"

definition StmtDropTrigger :: "'a::semiring_1" where [simp]: "StmtDropTrigger = 12"

definition StmtDropSerial :: "'a::semiring_1" where [simp]: "StmtDropSerial = 13"

definition StmtEvaluate :: "'a::semiring_1" where [simp]: "StmtEvaluate = 14"

definition StmtRenameClass :: "'a::semiring_1" where [simp]: "StmtRenameClass = 15"

definition StmtRollbackWork :: "'a::semiring_1" where [simp]: "StmtRollbackWork = 16"

definition StmtGrant :: "'a::semiring_1" where [simp]: "StmtGrant = 17"

definition StmtRevoke :: "'a::semiring_1" where [simp]: "StmtRevoke = 18"

definition StmtStatistics :: "'a::semiring_1" where [simp]: "StmtStatistics = 19"

definition StmtInsert :: "'a::semiring_1" where [simp]: "StmtInsert = 20"

definition StmtSelect :: "'a::semiring_1" where [simp]: "StmtSelect = 21"

definition StmtUpdate :: "'a::semiring_1" where [simp]: "StmtUpdate = 22"

definition StmtDelete :: "'a::semiring_1" where [simp]: "StmtDelete = 23"

definition StmtCall :: "'a::semiring_1" where [simp]: "StmtCall = 24"

definition StmtCallSP :: "'a::semiring_1" where [simp]: "StmtCallSP = 126"

definition StmtUnknown :: "'a::semiring_1" where [simp]: "StmtUnknown = 127"

section \<open>Protocol constants\<close>

definition MagicString :: string where [simp]: "MagicString = ''CUBRK''"

definition ClientJDBC :: "'a::semiring_1" where [simp]: "ClientJDBC = 3"

definition CASVersion :: "'a::semiring_1" where [simp]: "CASVersion = 71"

definition ProtoVersion :: "'a::semiring_1" where [simp]: "ProtoVersion = 7"

section \<open>Wire-level sizes\<close>

definition SizeByte :: "'a::semiring_1" where [simp]: "SizeByte = 1"

definition SizeShort :: "'a::semiring_1" where [simp]: "SizeShort = 2"

definition SizeInt :: "'a::semiring_1" where [simp]: "SizeInt = 4"

definition SizeLong :: "'a::semiring_1" where [simp]: "SizeLong = 8"

definition SizeFloat :: "'a::semiring_1" where [simp]: "SizeFloat = 4"

definition SizeDouble :: "'a::semiring_1" where [simp]: "SizeDouble = 8"

definition SizeDatetime :: "'a::semiring_1" where [simp]: "SizeDatetime = 14"

definition SizeOID :: "'a::semiring_1" where [simp]: "SizeOID = 8"

definition SizeCASInfo :: "'a::semiring_1" where [simp]: "SizeCASInfo = 4"

definition SizeDataLength :: "'a::semiring_1" where [simp]: "SizeDataLength = 4"

definition SizeBrokerInfo :: "'a::semiring_1" where [simp]: "SizeBrokerInfo = 16"

end
