(* ===== verification/Packet.thy ===== *)
theory Packet
  imports Constants GoTime
begin

text \<open>
  \<^verbatim>\<open>packet.go\<close>: the protocol header, the \<^verbatim>\<open>PacketWriter\<close> and the \<^verbatim>\<open>PacketReader\<close>.  A method on a
  pointer receiver takes the record and returns it updated; a reader method that indexes past the
  end of the buffer panics, which is \<open>None\<close>.  The reader's buffer is the slice that \<^verbatim>\<open>recv\<close> made, whose
  capacity is its length, and its offset starts at 0 and only grows, so it is a \<open>nat\<close>.
  A \<^verbatim>\<open>float32\<close> or \<^verbatim>\<open>float64\<close> is its bit pattern, so \<^verbatim>\<open>math.Float64bits\<close> and its inverse are the
  identity.
\<close>

named_theorems writer_simps "what each writer method appends"

section \<open>The protocol header\<close>

definition buildProtocolHeader :: "int \<Rightarrow> byte list \<Rightarrow> byte list" where
  "buildProtocolHeader dataLength casInfo = be32 (word_of_int dataLength) @ casInfo"

definition parseProtocolHeader :: "byte list \<Rightarrow> (int \<times> byte list) option" where
  "parseProtocolHeader data = do {
     lenBytes \<leftarrow> slice data 0 SizeDataLength;
     len \<leftarrow> Uint32 lenBytes;
     cas \<leftarrow> slice data SizeDataLength (SizeDataLength + SizeCASInfo);
     Some (uint len, cas)
   }"

lemma parse_buildProtocolHeader:
  assumes "length casInfo = SizeCASInfo" and "0 \<le> n" and "n < 2 ^ 32"
  shows "parseProtocolHeader (buildProtocolHeader n casInfo @ rest) = Some (n, casInfo)"
  using assms Uint32_be32 [of "word_of_int n" "[]"]
  by (simp add: parseProtocolHeader_def buildProtocolHeader_def slice_def uint_word_of_int)

section \<open>PacketWriter\<close>

record PacketWriter =
  wbuf :: "byte list"

definition newPacketWriter :: PacketWriter where
  "newPacketWriter = \<lparr>wbuf = []\<rparr>"

definition writeByte :: "byte \<Rightarrow> PacketWriter \<Rightarrow> PacketWriter" where
  "writeByte v w = w\<lparr>wbuf := wbuf w @ [v]\<rparr>"

definition writeShort :: "int16 \<Rightarrow> PacketWriter \<Rightarrow> PacketWriter" where
  "writeShort v w = w\<lparr>wbuf := wbuf w @ be16 v\<rparr>"

definition writeInt :: "int32 \<Rightarrow> PacketWriter \<Rightarrow> PacketWriter" where
  "writeInt v w = w\<lparr>wbuf := wbuf w @ be32 v\<rparr>"

definition writeLong :: "int64 \<Rightarrow> PacketWriter \<Rightarrow> PacketWriter" where
  "writeLong v w = w\<lparr>wbuf := wbuf w @ be64 v\<rparr>"

definition writeFloat :: "int32 \<Rightarrow> PacketWriter \<Rightarrow> PacketWriter" where
  "writeFloat v w = w\<lparr>wbuf := wbuf w @ be32 v\<rparr>"

definition writeDouble :: "int64 \<Rightarrow> PacketWriter \<Rightarrow> PacketWriter" where
  "writeDouble v w = w\<lparr>wbuf := wbuf w @ be64 v\<rparr>"

definition writeRawBytes :: "byte list \<Rightarrow> PacketWriter \<Rightarrow> PacketWriter" where
  "writeRawBytes v w = w\<lparr>wbuf := wbuf w @ v\<rparr>"

fun writeFiller_loop :: "nat \<Rightarrow> PacketWriter \<Rightarrow> PacketWriter" where
  "writeFiller_loop 0 w = w"
| "writeFiller_loop (Suc i) w = writeFiller_loop i (w\<lparr>wbuf := wbuf w @ [0]\<rparr>)"

definition writeFiller :: "int \<Rightarrow> PacketWriter \<Rightarrow> PacketWriter" where
  "writeFiller count w = writeFiller_loop (nat count) w"

text \<open>The length is a positive constant at every call, so it is a \<open>nat\<close>.\<close>

definition writeFixedString :: "string \<Rightarrow> nat \<Rightarrow> PacketWriter \<Rightarrow> PacketWriter" where
  "writeFixedString s len w =
     (let encoded = bytes_of_string s;
          encoded = (if len < length encoded then take len encoded else encoded);
          w = w\<lparr>wbuf := wbuf w @ encoded\<rparr>
      in if length encoded < len then writeFiller (int len - int (length encoded)) w else w)"

definition writeNullTermString :: "string \<Rightarrow> PacketWriter \<Rightarrow> PacketWriter" where
  "writeNullTermString s w =
     (let encoded = bytes_of_string s;
          w = writeInt (word_of_int (int (length encoded) + 1)) w;
          w = w\<lparr>wbuf := wbuf w @ encoded\<rparr>
      in w\<lparr>wbuf := wbuf w @ [0]\<rparr>)"

definition addByte :: "byte \<Rightarrow> PacketWriter \<Rightarrow> PacketWriter" where
  "addByte v w = (let w = writeInt SizeByte w in writeByte v w)"

definition addShort :: "int16 \<Rightarrow> PacketWriter \<Rightarrow> PacketWriter" where
  "addShort v w = (let w = writeInt SizeShort w in writeShort v w)"

definition addInt :: "int32 \<Rightarrow> PacketWriter \<Rightarrow> PacketWriter" where
  "addInt v w = (let w = writeInt SizeInt w in writeInt v w)"

definition addLong :: "int64 \<Rightarrow> PacketWriter \<Rightarrow> PacketWriter" where
  "addLong v w = (let w = writeInt SizeLong w in writeLong v w)"

definition addFloat :: "int32 \<Rightarrow> PacketWriter \<Rightarrow> PacketWriter" where
  "addFloat v w = (let w = writeInt SizeFloat w in writeFloat v w)"

definition addDouble :: "int64 \<Rightarrow> PacketWriter \<Rightarrow> PacketWriter" where
  "addDouble v w = (let w = writeInt SizeDouble w in writeDouble v w)"

definition addBytes :: "byte list \<Rightarrow> PacketWriter \<Rightarrow> PacketWriter" where
  "addBytes v w = (let w = writeInt (word_of_int (int (length v))) w in w\<lparr>wbuf := wbuf w @ v\<rparr>)"

definition addNull :: "PacketWriter \<Rightarrow> PacketWriter" where
  "addNull w = writeInt 0 w"

definition addDatetime :: "Time \<Rightarrow> PacketWriter \<Rightarrow> PacketWriter" where
  "addDatetime t w =
     (let w = writeInt SizeDatetime w;
          w = writeShort (word_of_int (Year t)) w;
          w = writeShort (word_of_int (Month t)) w;
          w = writeShort (word_of_int (Day t)) w;
          w = writeShort (word_of_int (Hour t)) w;
          w = writeShort (word_of_int (Minute t)) w;
          w = writeShort (word_of_int (Second t)) w
      in writeShort (word_of_int (Nanosecond t div 1000000)) w)"

definition addDate :: "Time \<Rightarrow> PacketWriter \<Rightarrow> PacketWriter" where
  "addDate t w =
     (let w = writeInt SizeDatetime w;
          w = writeShort (word_of_int (Year t)) w;
          w = writeShort (word_of_int (Month t)) w;
          w = writeShort (word_of_int (Day t)) w;
          w = writeShort 0 w;
          w = writeShort 0 w;
          w = writeShort 0 w
      in writeShort 0 w)"

definition addCacheTime :: "PacketWriter \<Rightarrow> PacketWriter" where
  "addCacheTime w = (let w = writeInt SizeLong w; w = writeInt 0 w in writeInt 0 w)"

definition toBytes :: "PacketWriter \<Rightarrow> byte list" where
  "toBytes w = wbuf w"

definition Len :: "PacketWriter \<Rightarrow> int" where
  "Len w = int (length (wbuf w))"

section \<open>PacketReader\<close>

record PacketReader =
  rbuf :: "byte list"
  roff :: nat

definition newPacketReader :: "byte list \<Rightarrow> PacketReader" where
  "newPacketReader data = \<lparr>rbuf = data, roff = 0\<rparr>"

definition parseByte :: "PacketReader \<Rightarrow> (byte \<times> PacketReader) option" where
  "parseByte r = do {
     v \<leftarrow> index (rbuf r) (int (roff r));
     Some (v, r\<lparr>roff := roff r + SizeByte\<rparr>)
   }"

definition parseShort :: "PacketReader \<Rightarrow> (int16 \<times> PacketReader) option" where
  "parseShort r = do {
     b \<leftarrow> slice_from (rbuf r) (roff r);
     v \<leftarrow> Uint16 b;
     Some (v, r\<lparr>roff := roff r + SizeShort\<rparr>)
   }"

definition parseInt :: "PacketReader \<Rightarrow> (int32 \<times> PacketReader) option" where
  "parseInt r = do {
     b \<leftarrow> slice_from (rbuf r) (roff r);
     v \<leftarrow> Uint32 b;
     Some (v, r\<lparr>roff := roff r + SizeInt\<rparr>)
   }"

definition parseLong :: "PacketReader \<Rightarrow> (int64 \<times> PacketReader) option" where
  "parseLong r = do {
     b \<leftarrow> slice_from (rbuf r) (roff r);
     v \<leftarrow> Uint64 b;
     Some (v, r\<lparr>roff := roff r + SizeLong\<rparr>)
   }"

definition parseFloat :: "PacketReader \<Rightarrow> (int32 \<times> PacketReader) option" where
  "parseFloat r = do {
     b \<leftarrow> slice_from (rbuf r) (roff r);
     v \<leftarrow> Uint32 b;
     Some (v, r\<lparr>roff := roff r + SizeFloat\<rparr>)
   }"

definition parseDouble :: "PacketReader \<Rightarrow> (int64 \<times> PacketReader) option" where
  "parseDouble r = do {
     b \<leftarrow> slice_from (rbuf r) (roff r);
     v \<leftarrow> Uint64 b;
     Some (v, r\<lparr>roff := roff r + SizeDouble\<rparr>)
   }"

text \<open>\<^verbatim>\<open>make([]byte, count)\<close> panics on a negative count, before the copy.\<close>

definition parseRawBytes :: "int \<Rightarrow> PacketReader \<Rightarrow> (byte list \<times> PacketReader) option" where
  "parseRawBytes count r =
     (if count < 0 then None
      else do {
        v \<leftarrow> slice (rbuf r) (roff r) (roff r + nat count);
        Some (v, r\<lparr>roff := roff r + nat count\<rparr>)
      })"

definition parseNullTermString :: "int \<Rightarrow> PacketReader \<Rightarrow> (string \<times> PacketReader) option" where
  "parseNullTermString len r =
     (if len \<le> 0 then Some ([], r)
      else do {
        (data, r) \<leftarrow> parseRawBytes len r;
        let data = (if 0 < length data \<and> data ! (length data - 1) = 0
                    then take (length data - 1) data else data);
        Some (string_of_bytes data, r)
      })"

definition parseDate :: "PacketReader \<Rightarrow> (Time \<times> PacketReader) option" where
  "parseDate r = do {
     (year, r) \<leftarrow> parseShort r;
     (month, r) \<leftarrow> parseShort r;
     (day, r) \<leftarrow> parseShort r;
     Some (Date (sint year) (sint month) (sint day) 0 0 0 0, r)
   }"

definition parseTime :: "PacketReader \<Rightarrow> (Time \<times> PacketReader) option" where
  "parseTime r = do {
     (hour, r) \<leftarrow> parseShort r;
     (min, r) \<leftarrow> parseShort r;
     (sec, r) \<leftarrow> parseShort r;
     Some (Date 0 1 1 (sint hour) (sint min) (sint sec) 0, r)
   }"

definition parseTimestamp :: "PacketReader \<Rightarrow> (Time \<times> PacketReader) option" where
  "parseTimestamp r = do {
     (year, r) \<leftarrow> parseShort r;
     (month, r) \<leftarrow> parseShort r;
     (day, r) \<leftarrow> parseShort r;
     (hour, r) \<leftarrow> parseShort r;
     (min, r) \<leftarrow> parseShort r;
     (sec, r) \<leftarrow> parseShort r;
     Some (Date (sint year) (sint month) (sint day) (sint hour) (sint min) (sint sec) 0, r)
   }"

definition parseDatetime :: "PacketReader \<Rightarrow> (Time \<times> PacketReader) option" where
  "parseDatetime r = do {
     (year, r) \<leftarrow> parseShort r;
     (month, r) \<leftarrow> parseShort r;
     (day, r) \<leftarrow> parseShort r;
     (hour, r) \<leftarrow> parseShort r;
     (min, r) \<leftarrow> parseShort r;
     (sec, r) \<leftarrow> parseShort r;
     (ms, r) \<leftarrow> parseShort r;
     Some (Date (sint year) (sint month) (sint day) (sint hour) (sint min) (sint sec)
       (sint ms * 1000000), r)
   }"

definition bytesRemaining :: "PacketReader \<Rightarrow> int" where
  "bytesRemaining r = int (length (rbuf r)) - int (roff r)"

definition readError :: "int \<Rightarrow> PacketReader \<Rightarrow> ((int32 \<times> string) \<times> PacketReader) option" where
  "readError responseLength r = do {
     (code, r) \<leftarrow> parseInt r;
     let msgSize = responseLength - SizeInt;
     (msg, r) \<leftarrow> parseNullTermString msgSize r;
     Some ((code, msg), r)
   }"

section \<open>What a writer appends\<close>

text \<open>The wire image of a length-prefixed, null-terminated string, and of a time's seven fields.\<close>

definition nts :: "string \<Rightarrow> byte list" where
  "nts s = be32 (word_of_int (int (length s) + 1)) @ bytes_of_string s @ [0]"

definition datetime_wire :: "Time \<Rightarrow> byte list" where
  "datetime_wire t = be16 (word_of_int (Year t)) @ be16 (word_of_int (Month t))
     @ be16 (word_of_int (Day t)) @ be16 (word_of_int (Hour t)) @ be16 (word_of_int (Minute t))
     @ be16 (word_of_int (Second t)) @ be16 (word_of_int (Nanosecond t div 1000000))"

lemma wbuf_new [writer_simps]: "wbuf newPacketWriter = []"
  by (simp add: newPacketWriter_def)

lemma wbuf_writeByte [writer_simps]: "wbuf (writeByte v w) = wbuf w @ [v]"
  by (simp add: writeByte_def)

lemma wbuf_writeShort [writer_simps]: "wbuf (writeShort v w) = wbuf w @ be16 v"
  by (simp add: writeShort_def)

lemma wbuf_writeInt [writer_simps]: "wbuf (writeInt v w) = wbuf w @ be32 v"
  by (simp add: writeInt_def)

lemma wbuf_writeLong [writer_simps]: "wbuf (writeLong v w) = wbuf w @ be64 v"
  by (simp add: writeLong_def)

lemma wbuf_writeFloat [writer_simps]: "wbuf (writeFloat v w) = wbuf w @ be32 v"
  by (simp add: writeFloat_def)

lemma wbuf_writeDouble [writer_simps]: "wbuf (writeDouble v w) = wbuf w @ be64 v"
  by (simp add: writeDouble_def)

lemma wbuf_writeRawBytes [writer_simps]: "wbuf (writeRawBytes v w) = wbuf w @ v"
  by (simp add: writeRawBytes_def)

lemma wbuf_writeFiller_loop: "wbuf (writeFiller_loop n w) = wbuf w @ replicate n 0"
  by (induction n w rule: writeFiller_loop.induct) simp_all

lemma wbuf_writeFiller [writer_simps]: "wbuf (writeFiller n w) = wbuf w @ replicate (nat n) 0"
  by (simp add: writeFiller_def wbuf_writeFiller_loop)

lemma wbuf_writeFixedString [writer_simps]:
  "wbuf (writeFixedString s n w) = wbuf w @ take n (bytes_of_string s @ replicate n 0)"
  by (auto simp: writeFixedString_def Let_def wbuf_writeFiller nat_diff_distrib)

lemma wbuf_writeNullTermString [writer_simps]: "wbuf (writeNullTermString s w) = wbuf w @ nts s"
  by (simp add: writeNullTermString_def nts_def Let_def wbuf_writeInt)

lemma wbuf_addByte [writer_simps]: "wbuf (addByte v w) = wbuf w @ be32 1 @ [v]"
  by (simp add: addByte_def Let_def writer_simps)

lemma wbuf_addShort [writer_simps]: "wbuf (addShort v w) = wbuf w @ be32 2 @ be16 v"
  by (simp add: addShort_def Let_def writer_simps)

lemma wbuf_addInt [writer_simps]: "wbuf (addInt v w) = wbuf w @ be32 4 @ be32 v"
  by (simp add: addInt_def Let_def writer_simps)

lemma wbuf_addLong [writer_simps]: "wbuf (addLong v w) = wbuf w @ be32 8 @ be64 v"
  by (simp add: addLong_def Let_def writer_simps)

lemma wbuf_addFloat [writer_simps]: "wbuf (addFloat v w) = wbuf w @ be32 4 @ be32 v"
  by (simp add: addFloat_def Let_def writer_simps)

lemma wbuf_addDouble [writer_simps]: "wbuf (addDouble v w) = wbuf w @ be32 8 @ be64 v"
  by (simp add: addDouble_def Let_def writer_simps)

lemma wbuf_addBytes [writer_simps]:
  "wbuf (addBytes v w) = wbuf w @ be32 (word_of_int (int (length v))) @ v"
  by (simp add: addBytes_def Let_def writer_simps)

lemma wbuf_addNull [writer_simps]: "wbuf (addNull w) = wbuf w @ be32 0"
  by (simp add: addNull_def writer_simps)

lemma wbuf_addDatetime [writer_simps]: "wbuf (addDatetime t w) = wbuf w @ be32 14 @ datetime_wire t"
  by (simp add: addDatetime_def Let_def writer_simps datetime_wire_def)

lemma wbuf_addDate [writer_simps]:
  "wbuf (addDate t w) = wbuf w @ be32 14 @ be16 (word_of_int (Year t)) @ be16 (word_of_int (Month t))
     @ be16 (word_of_int (Day t)) @ be16 0 @ be16 0 @ be16 0 @ be16 0"
  by (simp add: addDate_def Let_def writer_simps)

lemma wbuf_addCacheTime [writer_simps]: "wbuf (addCacheTime w) = wbuf w @ be32 8 @ be32 0 @ be32 0"
  by (simp add: addCacheTime_def Let_def writer_simps)

lemma toBytes_wbuf [writer_simps]: "toBytes w = wbuf w"
  by (simp add: toBytes_def)

lemma length_nts [simp]: "length (nts s) = length s + 5"
  by (simp add: nts_def)

lemma length_datetime_wire [simp]: "length (datetime_wire t) = 14"
  by (simp add: datetime_wire_def)

section \<open>The reader's contract\<close>

text \<open>
  A reader is well formed when its offset is inside the buffer.  \<open>rd pre rest\<close> is the reader
  that has consumed \<open>pre\<close> and still has \<open>rest\<close>; every well-formed reader has this form.
\<close>

definition rwf :: "PacketReader \<Rightarrow> bool" where
  "rwf r \<longleftrightarrow> roff r \<le> length (rbuf r)"

definition rd :: "byte list \<Rightarrow> byte list \<Rightarrow> PacketReader" where
  "rd pre rest = \<lparr>rbuf = pre @ rest, roff = length pre\<rparr>"

lemma rd_sel [simp]: "rbuf (rd pre rest) = pre @ rest" "roff (rd pre rest) = length pre"
  by (simp_all add: rd_def)

lemma rwf_rd [simp]: "rwf (rd pre rest)"
  by (simp add: rwf_def)

lemma newPacketReader_rd [wire_simps]: "newPacketReader data = rd [] data"
  by (simp add: newPacketReader_def rd_def)

lemma rwf_obtain_rd:
  assumes "rwf r"
  obtains pre rest where "r = rd pre rest"
proof
  show "r = rd (take (roff r) (rbuf r)) (drop (roff r) (rbuf r))"
    using assms by (simp add: rwf_def rd_def)
qed

lemma rd_forward: "(rd pre (x @ rest))\<lparr>roff := length pre + length x\<rparr> = rd (pre @ x) rest"
  by (simp add: rd_def)

text \<open>
  The contract of a fixed-width reader: on a well-formed reader it consumes exactly \<open>size\<close>
  bytes, and it panics only when fewer are left.
\<close>

locale fixed_reader =
  fixes get :: "PacketReader \<Rightarrow> ('a \<times> PacketReader) option"
    and width :: nat
  assumes get_consumes: "rwf r \<Longrightarrow> get r = Some (v, r') \<Longrightarrow>
      r' = r\<lparr>roff := roff r + width\<rparr> \<and> roff r + width \<le> length (rbuf r)"
    and get_total: "rwf r \<Longrightarrow> roff r + width \<le> length (rbuf r) \<Longrightarrow> get r \<noteq> None"
begin

lemma panics_iff: "rwf r \<Longrightarrow> get r = None \<longleftrightarrow> length (rbuf r) < roff r + width"
  using get_consumes [of r] get_total [of r] by (cases "get r") force+

lemma remaining: "rwf r \<Longrightarrow> get r = Some (v, r') \<Longrightarrow> bytesRemaining r' = bytesRemaining r - int width"
  using get_consumes [of r v r'] by (simp add: bytesRemaining_def)

lemma panics_rd: "get (rd pre rest) = None \<longleftrightarrow> length rest < width"
  by (simp add: panics_iff)

end

text \<open>A codec: a fixed-width reader that inverts an encoder.\<close>

locale wire_codec = fixed_reader get width
  for get :: "PacketReader \<Rightarrow> ('a \<times> PacketReader) option" and width :: nat +
  fixes put :: "'a \<Rightarrow> byte list"
  assumes put_length: "length (put x) = width"
    and get_put: "get (rd pre (put x @ rest)) = Some (x, rd (pre @ put x) rest)"
begin

lemma get_put_end: "get (rd pre (put x)) = Some (x, rd (pre @ put x) [])"
  using get_put [of pre x "[]"] by simp

lemma put_inj: "put x @ s = put y @ t \<Longrightarrow> x = y \<and> s = t"
proof -
  assume eq: "put x @ s = put y @ t"
  from get_put [of "[]" x s] get_put [of "[]" y t] eq have "x = y"
    by simp
  with eq show ?thesis by simp
qed

end

section \<open>The scalar readers keep the contract\<close>

interpretation byte: wire_codec parseByte 1 "\<lambda>v. [v]"
  by unfold_locales (auto simp: parseByte_def index_def rwf_def rd_def nth_append split: if_splits)

lemma slice_from_rd [simp]: "slice_from (pre @ rest) (length pre) = Some rest"
  by (simp add: slice_from_def)

lemma word_reader_contract:
  assumes "\<And>r. p r = do { b \<leftarrow> slice_from (rbuf r) (roff r); v \<leftarrow> u b;
      Some (v, r\<lparr>roff := roff r + n\<rparr>) }"
    and "\<And>bs. u bs = None \<longleftrightarrow> length bs < n"
  shows "fixed_reader p n"
proof
  show "r' = r\<lparr>roff := roff r + n\<rparr> \<and> roff r + n \<le> length (rbuf r)"
    if "rwf r" "p r = Some (v, r')" for r v r'
    using that assms(2) [of "drop (roff r) (rbuf r)"]
    by (cases "u (drop (roff r) (rbuf r))")
      (auto simp: assms(1) slice_from_def rwf_def split: if_splits)
  show "p r \<noteq> None" if "rwf r" "roff r + n \<le> length (rbuf r)" for r
    using that assms(2) [of "drop (roff r) (rbuf r)"]
    by (cases "u (drop (roff r) (rbuf r))") (auto simp: assms(1) slice_from_def rwf_def)
qed

lemma word_codec:
  assumes "\<And>r. p r = do { b \<leftarrow> slice_from (rbuf r) (roff r); v \<leftarrow> u b;
      Some (v, r\<lparr>roff := roff r + n\<rparr>) }"
    and "\<And>bs. u bs = None \<longleftrightarrow> length bs < n"
    and "\<And>v rest. u (put v @ rest) = Some v" and "\<And>v. length (put v) = n"
  shows "wire_codec p n put"
  by (rule wire_codec.intro [OF word_reader_contract [OF assms(1,2)]])
    (unfold_locales, auto simp: assms(1,3,4) rd_def)

interpretation short: wire_codec parseShort 2 be16
  by (rule word_codec [where u = Uint16]) (simp_all add: parseShort_def Uint16_None_iff)

interpretation int32: wire_codec parseInt 4 be32
  by (rule word_codec [where u = Uint32]) (simp_all add: parseInt_def Uint32_None_iff)

interpretation long: wire_codec parseLong 8 be64
  by (rule word_codec [where u = Uint64]) (simp_all add: parseLong_def Uint64_None_iff)

interpretation float: wire_codec parseFloat 4 be32
  by (rule word_codec [where u = Uint32]) (simp_all add: parseFloat_def Uint32_None_iff)

interpretation double: wire_codec parseDouble 8 be64
  by (rule word_codec [where u = Uint64]) (simp_all add: parseDouble_def Uint64_None_iff)

lemma parseByte_rd [wire_simps]: "parseByte (rd pre (v # rest)) = Some (v, rd (pre @ [v]) rest)"
  using byte.get_put [of pre v rest] by simp

lemmas scalar_rd [wire_simps] =
  short.get_put short.get_put_end int32.get_put int32.get_put_end long.get_put long.get_put_end
  float.get_put float.get_put_end double.get_put double.get_put_end

lemma parseRawBytes_rd [wire_simps]:
  "count = int (length x) \<Longrightarrow> parseRawBytes count (rd pre (x @ rest)) = Some (x, rd (pre @ x) rest)"
  by (simp add: parseRawBytes_def slice_def rd_def)

lemma parseRawBytes_rd_end [wire_simps]:
  "count = int (length x) \<Longrightarrow> parseRawBytes count (rd pre x) = Some (x, rd (pre @ x) [])"
  using parseRawBytes_rd [of count x pre "[]"] by simp

lemma parseRawBytes_panics_iff:
  "rwf r \<Longrightarrow> parseRawBytes count r = None \<longleftrightarrow> count < 0 \<or> length (rbuf r) < roff r + nat count"
  by (auto simp: parseRawBytes_def slice_def rwf_def)

text \<open>A string is read back up to its trailing null byte.\<close>

lemma parseNullTermString_rd [wire_simps]:
  assumes "len = int (length s) + 1"
  shows "parseNullTermString len (rd pre (bytes_of_string s @ 0 # rest))
           = Some (s, rd (pre @ bytes_of_string s @ [0]) rest)"
  using assms parseRawBytes_rd [of len "bytes_of_string s @ [0]" pre rest]
  by (simp add: parseNullTermString_def nth_append)

lemma sint_of_int32 [simp]:
  "- (2 ^ 31) \<le> n \<Longrightarrow> n < 2 ^ 31 \<Longrightarrow> sint (word_of_int n :: int32) = n"
  by (simp add: sint_sbintrunc' signed_take_bit_int_eq_self)

lemma sint_of_int16 [simp]:
  "- (2 ^ 15) \<le> n \<Longrightarrow> n < 2 ^ 15 \<Longrightarrow> sint (word_of_int n :: int16) = n"
  by (simp add: sint_sbintrunc' signed_take_bit_int_eq_self)

lemma sint_of_nat32 [simp]: "n < 2147483648 \<Longrightarrow> sint (word_of_nat n :: int32) = int n"
  using sint_of_int32 [of "int n"] by simp

lemma sint_of_Suc32 [simp]: "n < 2147483647 \<Longrightarrow> sint (word_of_nat n + 1 :: int32) = int n + 1"
  using sint_of_int32 [of "int n + 1"] by simp

lemma parse_nts [wire_simps]:
  assumes "length s + 1 < 2 ^ 31"
  shows "do { (n, r) \<leftarrow> parseInt (rd pre (nts s @ rest)); parseNullTermString (sint n) r }
           = Some (s, rd (pre @ nts s) rest)"
  using assms by (simp add: nts_def wire_simps)

section \<open>Readers built from readers\<close>

text \<open>Fixed-width readers compose, which gives the four calendar readers their widths.\<close>

lemma fixed_reader_bind:
  assumes p: "fixed_reader p m" and q: "\<And>x. fixed_reader (q x) n" and k: "k = m + n"
  shows "fixed_reader (\<lambda>r. do { (x, r) \<leftarrow> p r; q x r }) k"
proof
  fix r :: PacketReader and v r'
  assume r: "rwf r" and run: "do { (x, r) \<leftarrow> p r; q x r } = Some (v, r')"
  then obtain x r1 where 1: "p r = Some (x, r1)" "q x r1 = Some (v, r')"
    by (auto simp: bind_eq_Some_conv)
  note p1 = fixed_reader.get_consumes [OF p r 1(1)]
  then have "rwf r1" by (simp add: rwf_def)
  from p1 fixed_reader.get_consumes [OF q this 1(2)] k
  show "r' = r\<lparr>roff := roff r + k\<rparr> \<and> roff r + k \<le> length (rbuf r)"
    by simp
next
  fix r :: PacketReader
  assume r: "rwf r" and le: "roff r + k \<le> length (rbuf r)"
  then obtain x r1 where 1: "p r = Some (x, r1)"
    using fixed_reader.get_total [OF p r] k by fastforce
  note p1 = fixed_reader.get_consumes [OF p r 1]
  then have "rwf r1" "roff r1 + n \<le> length (rbuf r1)"
    using le k by (simp_all add: rwf_def)
  then show "do { (x, r) \<leftarrow> p r; q x r } \<noteq> None"
    using 1 fixed_reader.get_total [OF q] by auto
qed

lemma fixed_reader_return: "k = 0 \<Longrightarrow> fixed_reader (\<lambda>r. Some (x, r)) k"
  by unfold_locales (auto simp: rwf_def)

lemmas fixed_reader_intro = fixed_reader_bind [OF short.fixed_reader_axioms] fixed_reader_return

interpretation date: fixed_reader parseDate 6
  unfolding parseDate_def by (rule fixed_reader_intro)+ simp_all

interpretation time: fixed_reader parseTime 6
  unfolding parseTime_def by (rule fixed_reader_intro)+ simp_all

interpretation timestamp: fixed_reader parseTimestamp 12
  unfolding parseTimestamp_def by (rule fixed_reader_intro)+ simp_all

interpretation datetime: fixed_reader parseDatetime 14
  unfolding parseDatetime_def by (rule fixed_reader_intro)+ simp_all

text \<open>
  The contract every reader keeps, fixed-width or not: it never writes the buffer, never moves
  backwards and never leaves the buffer.
\<close>

definition advances :: "(PacketReader \<Rightarrow> ('a \<times> PacketReader) option) \<Rightarrow> bool" where
  "advances p \<longleftrightarrow> (\<forall>r v r'. rwf r \<longrightarrow> p r = Some (v, r') \<longrightarrow>
     rbuf r' = rbuf r \<and> roff r \<le> roff r' \<and> rwf r')"

lemma advancesD:
  "advances p \<Longrightarrow> rwf r \<Longrightarrow> p r = Some (v, r') \<Longrightarrow> rbuf r' = rbuf r \<and> roff r \<le> roff r' \<and> rwf r'"
  unfolding advances_def by blast

lemma fixed_reader_advances: "fixed_reader p n \<Longrightarrow> advances p"
  unfolding advances_def using fixed_reader.get_consumes [of p n] by (fastforce simp: rwf_def)

lemma advances_return [advances_intro]: "advances (\<lambda>r. Some (x, r))"
  by (simp add: advances_def)

lemma advances_panic [advances_intro]: "advances (\<lambda>r. None)"
  by (simp add: advances_def)

lemma advances_bind [advances_intro]:
  assumes "advances p" and "\<And>x. advances (q x)"
  shows "advances (\<lambda>r. do { (x, r) \<leftarrow> p r; q x r })"
  unfolding advances_def
proof (intro allI impI)
  fix r v r'
  assume r: "rwf r" and run: "do { (x, r) \<leftarrow> p r; q x r } = Some (v, r')"
  then obtain x r1 where 1: "p r = Some (x, r1)" "q x r1 = Some (v, r')"
    by (auto simp: bind_eq_Some_conv)
  from advancesD [OF assms(1) r 1(1)] advancesD [OF assms(2) _ 1(2)]
  show "rbuf r' = rbuf r \<and> roff r \<le> roff r' \<and> rwf r'"
    by force
qed

lemma advances_if [advances_intro]:
  "advances p \<Longrightarrow> advances q \<Longrightarrow> advances (\<lambda>r. if b then p r else q r)"
  by (cases b) simp_all

lemmas fixed_advances [advances_intro] =
  byte.fixed_reader_axioms [THEN fixed_reader_advances]
  short.fixed_reader_axioms [THEN fixed_reader_advances]
  int32.fixed_reader_axioms [THEN fixed_reader_advances]
  long.fixed_reader_axioms [THEN fixed_reader_advances]
  float.fixed_reader_axioms [THEN fixed_reader_advances]
  double.fixed_reader_axioms [THEN fixed_reader_advances]
  date.fixed_reader_axioms [THEN fixed_reader_advances]
  time.fixed_reader_axioms [THEN fixed_reader_advances]
  timestamp.fixed_reader_axioms [THEN fixed_reader_advances]
  datetime.fixed_reader_axioms [THEN fixed_reader_advances]

lemma advances_parseRawBytes [advances_intro]: "advances (parseRawBytes count)"
  by (auto simp: advances_def parseRawBytes_def slice_def rwf_def split: if_splits)

lemma advances_parseNullTermString [advances_intro]: "advances (parseNullTermString len)"
  unfolding parseNullTermString_def Let_def by (intro advances_intro)

lemma advances_readError [advances_intro]: "advances (readError len)"
  unfolding readError_def Let_def by (intro advances_intro)

end
