(* ===== verification/Protocol.thy ===== *)
theory Protocol
  imports Packet Values GoFloat
begin

text \<open>
  \<^verbatim>\<open>protocol.go\<close>: the request builders and the response parsers of the CAS protocol.  A builder is
  the bytes it returns; a parser is \<open>None\<close> when the code panics, and otherwise the error it
  returns (\<open>Inl\<close>) or the result (\<open>Inr\<close>).  A column value (\<^verbatim>\<open>interface{}\<close>) is a driver \<open>Value\<close>.
\<close>

section \<open>Result data\<close>

record ColumnMetaData =
  ColumnType :: int
  Scale :: int
  Precision :: int
  ColName :: string
  RealName :: string
  TableName :: string
  IsNullable :: bool
  DefaultValue :: string
  IsAutoIncrement :: bool
  IsUniqueKey :: bool
  IsPrimaryKey :: bool
  IsForeignKey :: bool

record ResultInfo =
  riStmtType :: int
  riResultCount :: int
  riOID :: "byte list"

definition raiseError :: "int \<Rightarrow> PacketReader \<Rightarrow> go_error option" where
  "raiseError responseLength reader = do {
     ((code, msg), reader) \<leftarrow> readError responseLength reader;
     Some (newError code msg)
   }"

section \<open>Metadata and rows\<close>

definition parseColumn :: "PacketReader \<Rightarrow> (ColumnMetaData \<times> PacketReader) option" where
  "parseColumn r = do {
     (b, r) \<leftarrow> parseByte r;
     let legacyType = uint b;
     (colType, r) \<leftarrow> (if legacyType AND 0x80 \<noteq> 0
        then do { (t, r) \<leftarrow> parseByte r; Some (uint t, r) }
        else Some (legacyType, r));
     (scale, r) \<leftarrow> parseShort r;
     (precision, r) \<leftarrow> parseInt r;
     (nameLen, r) \<leftarrow> parseInt r;
     (name, r) \<leftarrow> parseNullTermString (sint nameLen) r;
     (realNameLen, r) \<leftarrow> parseInt r;
     (realName, r) \<leftarrow> parseNullTermString (sint realNameLen) r;
     (tableNameLen, r) \<leftarrow> parseInt r;
     (tableName, r) \<leftarrow> parseNullTermString (sint tableNameLen) r;
     (isNullable, r) \<leftarrow> parseByte r;
     (defaultLen, r) \<leftarrow> parseInt r;
     (defaultValue, r) \<leftarrow> parseNullTermString (sint defaultLen) r;
     (isAutoIncrement, r) \<leftarrow> parseByte r;
     (isUniqueKey, r) \<leftarrow> parseByte r;
     (isPrimaryKey, r) \<leftarrow> parseByte r;
     (isReverseIndex, r) \<leftarrow> parseByte r;
     (isReverseUnique, r) \<leftarrow> parseByte r;
     (isForeignKey, r) \<leftarrow> parseByte r;
     (isShared, r) \<leftarrow> parseByte r;
     Some (\<lparr>ColumnType = colType, Scale = sint scale, Precision = sint precision,
            ColName = name, RealName = realName, TableName = tableName,
            IsNullable = (isNullable = 1), DefaultValue = defaultValue,
            IsAutoIncrement = (isAutoIncrement = 1), IsUniqueKey = (isUniqueKey = 1),
            IsPrimaryKey = (isPrimaryKey = 1), IsForeignKey = (isForeignKey = 1)\<rparr>, r)
   }"

text \<open>A counted loop that appends one entry per turn.\<close>

fun parse_times :: "nat \<Rightarrow> (PacketReader \<Rightarrow> ('a \<times> PacketReader) option) \<Rightarrow> 'a list \<Rightarrow> PacketReader
    \<Rightarrow> ('a list \<times> PacketReader) option" where
  "parse_times 0 p acc r = Some (acc, r)"
| "parse_times (Suc n) p acc r = do { (x, r) \<leftarrow> p r; parse_times n p (acc @ [x]) r }"

text \<open>\<^verbatim>\<open>make(..., 0, count)\<close> panics on a negative count, before the loop.\<close>

definition parseColumnMetadata :: "int \<Rightarrow> PacketReader \<Rightarrow> (ColumnMetaData list \<times> PacketReader) option" where
  "parseColumnMetadata count r = (if count < 0 then None else parse_times (nat count) parseColumn [] r)"

definition parseResultInfo :: "PacketReader \<Rightarrow> (ResultInfo \<times> PacketReader) option" where
  "parseResultInfo r = do {
     (stmtType, r) \<leftarrow> parseByte r;
     (resultCount, r) \<leftarrow> parseInt r;
     (oid, r) \<leftarrow> parseRawBytes SizeOID r;
     (cacheTimeSec, r) \<leftarrow> parseInt r;
     (cacheTimeUsec, r) \<leftarrow> parseInt r;
     Some (\<lparr>riStmtType = uint stmtType, riResultCount = sint resultCount, riOID = oid\<rparr>, r)
   }"

definition parseResultInfos :: "int \<Rightarrow> PacketReader \<Rightarrow> (ResultInfo list \<times> PacketReader) option" where
  "parseResultInfos count r = (if count < 0 then None else parse_times (nat count) parseResultInfo [] r)"

definition readValue :: "int \<Rightarrow> int \<Rightarrow> PacketReader \<Rightarrow> (Value \<times> PacketReader) option" where
  "readValue colType sz r =
     (if colType \<in> {TypeChar, TypeString, TypeNChar, TypeVarNChar, TypeEnum}
        then do { (v, r) \<leftarrow> parseNullTermString sz r; Some (VString v, r) }
      else if colType = TypeShort then do { (v, r) \<leftarrow> parseShort r; Some (VInt64 (scast v), r) }
      else if colType = TypeInt then do { (v, r) \<leftarrow> parseInt r; Some (VInt64 (scast v), r) }
      else if colType = TypeBigInt then do { (v, r) \<leftarrow> parseLong r; Some (VInt64 v, r) }
      else if colType = TypeFloat then do { (v, r) \<leftarrow> parseFloat r; Some (VFloat64 (f32_to_f64 v), r) }
      else if colType \<in> {TypeDouble, TypeMonetary}
        then do { (v, r) \<leftarrow> parseDouble r; Some (VFloat64 v, r) }
      else if colType = TypeNumeric
        then do { (v, r) \<leftarrow> parseNullTermString sz r; Some (VString v, r) }
      else if colType = TypeDate then do { (v, r) \<leftarrow> parseDate r; Some (VTime v, r) }
      else if colType = TypeTime then do { (v, r) \<leftarrow> parseTime r; Some (VTime v, r) }
      else if colType = TypeDatetime then do { (v, r) \<leftarrow> parseDatetime r; Some (VTime v, r) }
      else if colType = TypeTimestamp then do { (v, r) \<leftarrow> parseTimestamp r; Some (VTime v, r) }
      else if colType \<in> {TypeBit, TypeVarBit}
        then do { (v, r) \<leftarrow> parseRawBytes sz r; Some (VBytes v, r) }
      else if colType \<in> {TypeBlob, TypeClob}
        then do { (v, r) \<leftarrow> parseRawBytes sz r; Some (VBytes v, r) }
      else if colType = TypeNull then Some (VNil, r)
      else do { (v, r) \<leftarrow> parseRawBytes sz r; Some (VBytes v, r) })"

definition parseCell :: "bool \<Rightarrow> ColumnMetaData \<Rightarrow> PacketReader \<Rightarrow> (Value \<times> PacketReader) option" where
  "parseCell isCallType col r = do {
     (n, r) \<leftarrow> parseInt r;
     let sz = sint n;
     if sz \<le> 0 then Some (VNil, r)
     else if isCallType \<or> ColumnType col = TypeNull then do {
       (t, r) \<leftarrow> parseByte r;
       let sz = sz - 1;
       if sz \<le> 0 then Some (VNil, r) else readValue (uint t) sz r
     }
     else readValue (ColumnType col) sz r
   }"

fun parseCells :: "bool \<Rightarrow> ColumnMetaData list \<Rightarrow> PacketReader \<Rightarrow> (Value list \<times> PacketReader) option" where
  "parseCells isCallType [] r = Some ([], r)"
| "parseCells isCallType (col # cols) r = do {
     (v, r) \<leftarrow> parseCell isCallType col r;
     (vs, r) \<leftarrow> parseCells isCallType cols r;
     Some (v # vs, r)
   }"

definition parseRow :: "bool \<Rightarrow> ColumnMetaData list \<Rightarrow> PacketReader \<Rightarrow> (Value list \<times> PacketReader) option" where
  "parseRow isCallType columns r = do {
     (rowIndex, r) \<leftarrow> parseInt r;
     (oid, r) \<leftarrow> parseRawBytes SizeOID r;
     parseCells isCallType columns r
   }"

definition parseRowData :: "int \<Rightarrow> ColumnMetaData list \<Rightarrow> int \<Rightarrow> PacketReader
    \<Rightarrow> (Value list list \<times> PacketReader) option" where
  "parseRowData tupleCount columns stmtType r =
     (let isCallType = (stmtType = StmtCallSP) in
      if tupleCount < 0 then None
      else parse_times (nat tupleCount) (parseRow isCallType columns) [] r)"

section \<open>Handshake, open and close\<close>

definition WriteClientInfoExchange :: "byte list" where
  "WriteClientInfoExchange = bytes_of_string MagicString @ [ClientJDBC] @ [CASVersion] @ [0, 0, 0]"

definition ParseClientInfoExchange :: "byte list \<Rightarrow> int option" where
  "ParseClientInfoExchange data = do {
     b \<leftarrow> slice data 0 4;
     v \<leftarrow> Uint32 b;
     Some (sint v)
   }"

definition WriteOpenDatabase :: "string \<Rightarrow> string \<Rightarrow> string \<Rightarrow> byte list" where
  "WriteOpenDatabase database user password =
     (let w = newPacketWriter;
          w = writeFixedString database 32 w;
          w = writeFixedString user 32 w;
          w = writeFixedString password 32 w;
          w = writeFiller 512 w;
          w = writeFiller 20 w
      in toBytes w)"

record OpenDatabaseResult =
  odCASInfo :: "byte list"
  odProtocolVersion :: int
  odSessionID :: int

definition ParseOpenDatabase :: "byte list \<Rightarrow> (go_error + OpenDatabaseResult) option" where
  "ParseOpenDatabase data = do {
     let reader = newPacketReader data;
     (casInfo, reader) \<leftarrow> parseRawBytes SizeCASInfo reader;
     (responseCode, reader) \<leftarrow> parseInt reader;
     if sint responseCode < 0 then do {
       let remaining = int (length data) - SizeCASInfo - SizeInt;
       e \<leftarrow> raiseError remaining reader;
       Some (Inl e)
     } else do {
       (brokerBytes, reader) \<leftarrow> parseRawBytes SizeBrokerInfo reader;
       b4 \<leftarrow> index brokerBytes 4;
       let protoVersion = uint b4 AND 0x3F;
       (sessionID, reader) \<leftarrow> parseInt reader;
       Some (Inr \<lparr>odCASInfo = casInfo, odProtocolVersion = protoVersion, odSessionID = sint sessionID\<rparr>)
     }
   }"

text \<open>\<^verbatim>\<open>append(buildProtocolHeader(len(payload), casInfo), payload...)\<close>, the end of every builder.\<close>

definition framed :: "byte list \<Rightarrow> byte list \<Rightarrow> byte list" where
  "framed payload casInfo = buildProtocolHeader (int (length payload)) casInfo @ payload"

definition WriteConClose :: "byte list \<Rightarrow> byte list" where
  "WriteConClose casInfo =
     (let w = newPacketWriter; w = writeByte FuncConClose w; payload = toBytes w
      in framed payload casInfo)"

definition WriteEndTran :: "byte \<Rightarrow> byte list \<Rightarrow> byte list" where
  "WriteEndTran txType casInfo =
     (let w = newPacketWriter; w = writeByte FuncEndTran w; w = addByte txType w; payload = toBytes w
      in framed payload casInfo)"

text \<open>The common opening of a response: skip CAS_INFO, read the response code, raise if negative.\<close>

definition ParseSimpleResponse :: "byte list \<Rightarrow> (go_error + unit) option" where
  "ParseSimpleResponse data = do {
     let reader = newPacketReader data;
     (cas, reader) \<leftarrow> parseRawBytes SizeCASInfo reader;
     (code, reader) \<leftarrow> parseInt reader;
     if sint code < 0 then do {
       e \<leftarrow> raiseError (int (length data) - SizeCASInfo - SizeInt) reader;
       Some (Inl e)
     } else Some (Inr ())
   }"

section \<open>PrepareAndExecute\<close>

definition WritePrepareAndExecute :: "string \<Rightarrow> bool \<Rightarrow> byte list \<Rightarrow> byte list" where
  "WritePrepareAndExecute sql autoCommit casInfo =
     (let w = newPacketWriter;
          w = writeByte FuncPrepareAndExecute w;
          w = addInt 3 w;
          w = writeNullTermString sql w;
          w = addByte PrepareNormal w;
          w = (if autoCommit then addByte 1 w else addByte 0 w);
          w = addByte ExecuteQueryAll w;
          w = addInt 0 w;
          w = addInt 0 w;
          w = writeInt 0 w;
          w = writeInt SizeLong w;
          w = writeInt 0 w;
          w = writeInt 0 w;
          w = addInt 0 w;
          payload = toBytes w
      in framed payload casInfo)"

record PrepareAndExecuteResult =
  paeQueryHandle :: int
  paeStatementType :: int
  paeBindCount :: int
  paeColumns :: "ColumnMetaData list"
  paeTotalTupleCount :: int
  paeResultInfos :: "ResultInfo list"
  paeTupleCount :: int
  paeRows :: "Value list list"

definition skipProtoFields :: "int \<Rightarrow> PacketReader \<Rightarrow> (unit \<times> PacketReader) option" where
  "skipProtoFields protoVersion r = do {
     (u, r) \<leftarrow> (if protoVersion > 1 then do { (b, r) \<leftarrow> parseByte r; Some ((), r) } else Some ((), r));
     (if protoVersion > 4 then do { (i, r) \<leftarrow> parseInt r; Some ((), r) } else Some ((), r))
   }"

definition ParsePrepareAndExecute :: "byte list \<Rightarrow> int \<Rightarrow> (go_error + PrepareAndExecuteResult) option" where
  "ParsePrepareAndExecute data protoVersion = do {
     let reader = newPacketReader data;
     (cas, reader) \<leftarrow> parseRawBytes SizeCASInfo reader;
     (responseCode, reader) \<leftarrow> parseInt reader;
     if sint responseCode < 0 then do {
       e \<leftarrow> raiseError (int (length data) - SizeCASInfo - SizeInt) reader;
       Some (Inl e)
     } else do {
       (cacheLifetime, reader) \<leftarrow> parseInt reader;
       (statementType, reader) \<leftarrow> parseByte reader;
       (bindCount, reader) \<leftarrow> parseInt reader;
       (isUpdatable, reader) \<leftarrow> parseByte reader;
       (colCount, reader) \<leftarrow> parseInt reader;
       (columns, reader) \<leftarrow> parseColumnMetadata (sint colCount) reader;
       (totalTupleCount, reader) \<leftarrow> parseInt reader;
       (cacheReusable, reader) \<leftarrow> parseByte reader;
       (resultCount, reader) \<leftarrow> parseInt reader;
       (resultInfos, reader) \<leftarrow> parseResultInfos (sint resultCount) reader;
       (u, reader) \<leftarrow> skipProtoFields protoVersion reader;
       let res = \<lparr>paeQueryHandle = sint responseCode, paeStatementType = uint statementType,
                  paeBindCount = sint bindCount, paeColumns = columns,
                  paeTotalTupleCount = sint totalTupleCount, paeResultInfos = resultInfos,
                  paeTupleCount = 0, paeRows = []\<rparr>;
       if paeStatementType res = StmtSelect \<and> bytesRemaining reader \<ge> SizeInt * 2 then do {
         (fetchCode, reader) \<leftarrow> parseInt reader;
         (tupleCount, reader) \<leftarrow> parseInt reader;
         let res = res\<lparr>paeTupleCount := sint tupleCount\<rparr>;
         if paeTupleCount res > 0 then do {
           (rows, reader) \<leftarrow> parseRowData (paeTupleCount res) (paeColumns res) (paeStatementType res) reader;
           Some (Inr (res\<lparr>paeRows := rows\<rparr>))
         } else Some (Inr res)
       } else Some (Inr res)
     }
   }"

section \<open>Fetch, close handle, version, last insert id\<close>

definition WriteFetch :: "int \<Rightarrow> int \<Rightarrow> int \<Rightarrow> byte list \<Rightarrow> byte list" where
  "WriteFetch queryHandle currentTupleCount fetchSize casInfo =
     (let w = newPacketWriter;
          w = writeByte FuncFetch w;
          w = addInt (word_of_int queryHandle) w;
          w = addInt (word_of_int (currentTupleCount + 1)) w;
          w = addInt (word_of_int fetchSize) w;
          w = addByte 0 w;
          w = addInt 0 w;
          payload = toBytes w
      in framed payload casInfo)"

record FetchResult =
  frTupleCount :: int
  frRows :: "Value list list"

definition ParseFetch :: "byte list \<Rightarrow> ColumnMetaData list \<Rightarrow> int \<Rightarrow> (go_error + FetchResult) option" where
  "ParseFetch data columns stmtType = do {
     let reader = newPacketReader data;
     (cas, reader) \<leftarrow> parseRawBytes SizeCASInfo reader;
     (responseCode, reader) \<leftarrow> parseInt reader;
     if sint responseCode < 0 then do {
       e \<leftarrow> raiseError (int (length data) - SizeCASInfo - SizeInt) reader;
       Some (Inl e)
     } else do {
       (tupleCount, reader) \<leftarrow> parseInt reader;
       let res = \<lparr>frTupleCount = sint tupleCount, frRows = []\<rparr>;
       if frTupleCount res > 0 \<and> length columns > 0 then do {
         (rows, reader) \<leftarrow> parseRowData (frTupleCount res) columns stmtType reader;
         Some (Inr (res\<lparr>frRows := rows\<rparr>))
       } else Some (Inr res)
     }
   }"

definition WriteCloseReqHandle :: "int \<Rightarrow> byte list \<Rightarrow> byte list" where
  "WriteCloseReqHandle queryHandle casInfo =
     (let w = newPacketWriter;
          w = writeByte FuncCloseReqHandle w;
          w = addInt (word_of_int queryHandle) w;
          payload = toBytes w
      in framed payload casInfo)"

definition WriteGetDbVersion :: "bool \<Rightarrow> byte list \<Rightarrow> byte list" where
  "WriteGetDbVersion autoCommit casInfo =
     (let w = newPacketWriter;
          w = writeByte FuncGetDbVersion w;
          w = (if autoCommit then addByte 1 w else addByte 0 w);
          payload = toBytes w
      in framed payload casInfo)"

definition ParseGetDbVersion :: "byte list \<Rightarrow> (go_error + string) option" where
  "ParseGetDbVersion data = do {
     let reader = newPacketReader data;
     (cas, reader) \<leftarrow> parseRawBytes SizeCASInfo reader;
     (code, reader) \<leftarrow> parseInt reader;
     if sint code < 0 then do {
       e \<leftarrow> raiseError (int (length data) - SizeCASInfo - SizeInt) reader;
       Some (Inl e)
     } else do {
       let versionLen = int (length data) - SizeCASInfo - SizeInt;
       (v, reader) \<leftarrow> parseNullTermString versionLen reader;
       Some (Inr v)
     }
   }"

definition WriteGetLastInsertId :: "byte list \<Rightarrow> byte list" where
  "WriteGetLastInsertId casInfo =
     (let w = newPacketWriter; w = writeByte FuncGetLastInsertId w; payload = toBytes w
      in framed payload casInfo)"

definition ParseGetLastInsertId :: "byte list \<Rightarrow> (go_error + string) option" where
  "ParseGetLastInsertId data = do {
     let reader = newPacketReader data;
     (cas, reader) \<leftarrow> parseRawBytes SizeCASInfo reader;
     (code, reader) \<leftarrow> parseInt reader;
     if sint code < 0 then do {
       e \<leftarrow> raiseError (int (length data) - SizeCASInfo - SizeInt) reader;
       Some (Inl e)
     } else if sint code > 0 then do {
       (v, reader) \<leftarrow> parseNullTermString (sint code) reader;
       Some (Inr v)
     } else Some (Inr [])
   }"

section \<open>Prepare and execute\<close>

definition WritePrepare :: "string \<Rightarrow> bool \<Rightarrow> byte list \<Rightarrow> byte list" where
  "WritePrepare sql autoCommit casInfo =
     (let w = newPacketWriter;
          w = writeByte FuncPrepare w;
          w = writeNullTermString sql w;
          w = addByte PrepareNormal w;
          w = (if autoCommit then addByte 1 w else addByte 0 w);
          payload = toBytes w
      in framed payload casInfo)"

record PrepareResult =
  prQueryHandle :: int
  prStatementType :: int
  prBindCount :: int
  prColumns :: "ColumnMetaData list"

definition ParsePrepare :: "byte list \<Rightarrow> (go_error + PrepareResult) option" where
  "ParsePrepare data = do {
     let reader = newPacketReader data;
     (cas, reader) \<leftarrow> parseRawBytes SizeCASInfo reader;
     (responseCode, reader) \<leftarrow> parseInt reader;
     if sint responseCode < 0 then do {
       e \<leftarrow> raiseError (int (length data) - SizeCASInfo - SizeInt) reader;
       Some (Inl e)
     } else do {
       (cacheLifetime, reader) \<leftarrow> parseInt reader;
       (statementType, reader) \<leftarrow> parseByte reader;
       (bindCount, reader) \<leftarrow> parseInt reader;
       (isUpdatable, reader) \<leftarrow> parseByte reader;
       (colCount, reader) \<leftarrow> parseInt reader;
       (columns, reader) \<leftarrow> parseColumnMetadata (sint colCount) reader;
       Some (Inr \<lparr>prQueryHandle = sint responseCode, prStatementType = uint statementType,
                  prBindCount = sint bindCount, prColumns = columns\<rparr>)
     }
   }"

fun encodeOneParam :: "Value \<Rightarrow> PacketWriter \<Rightarrow> PacketWriter" where
  "encodeOneParam VNil w = writeInt 0 w"
| "encodeOneParam (VBool v) w =
     (let w = writeInt (1 + SizeShort) w;
          w = writeByte TypeShort w
      in if v then writeShort 1 w else writeShort 0 w)"
| "encodeOneParam (VInt64 v) w =
     (let w = writeInt (1 + SizeLong) w;
          w = writeByte TypeBigInt w
      in writeLong v w)"
| "encodeOneParam (VFloat64 v) w =
     (let w = writeInt (1 + SizeDouble) w;
          w = writeByte TypeDouble w
      in writeDouble v w)"
| "encodeOneParam (VString v) w =
     (let encoded = bytes_of_string v;
          w = writeInt (word_of_int (1 + int (length encoded) + 1)) w;
          w = writeByte TypeString w;
          w = writeRawBytes encoded w
      in writeByte 0 w)"
| "encodeOneParam (VBytes v) w =
     (let w = writeInt (word_of_int (1 + int (length v))) w;
          w = writeByte TypeVarBit w
      in writeRawBytes v w)"
| "encodeOneParam (VTime v) w =
     (let v = UTC v;
          w = writeInt (1 + SizeDatetime) w;
          w = writeByte TypeDatetime w;
          w = writeShort (word_of_int (Year v)) w;
          w = writeShort (word_of_int (Month v)) w;
          w = writeShort (word_of_int (Day v)) w;
          w = writeShort (word_of_int (Hour v)) w;
          w = writeShort (word_of_int (Minute v)) w;
          w = writeShort (word_of_int (Second v)) w
      in writeShort (word_of_int (Nanosecond v div 1000000)) w)"
| "encodeOneParam (VOther T text) w =
     (let encoded = bytes_of_string text;
          w = writeInt (word_of_int (1 + int (length encoded) + 1)) w;
          w = writeByte TypeString w;
          w = writeRawBytes encoded w
      in writeByte 0 w)"

fun encodeParams_loop :: "Value list \<Rightarrow> PacketWriter \<Rightarrow> PacketWriter" where
  "encodeParams_loop [] w = w"
| "encodeParams_loop (arg # args) w = encodeParams_loop args (encodeOneParam arg w)"

definition encodeBindParams :: "Value list \<Rightarrow> byte list" where
  "encodeBindParams args =
     (if length args = 0 then [] else toBytes (encodeParams_loop args newPacketWriter))"

definition WriteExecute :: "int \<Rightarrow> int \<Rightarrow> Value list \<Rightarrow> bool \<Rightarrow> byte list \<Rightarrow> byte list" where
  "WriteExecute queryHandle stmtType args autoCommit casInfo =
     (let fetchFlag = (if stmtType = StmtSelect then 1 else 0);
          w = newPacketWriter;
          w = writeByte FuncExecute w;
          w = addInt (word_of_int queryHandle) w;
          w = addByte ExecuteNormal w;
          w = addInt 0 w;
          w = addInt 0 w;
          bindData = encodeBindParams args;
          w = (if length bindData > 0 then addBytes bindData w else writeInt 0 w);
          w = writeInt 1 w;
          w = writeByte fetchFlag w;
          w = addByte (if autoCommit then 1 else 0) w;
          w = addByte 1 w;
          w = addCacheTime w;
          w = addInt 0 w;
          payload = toBytes w
      in framed payload casInfo)"

record ExecuteResult =
  erTotalTupleCount :: int
  erResultInfos :: "ResultInfo list"
  erTupleCount :: int
  erRows :: "Value list list"

definition ParseExecute :: "byte list \<Rightarrow> ColumnMetaData list \<Rightarrow> int \<Rightarrow> int \<Rightarrow> (go_error + ExecuteResult) option" where
  "ParseExecute data columns stmtType protoVersion = do {
     let reader = newPacketReader data;
     (cas, reader) \<leftarrow> parseRawBytes SizeCASInfo reader;
     (responseCode, reader) \<leftarrow> parseInt reader;
     if sint responseCode < 0 then do {
       e \<leftarrow> raiseError (int (length data) - SizeCASInfo - SizeInt) reader;
       Some (Inl e)
     } else do {
       (cacheReusable, reader) \<leftarrow> parseByte reader;
       (resultCount, reader) \<leftarrow> parseInt reader;
       (resultInfos, reader) \<leftarrow> parseResultInfos (sint resultCount) reader;
       (u, reader) \<leftarrow> skipProtoFields protoVersion reader;
       let res = \<lparr>erTotalTupleCount = sint responseCode, erResultInfos = resultInfos,
                  erTupleCount = 0, erRows = []\<rparr>;
       if stmtType = StmtSelect \<and> bytesRemaining reader \<ge> SizeInt * 2 then do {
         (fetchCode, reader) \<leftarrow> parseInt reader;
         (tupleCount, reader) \<leftarrow> parseInt reader;
         let res = res\<lparr>erTupleCount := sint tupleCount\<rparr>;
         if erTupleCount res > 0 \<and> length columns > 0 then do {
           (rows, reader) \<leftarrow> parseRowData (erTupleCount res) columns stmtType reader;
           Some (Inr (res\<lparr>erRows := rows\<rparr>))
         } else Some (Inr res)
       } else Some (Inr res)
     }
   }"

end
