(* ===== verification/Requests.thy ===== *)
theory Requests
  imports Protocol
begin

text \<open>
  What the request builders of \<^verbatim>\<open>protocol.go\<close> promise the server.  The abstract request is a
  function code and a list of arguments; on the wire every argument is preceded by its length.
  A reference decoder, which knows nothing about the individual requests, recovers the code and
  the arguments of every packet the driver builds, so packets are self-delimiting and no two
  different requests share one.
\<close>

section \<open>The generic format\<close>

definition arg_wire :: "byte list \<Rightarrow> byte list" where
  "arg_wire a = be32 (word_of_int (int (length a))) @ a"

definition args_wire :: "byte list list \<Rightarrow> byte list" where
  "args_wire as = concat (map arg_wire as)"

function decode_args :: "byte list \<Rightarrow> byte list list option" where
  "decode_args bs =
     (if bs = [] then Some []
      else case Uint32 bs of
        None \<Rightarrow> None
      | Some n \<Rightarrow>
          (let k = nat (sint n); rest = drop 4 bs in
           if sint n < 0 \<or> length rest < k then None
           else map_option ((#) (take k rest)) (decode_args (drop k rest))))"
  by pat_completeness auto
termination
  by (relation "measure length") (auto simp: Uint32_None_iff [symmetric])

declare decode_args.simps [simp del]

text \<open>The server's view of a packet: header, function code, arguments, and nothing left over.\<close>

definition decode_request :: "byte list \<Rightarrow> (byte list \<times> byte \<times> byte list list) option" where
  "decode_request packet = do {
     (n, cas) \<leftarrow> parseProtocolHeader packet;
     let payload = drop 8 packet;
     if int (length payload) \<noteq> n then None
     else case payload of
       [] \<Rightarrow> None
     | code # body \<Rightarrow> do { as \<leftarrow> decode_args body; Some (cas, code, as) }
   }"

definition short_arg :: "byte list \<Rightarrow> bool" where
  "short_arg a \<longleftrightarrow> length a < 2 ^ 31"

lemma decode_args_arg:
  assumes "short_arg a"
  shows "decode_args (arg_wire a @ rest) = map_option ((#) a) (decode_args rest)"
proof -
  have n: "sint (word_of_int (int (length a)) :: int32) = int (length a)"
    using assms by (simp add: short_arg_def)
  have ne: "arg_wire a @ rest \<noteq> []" by (simp add: arg_wire_def be32_def)
  have u: "Uint32 (arg_wire a @ rest) = Some (word_of_int (int (length a)))"
    by (simp add: arg_wire_def del: of_int_of_nat_eq)
  have d: "drop 4 (arg_wire a @ rest) = a @ rest" by (simp add: arg_wire_def)
  have l: "\<not> length (a @ rest) < length a" and t: "take (length a) (a @ rest) = a"
    and r: "drop (length a) (a @ rest) = rest" by simp_all
  show ?thesis
    by (subst decode_args.simps)
       (simp only: ne u n d l t r Let_def option.case if_False nat_int of_nat_less_0_iff simp_thms)
qed

lemma decode_args_wire:
  "\<forall>a\<in>set as. short_arg a \<Longrightarrow> decode_args (args_wire as) = Some as"
proof (induction as)
  case Nil
  show ?case by (simp add: args_wire_def decode_args.simps [of "[]"])
next
  case (Cons a as)
  then show ?case
    using decode_args_arg [of a "args_wire as"] by (simp add: args_wire_def)
qed

lemma decode_framed:
  assumes "length cas = SizeCASInfo" and "length (args_wire as) < 2 ^ 31" and "\<forall>a\<in>set as. short_arg a"
  shows "decode_request (framed (code # args_wire as) cas) = Some (cas, code, as)"
proof -
  let ?n = "int (length (code # args_wire as))"
  have h: "parseProtocolHeader (framed (code # args_wire as) cas) = Some (?n, cas)"
    unfolding framed_def by (rule parse_buildProtocolHeader) (use assms in simp_all)
  have d: "drop 8 (framed (code # args_wire as) cas) = code # args_wire as"
    using assms(1) by (simp add: framed_def buildProtocolHeader_def)
  show ?thesis
    using decode_args_wire [OF assms(3)] by (simp add: decode_request_def h d Let_def)
qed

section \<open>The requests the driver makes\<close>

datatype request =
    RqConClose
  | RqEndTran byte
  | RqPrepareAndExecute string bool
  | RqFetch int int int
  | RqCloseReqHandle int
  | RqGetDbVersion bool
  | RqGetLastInsertId
  | RqPrepare string bool
  | RqExecute int int "Value list" bool

fun build :: "request \<Rightarrow> byte list \<Rightarrow> byte list" where
  "build RqConClose cas = WriteConClose cas"
| "build (RqEndTran t) cas = WriteEndTran t cas"
| "build (RqPrepareAndExecute sql ac) cas = WritePrepareAndExecute sql ac cas"
| "build (RqFetch qh n sz) cas = WriteFetch qh n sz cas"
| "build (RqCloseReqHandle qh) cas = WriteCloseReqHandle qh cas"
| "build (RqGetDbVersion ac) cas = WriteGetDbVersion ac cas"
| "build RqGetLastInsertId cas = WriteGetLastInsertId cas"
| "build (RqPrepare sql ac) cas = WritePrepare sql ac cas"
| "build (RqExecute qh st args ac) cas = WriteExecute qh st args ac cas"

fun request_code :: "request \<Rightarrow> byte" where
  "request_code RqConClose = 31"
| "request_code (RqEndTran t) = 1"
| "request_code (RqPrepareAndExecute sql ac) = 41"
| "request_code (RqFetch qh n sz) = 8"
| "request_code (RqCloseReqHandle qh) = 6"
| "request_code (RqGetDbVersion ac) = 15"
| "request_code RqGetLastInsertId = 40"
| "request_code (RqPrepare sql ac) = 2"
| "request_code (RqExecute qh st args ac) = 3"

definition flag :: "bool \<Rightarrow> byte" where "flag b = (if b then 1 else 0)"

definition cstring :: "string \<Rightarrow> byte list" where "cstring s = bytes_of_string s @ [0]"

definition int_arg :: "int \<Rightarrow> byte list" where "int_arg i = be32 (word_of_int i)"

fun request_args :: "request \<Rightarrow> byte list list" where
  "request_args RqConClose = []"
| "request_args (RqEndTran t) = [[t]]"
| "request_args (RqPrepareAndExecute sql ac) =
     [int_arg 3, cstring sql, [0], [flag ac], [2], int_arg 0, int_arg 0, [],
      be32 0 @ be32 0, int_arg 0]"
| "request_args (RqFetch qh n sz) = [int_arg qh, int_arg (n + 1), int_arg sz, [0], int_arg 0]"
| "request_args (RqCloseReqHandle qh) = [int_arg qh]"
| "request_args (RqGetDbVersion ac) = [[flag ac]]"
| "request_args RqGetLastInsertId = []"
| "request_args (RqPrepare sql ac) = [cstring sql, [0], [flag ac]]"
| "request_args (RqExecute qh st args ac) =
     [int_arg qh, [0], int_arg 0, int_arg 0, encodeBindParams args, [flag (st = StmtSelect)],
      [flag ac], [1], be32 0 @ be32 0, int_arg 0]"

lemmas builder_defs = WriteConClose_def WriteEndTran_def WritePrepareAndExecute_def WriteFetch_def
  WriteCloseReqHandle_def WriteGetDbVersion_def WriteGetLastInsertId_def WritePrepare_def
  WriteExecute_def

text \<open>Every builder writes the generic format.\<close>

lemma nts_arg: "nts s = arg_wire (cstring s)"
  by (simp add: nts_def arg_wire_def cstring_def add.commute)

lemma build_framed: "build rq cas = framed (request_code rq # args_wire (request_args rq)) cas"
  by (cases rq) (auto simp: builder_defs Let_def writer_simps args_wire_def arg_wire_def nts_arg
      int_arg_def flag_def)

text \<open>The sizes for which a length fits its four bytes.\<close>

definition request_ok :: "request \<Rightarrow> bool" where
  "request_ok rq \<longleftrightarrow> length (args_wire (request_args rq)) < 2 ^ 31"

lemma length_arg_wire_le: "a \<in> set as \<Longrightarrow> length a \<le> length (args_wire as)"
  by (induction as) (auto simp: args_wire_def arg_wire_def)

section \<open>The two unframed handshake packets\<close>

lemma WriteClientInfoExchange_wire:
  "WriteClientInfoExchange = bytes_of_string ''CUBRK'' @ [3, 0x47, 0, 0, 0]"
  by (simp add: WriteClientInfoExchange_def)

definition field32 :: "string \<Rightarrow> byte list" where
  "field32 s = take 32 (bytes_of_string s @ replicate 32 0)"

lemma length_field32 [simp]: "length (field32 s) = 32"
  by (simp add: field32_def)

lemma WriteOpenDatabase_wire:
  "WriteOpenDatabase db user pw = field32 db @ field32 user @ field32 pw @ replicate 532 0"
  by (simp add: WriteOpenDatabase_def Let_def writer_simps field32_def replicate_add [symmetric])

text \<open>What a reader of a null-padded field sees: the first 32 bytes, up to the first null byte.\<close>

definition read_field :: "byte list \<Rightarrow> string" where
  "read_field bs = string_of_bytes (takeWhile (\<lambda>b. b \<noteq> 0) bs)"

lemma field32_padded: "field32 s = bytes_of_string (take 32 s) @ replicate (32 - length s) 0"
  by (simp add: field32_def take_map bytes_of_string_def min_def)

lemma read_field32: "read_field (field32 s) = takeWhile (\<lambda>c. c \<noteq> CHR 0x00) (take 32 s)"
proof -
  have pad: "takeWhile (\<lambda>b. b \<noteq> 0) (bs @ replicate n 0) = takeWhile (\<lambda>b. b \<noteq> 0) bs" for bs :: "byte list" and n
    by (induction bs) (cases n; simp)+
  have "string_of_bytes (takeWhile (\<lambda>b. b \<noteq> 0) (bytes_of_string t)) = takeWhile (\<lambda>c. c \<noteq> CHR 0x00) t" for t
  proof (induction t)
    case (Cons c t)
    have "(of_char c :: byte) = 0 \<longleftrightarrow> c = CHR 0x00"
      using inj_bytes_of_string [of "[c]" "[CHR 0x00]"] by (simp add: bytes_of_string_def del: inj_bytes_of_string)
    moreover have "char_of (unat (of_char c :: byte)) = c"
      using string_of_bytes_of_string [of "[c]"]
      by (simp add: bytes_of_string_def string_of_bytes_def del: string_of_bytes_of_string)
    ultimately show ?case using Cons by (simp add: bytes_of_string_def string_of_bytes_def)
  qed (simp add: bytes_of_string_def string_of_bytes_def)
  then show ?thesis by (simp add: read_field_def field32_padded pad)
qed

lemma read_field32_iff:
  "takeWhile (\<lambda>c. c \<noteq> CHR 0x00) (take 32 s) = s \<longleftrightarrow> length s \<le> 32 \<and> CHR 0x00 \<notin> set s"
proof
  assume h: "takeWhile (\<lambda>c. c \<noteq> CHR 0x00) (take 32 s) = s"
  have "length (takeWhile (\<lambda>c. c \<noteq> CHR 0x00) (take 32 s)) \<le> 32"
    using length_takeWhile_le [of "\<lambda>c. c \<noteq> CHR 0x00" "take 32 s"] by simp
  moreover have "CHR 0x00 \<notin> set (takeWhile (\<lambda>c. c \<noteq> CHR 0x00) (take 32 s))" by (auto dest: set_takeWhileD)
  ultimately show "length s \<le> 32 \<and> CHR 0x00 \<notin> set s" unfolding h by blast
next
  assume h: "length s \<le> 32 \<and> CHR 0x00 \<notin> set s"
  then have t: "take 32 s = s" by simp
  show "takeWhile (\<lambda>c. c \<noteq> CHR 0x00) (take 32 s) = s"
    unfolding t takeWhile_eq_all_conv using h by blast
qed

section \<open>Properties\<close>

text \<open>C6: Every request of the driver is self-delimiting: a decoder that knows only the generic format
  recovers the session token, the function code and each argument with nothing left over, for every
  request whose arguments fit the 32-bit length.\<close>

theorem requests_decode:
  assumes "length cas = SizeCASInfo" and "request_ok rq"
  shows "decode_request (build rq cas) = Some (cas, request_code rq, request_args rq)"
  unfolding build_framed
proof (rule decode_framed [OF assms(1)])
  show "length (args_wire (request_args rq)) < 2 ^ 31"
    using assms(2) by (simp add: request_ok_def)
  then show "\<forall>a\<in>set (request_args rq). short_arg a"
    using length_arg_wire_le by (fastforce simp: short_arg_def)
qed

theorem requests_decode_witness:
  "decode_request (build (RqPrepare ''a'' True) [1, 2, 3, 4]) = Some ([1, 2, 3, 4], 2, [[97, 0], [0], [1]])
   \<and> decode_request (build (RqFetch 7 100 50) [1, 2, 3, 4])
     = Some ([1, 2, 3, 4], 8, [[0, 0, 0, 7], [0, 0, 0, 101], [0, 0, 0, 50], [0], [0, 0, 0, 0]])"
proof -
  have ok: "request_ok (RqPrepare ''a'' True)" "request_ok (RqFetch 7 100 50)"
    by (simp_all add: request_ok_def args_wire_def arg_wire_def cstring_def int_arg_def)
  have b: "cstring ''a'' = [97, 0]" "int_arg 7 = [0, 0, 0, 7]" "int_arg 101 = [0, 0, 0, 101]"
      "int_arg 50 = [0, 0, 0, 50]" "int_arg 0 = [0, 0, 0, 0]"
    by (simp_all add: cstring_def bytes_of_string_def int_arg_def be32_def)
  show ?thesis
    using requests_decode [OF _ ok(1), of "[1, 2, 3, 4]"] requests_decode [OF _ ok(2), of "[1, 2, 3, 4]"]
    by (simp add: b flag_def)
qed

text \<open>C40: The database-open packet, whatever the names.  It has 628 bytes: three fields of 32, each with the
  first 32 bytes of its name and padded with zeros, and 532 zeros.  A server reads from a field the
  first 32 bytes of the name up to the first null byte, so exactly the names of at most 32 bytes
  without a null byte arrive as they are, and a longer one is cut silently.\<close>

theorem open_database_fields:
  "let w = WriteOpenDatabase db user pw;
       field = (\<lambda>s. bytes_of_string (take 32 s) @ replicate (32 - length s) 0);
       arrives = (\<lambda>s. takeWhile (\<lambda>c. c \<noteq> CHR 0x00) (take 32 s))
   in length w = 628 \<and> w = field db @ field user @ field pw @ replicate 532 0
     \<and> read_field (take 32 w) = arrives db \<and> read_field (take 32 (drop 32 w)) = arrives user
     \<and> read_field (take 32 (drop 64 w)) = arrives pw
     \<and> (arrives s = s \<longleftrightarrow> length s \<le> 32 \<and> CHR 0x00 \<notin> set s)"
  by (simp add: Let_def WriteOpenDatabase_wire read_field32_iff field32_padded [symmetric] read_field32)

end
