(* ===== verification/Responses.thy ===== *)
theory Responses
  imports Requests
begin

text \<open>
  What the response parsers of \<^verbatim>\<open>protocol.go\<close> promise.  The server's side is a set of message
  types with their wire images; each has the value the driver should make of it.  The contract of
  a parser is the locale \<open>message\<close>: on the image of a well-formed message, whatever stands before
  and after it, the parser returns the value and stops behind the image.  It is proved once for
  columns, result infos, cells and rows, and the theorems on whole responses rest on it.
\<close>

section \<open>The contract of a parser\<close>

locale message =
  fixes get :: "PacketReader \<Rightarrow> ('v \<times> PacketReader) option"
    and img :: "'m \<Rightarrow> byte list"
    and val :: "'m \<Rightarrow> 'v"
    and ok :: "'m \<Rightarrow> bool"
  assumes read: "ok m \<Longrightarrow> get (rd pre (img m @ rest)) = Some (val m, rd (pre @ img m) rest)"
begin

lemma read_end: "ok m \<Longrightarrow> get (rd pre (img m)) = Some (val m, rd (pre @ img m) [])"
  using read [of m pre "[]"] by simp

text \<open>A counted loop over the parser reads a sequence of messages.\<close>

lemma read_times:
  assumes "\<forall>m\<in>set ms. ok m" and "n = length ms"
  shows "parse_times n get acc (rd pre (concat (map img ms) @ rest))
    = Some (acc @ map val ms, rd (pre @ concat (map img ms)) rest)"
  using assms by (induction ms arbitrary: n acc pre) (simp_all add: read)

text \<open>Images are prefix-free up to the value: what follows a message cannot change it.\<close>

lemma prefix_free:
  assumes "ok m" and "ok m'" and "img m @ s = img m' @ t"
  shows "val m = val m'"
proof -
  have "get (rd [] (img m @ s)) = get (rd [] (img m' @ t))" using assms(3) by simp
  then show ?thesis by (simp add: read assms(1,2))
qed

end

sublocale wire_codec \<subseteq> msg: message get put "\<lambda>x. x" "\<lambda>_. True"
  by unfold_locales (simp add: get_put)

section \<open>Columns and result infos\<close>

text \<open>A column with the three bytes the driver skips.\<close>

type_synonym column_msg = "ColumnMetaData \<times> byte \<times> byte \<times> byte"

definition column_img :: "column_msg \<Rightarrow> byte list" where
  "column_img m = (case m of (c, u1, u2, u3) \<Rightarrow>
     (if ColumnType c < 128 then [word_of_int (ColumnType c)] else [0x80, word_of_int (ColumnType c)])
     @ be16 (word_of_int (Scale c)) @ be32 (word_of_int (Precision c))
     @ nts (ColName c) @ nts (RealName c) @ nts (TableName c) @ [flag (IsNullable c)]
     @ nts (DefaultValue c) @ [flag (IsAutoIncrement c), flag (IsUniqueKey c), flag (IsPrimaryKey c),
        u1, u2, flag (IsForeignKey c), u3])"

definition short_string :: "string \<Rightarrow> bool" where
  "short_string s \<longleftrightarrow> length s < 2 ^ 31 - 1"

definition column_ok :: "column_msg \<Rightarrow> bool" where
  "column_ok m = (case m of (c, _) \<Rightarrow>
     0 \<le> ColumnType c \<and> ColumnType c < 256 \<and> - (2 ^ 15) \<le> Scale c \<and> Scale c < 2 ^ 15
     \<and> - (2 ^ 31) \<le> Precision c \<and> Precision c < 2 ^ 31
     \<and> short_string (ColName c) \<and> short_string (RealName c) \<and> short_string (TableName c)
     \<and> short_string (DefaultValue c))"

lemma flag_eq [simp]: "flag b = 1 \<longleftrightarrow> b"
  by (simp add: flag_def)

lemma uint_byte [simp]: "0 \<le> n \<Longrightarrow> n < 256 \<Longrightarrow> uint (word_of_int n :: byte) = n"
  by (simp add: uint_word_of_int)

lemma legacy_bit: "0 \<le> n \<Longrightarrow> n < 128 \<Longrightarrow> (n :: int) AND 128 = 0"
proof -
  assume n: "0 \<le> n" "n < 128"
  have "n = take_bit 7 n" using n by (simp add: take_bit_int_eq_self)
  also have "take_bit 7 n AND 128 = 0"
    by (simp add: take_bit_eq_mask ac_simps mask_eq_exp_minus_1)
  finally show ?thesis .
qed

lemma nts_read [wire_simps]:
  "short_string s \<Longrightarrow> (do { (n, r) \<leftarrow> parseInt (rd pre (nts s @ rest)); (x, r) \<leftarrow> parseNullTermString (sint n) r; q x r })
     = q s (rd (pre @ nts s) rest)"
  by (simp add: short_string_def nts_def wire_simps)

interpretation column: message parseColumn column_img fst column_ok
proof
  fix m :: column_msg and pre rest
  assume ok: "column_ok m"
  obtain c u1 u2 u3 where m: "m = (c, u1, u2, u3)" by (cases m)
  show "parseColumn (rd pre (column_img m @ rest)) = Some (fst m, rd (pre @ column_img m) rest)"
    using ok by (cases "ColumnType c < 128")
      (simp_all add: m column_ok_def column_img_def parseColumn_def Let_def legacy_bit wire_simps)
qed

type_synonym info_msg = "ResultInfo \<times> int32 \<times> int32"

definition info_img :: "info_msg \<Rightarrow> byte list" where
  "info_img m = (case m of (i, sec, usec) \<Rightarrow>
     [word_of_int (riStmtType i)] @ be32 (word_of_int (riResultCount i)) @ riOID i @ be32 sec @ be32 usec)"

definition info_ok :: "info_msg \<Rightarrow> bool" where
  "info_ok m = (case m of (i, _) \<Rightarrow> 0 \<le> riStmtType i \<and> riStmtType i < 256
     \<and> - (2 ^ 31) \<le> riResultCount i \<and> riResultCount i < 2 ^ 31 \<and> length (riOID i) = SizeOID)"

interpretation info: message parseResultInfo info_img fst info_ok
proof
  fix m :: info_msg and pre rest
  assume ok: "info_ok m"
  obtain i sec usec where m: "m = (i, sec, usec)" by (cases m)
  show "parseResultInfo (rd pre (info_img m @ rest)) = Some (fst m, rd (pre @ info_img m) rest)"
    using ok by (simp add: m info_ok_def info_img_def parseResultInfo_def wire_simps)
qed

section \<open>Cells and rows\<close>

text \<open>The data of a cell, by the shape the server sends, and the value the driver makes of it.\<close>

datatype cell_data =
    DString string
  | DShort int16
  | DInt int32
  | DBig int64
  | DFloat int32
  | DDouble int64
  | DDate int16 int16 int16
  | DTime int16 int16 int16
  | DTimestamp int16 int16 int16 int16 int16 int16
  | DDatetime int16 int16 int16 int16 int16 int16 int16
  | DBytes "byte list"

fun data_img :: "cell_data \<Rightarrow> byte list" where
  "data_img (DString s) = bytes_of_string s @ [0]"
| "data_img (DShort v) = be16 v"
| "data_img (DInt v) = be32 v"
| "data_img (DBig v) = be64 v"
| "data_img (DFloat v) = be32 v"
| "data_img (DDouble v) = be64 v"
| "data_img (DDate y m d) = be16 y @ be16 m @ be16 d"
| "data_img (DTime h m s) = be16 h @ be16 m @ be16 s"
| "data_img (DTimestamp y m d h mi s) = be16 y @ be16 m @ be16 d @ be16 h @ be16 mi @ be16 s"
| "data_img (DDatetime y m d h mi s ms) =
     be16 y @ be16 m @ be16 d @ be16 h @ be16 mi @ be16 s @ be16 ms"
| "data_img (DBytes b) = b"

fun data_val :: "cell_data \<Rightarrow> Value" where
  "data_val (DString s) = VString s"
| "data_val (DShort v) = VInt64 (scast v)"
| "data_val (DInt v) = VInt64 (scast v)"
| "data_val (DBig v) = VInt64 v"
| "data_val (DFloat v) = VFloat64 (f32_to_f64 v)"
| "data_val (DDouble v) = VFloat64 v"
| "data_val (DDate y m d) = VTime (Date (sint y) (sint m) (sint d) 0 0 0 0)"
| "data_val (DTime h m s) = VTime (Date 0 1 1 (sint h) (sint m) (sint s) 0)"
| "data_val (DTimestamp y m d h mi s) = VTime (Date (sint y) (sint m) (sint d) (sint h) (sint mi) (sint s) 0)"
| "data_val (DDatetime y m d h mi s ms) =
     VTime (Date (sint y) (sint m) (sint d) (sint h) (sint mi) (sint s) (sint ms * 1000000))"
| "data_val (DBytes b) = VBytes b"

text \<open>The CUBRID types that send data of each shape; types unknown to the driver send bytes.\<close>

fun data_type :: "cell_data \<Rightarrow> int \<Rightarrow> bool" where
  "data_type (DString s) t \<longleftrightarrow> t \<in> {TypeChar, TypeString, TypeNChar, TypeVarNChar, TypeEnum, TypeNumeric}"
| "data_type (DShort v) t \<longleftrightarrow> t = TypeShort"
| "data_type (DInt v) t \<longleftrightarrow> t = TypeInt"
| "data_type (DBig v) t \<longleftrightarrow> t = TypeBigInt"
| "data_type (DFloat v) t \<longleftrightarrow> t = TypeFloat"
| "data_type (DDouble v) t \<longleftrightarrow> t \<in> {TypeDouble, TypeMonetary}"
| "data_type (DDate y m d) t \<longleftrightarrow> t = TypeDate"
| "data_type (DTime h m s) t \<longleftrightarrow> t = TypeTime"
| "data_type (DTimestamp y m d h mi s) t \<longleftrightarrow> t = TypeTimestamp"
| "data_type (DDatetime y m d h mi s ms) t \<longleftrightarrow> t = TypeDatetime"
| "data_type (DBytes b) t \<longleftrightarrow> t \<notin> {TypeNull, TypeChar, TypeString, TypeNChar, TypeVarNChar, TypeEnum,
     TypeNumeric, TypeShort, TypeInt, TypeBigInt, TypeFloat, TypeDouble, TypeMonetary, TypeDate, TypeTime,
     TypeTimestamp, TypeDatetime}"

lemma readValue_img:
  assumes "data_type d t" and "sz = int (length (data_img d))"
  shows "readValue t sz (rd pre (data_img d @ rest)) = Some (data_val d, rd (pre @ data_img d) rest)"
  using assms
  by (cases d) (auto simp: readValue_def parseDate_def parseTime_def parseTimestamp_def parseDatetime_def wire_simps)

text \<open>
  A cell is null or data of a type.  When the driver reads the type from the cell (a call result, or
  a column without a type), the type is one more byte inside the cell's length.
\<close>

datatype cell_msg = CNull | CData int cell_data

fun cell_img :: "bool \<Rightarrow> cell_msg \<Rightarrow> byte list" where
  "cell_img typed CNull = be32 0"
| "cell_img typed (CData t d) =
     (if typed then be32 (word_of_int (int (length (data_img d)) + 1)) @ [word_of_int t]
      else be32 (word_of_int (int (length (data_img d))))) @ data_img d"

fun cell_val :: "cell_msg \<Rightarrow> Value" where
  "cell_val CNull = VNil"
| "cell_val (CData t d) = data_val d"

fun cell_ok :: "bool \<Rightarrow> ColumnMetaData \<Rightarrow> cell_msg \<Rightarrow> bool" where
  "cell_ok typed col CNull \<longleftrightarrow> True"
| "cell_ok typed col (CData t d) \<longleftrightarrow> data_type d t \<and> 0 \<le> t \<and> t < 256
     \<and> data_img d \<noteq> [] \<and> length (data_img d) < 2 ^ 31 - 1 \<and> (typed \<or> ColumnType col = t)"

definition cell_typed :: "bool \<Rightarrow> ColumnMetaData \<Rightarrow> bool" where
  "cell_typed isCallType col \<longleftrightarrow> isCallType \<or> ColumnType col = TypeNull"

interpretation cell: message "parseCell isCall col" "cell_img (cell_typed isCall col)" cell_val
  "cell_ok (cell_typed isCall col) col"
proof
  fix isCall :: bool and col :: ColumnMetaData and m :: cell_msg and pre rest
  assume ok: "cell_ok (cell_typed isCall col) col m"
  show "parseCell isCall col (rd pre (cell_img (cell_typed isCall col) m @ rest))
    = Some (cell_val m, rd (pre @ cell_img (cell_typed isCall col) m) rest)"
  proof (cases m)
    case CNull
    then show ?thesis by (simp add: parseCell_def wire_simps)
  next
    case (CData t d)
    from ok CData have t: "data_type d t" "0 \<le> t" "t < 256" and ne: "data_img d \<noteq> []"
      and len: "length (data_img d) < 2147483647"
      and u: "cell_typed isCall col \<or> ColumnType col = t" by simp_all
    from ne have "0 < length (data_img d)" by simp
    with CData t u len show ?thesis
      by (cases "cell_typed isCall col")
        (simp_all add: parseCell_def cell_typed_def wire_simps readValue_img)
  qed
qed

text \<open>A row: its index, the object identifier and one cell for each column.\<close>

type_synonym row_msg = "int32 \<times> byte list \<times> cell_msg list"

fun cells_img :: "bool \<Rightarrow> ColumnMetaData list \<Rightarrow> cell_msg list \<Rightarrow> byte list" where
  "cells_img isCall (col # cols) (m # ms) = cell_img (cell_typed isCall col) m @ cells_img isCall cols ms"
| "cells_img isCall _ _ = []"

definition row_img :: "bool \<Rightarrow> ColumnMetaData list \<Rightarrow> row_msg \<Rightarrow> byte list" where
  "row_img isCall cols m = (case m of (i, oid, ms) \<Rightarrow> be32 i @ oid @ cells_img isCall cols ms)"

definition row_val :: "row_msg \<Rightarrow> Value list" where
  "row_val m = map cell_val (snd (snd m))"

definition row_ok :: "bool \<Rightarrow> ColumnMetaData list \<Rightarrow> row_msg \<Rightarrow> bool" where
  "row_ok isCall cols m = (case m of (i, oid, ms) \<Rightarrow> length oid = SizeOID
     \<and> list_all2 (\<lambda>col. cell_ok (cell_typed isCall col) col) cols ms)"

lemma parseCells_img:
  assumes "list_all2 (\<lambda>col. cell_ok (cell_typed isCall col) col) cols ms"
  shows "parseCells isCall cols (rd pre (cells_img isCall cols ms @ rest))
    = Some (map cell_val ms, rd (pre @ cells_img isCall cols ms) rest)"
  using assms
  by (induction cols ms arbitrary: pre rule: list_all2_induct) (simp_all add: cell.read)

interpretation row: message "parseRow isCall cols" "row_img isCall cols" row_val "row_ok isCall cols"
proof
  fix isCall cols and m :: row_msg and pre rest
  assume ok: "row_ok isCall cols m"
  obtain i oid ms where m: "m = (i, oid, ms)" by (cases m)
  show "parseRow isCall cols (rd pre (row_img isCall cols m @ rest))
    = Some (row_val m, rd (pre @ row_img isCall cols m) rest)"
    using ok by (simp add: m row_ok_def row_img_def row_val_def parseRow_def wire_simps parseCells_img)
qed

section \<open>Whole responses\<close>

text \<open>
  A response as the connection's \<open>recv\<close> hands it over: session token, response code, body.  A
  negative code is followed by the error code and the message up to the end of the packet.
\<close>

definition error_img :: "byte list \<Rightarrow> int32 \<Rightarrow> int32 \<Rightarrow> string \<Rightarrow> byte list" where
  "error_img cas rc code msg = cas @ be32 rc @ be32 code @ bytes_of_string msg @ [0]"

text \<open>The counted sections common to several responses.\<close>

lemma parseColumnMetadata_img:
  assumes "\<forall>c\<in>set cs. column_ok c" and "n = int (length cs)"
  shows "parseColumnMetadata n (rd pre (concat (map column_img cs) @ rest))
    = Some (map fst cs, rd (pre @ concat (map column_img cs)) rest)"
  using column.read_times [OF assms(1), of "nat n" "[]" pre rest] assms(2)
  by (simp add: parseColumnMetadata_def)

lemma parseResultInfos_img:
  assumes "\<forall>i\<in>set is. info_ok i" and "n = int (length is)"
  shows "parseResultInfos n (rd pre (concat (map info_img is) @ rest))
    = Some (map fst is, rd (pre @ concat (map info_img is)) rest)"
  using info.read_times [OF assms(1), of "nat n" "[]" pre rest] assms(2)
  by (simp add: parseResultInfos_def)

lemma parseRowData_img:
  assumes "\<forall>r\<in>set rs. row_ok (st = StmtCallSP) cols r" and "n = int (length rs)"
  shows "parseRowData n cols st (rd pre (concat (map (row_img (st = StmtCallSP) cols) rs) @ rest))
    = Some (map row_val rs, rd (pre @ concat (map (row_img (st = StmtCallSP) cols) rs)) rest)"
  using row.read_times [OF assms(1), of "nat n" "[]" pre rest] assms(2)
  by (simp add: parseRowData_def)

definition count_img :: "'a list \<Rightarrow> byte list" where
  "count_img xs = be32 (word_of_int (int (length xs)))"

lemma length_count_img [simp]: "length (count_img xs) = 4"
  by (simp add: count_img_def)

definition countable_list :: "'a list \<Rightarrow> bool" where
  "countable_list xs \<longleftrightarrow> length xs < 2 ^ 31"

lemma parse_count [wire_simps]:
  "parseInt (rd pre (count_img xs @ rest)) = Some (word_of_nat (length xs), rd (pre @ count_img xs) rest)"
  by (simp add: count_img_def wire_simps)

lemma sint_count: "countable_list xs \<Longrightarrow> sint (word_of_nat (length xs) :: int32) = int (length xs)"
  by (simp add: countable_list_def)

text \<open>The version-dependent fields.\<close>

definition proto_img :: "int \<Rightarrow> byte \<Rightarrow> int32 \<Rightarrow> byte list" where
  "proto_img pv incl shard = (if pv > 1 then [incl] else []) @ (if pv > 4 then be32 shard else [])"

lemma skipProtoFields_img [wire_simps]:
  "skipProtoFields pv (rd pre (proto_img pv incl shard @ rest)) = Some ((), rd (pre @ proto_img pv incl shard) rest)"
  by (simp add: skipProtoFields_def proto_img_def wire_simps)

text \<open>The first rows of a query, sent along with the result.\<close>

definition rows_img :: "bool \<Rightarrow> ColumnMetaData list \<Rightarrow> row_msg list \<Rightarrow> byte list" where
  "rows_img isCall cols rs = concat (map (row_img isCall cols) rs)"

record prepare_msg =
  pmCas :: "byte list"
  pmHandle :: int32
  pmLifetime :: int32
  pmStmt :: byte
  pmBind :: int32
  pmUpdatable :: byte
  pmColumns :: "column_msg list"

definition prepare_img :: "prepare_msg \<Rightarrow> byte list" where
  "prepare_img m = pmCas m @ be32 (pmHandle m) @ be32 (pmLifetime m) @ [pmStmt m] @ be32 (pmBind m)
     @ [pmUpdatable m] @ count_img (pmColumns m) @ concat (map column_img (pmColumns m))"

definition prepare_ok :: "prepare_msg \<Rightarrow> bool" where
  "prepare_ok m \<longleftrightarrow> length (pmCas m) = SizeCASInfo \<and> 0 \<le> sint (pmHandle m)
     \<and> countable_list (pmColumns m) \<and> (\<forall>c\<in>set (pmColumns m). column_ok c)"

record execute_msg =
  emTotal :: int32
  emReusable :: byte
  emInfos :: "info_msg list"
  emIncludes :: byte
  emShard :: int32
  emFetch :: "(int32 \<times> row_msg list) option"

text \<open>The tail shared by \<open>PrepareAndExecute\<close> and \<open>Execute\<close>.\<close>

definition execute_tail :: "int \<Rightarrow> ColumnMetaData list \<Rightarrow> execute_msg \<Rightarrow> byte list" where
  "execute_tail pv cols m = [emReusable m] @ count_img (emInfos m) @ concat (map info_img (emInfos m))
     @ proto_img pv (emIncludes m) (emShard m)
     @ (case emFetch m of None \<Rightarrow> []
        | Some (code, rs) \<Rightarrow> be32 code @ count_img rs @ rows_img False cols rs)"

definition execute_ok :: "int \<Rightarrow> ColumnMetaData list \<Rightarrow> execute_msg \<Rightarrow> bool" where
  "execute_ok st cols m \<longleftrightarrow> countable_list (emInfos m) \<and> (\<forall>i\<in>set (emInfos m). info_ok i)
     \<and> (case emFetch m of None \<Rightarrow> True
        | Some (code, rs) \<Rightarrow> st = StmtSelect \<and> countable_list rs \<and> (\<forall>r\<in>set rs. row_ok False cols r))"

definition fetched :: "execute_msg \<Rightarrow> Value list list" where
  "fetched m = (case emFetch m of None \<Rightarrow> [] | Some (code, rs) \<Rightarrow> map row_val rs)"

lemma bytesRemaining_rd [wire_simps]: "bytesRemaining (rd pre rest) = int (length rest)"
  by (simp add: bytesRemaining_def)

lemmas section_rules = parseColumnMetadata_img parseResultInfos_img
  parseColumnMetadata_img [where rest = "[]", simplified] parseResultInfos_img [where rest = "[]", simplified]
  skipProtoFields_img [where rest = "[]", simplified] parse_count [where rest = "[]", simplified]

lemma rows_read:
  assumes "\<forall>r\<in>set rs. row_ok False cols r" and "countable_list rs" and "st \<noteq> StmtCallSP"
  shows "parseRowData (int (length rs)) cols st (rd pre (rows_img False cols rs))
    = Some (map row_val rs, rd (pre @ rows_img False cols rs) [])"
  using parseRowData_img [of rs st cols "int (length rs)" pre "[]"] assms by (simp add: rows_img_def)

lemma ParsePrepare_img:
  assumes "prepare_ok m"
  shows "ParsePrepare (prepare_img m @ rest) = Some (Inr
    \<lparr>prQueryHandle = sint (pmHandle m), prStatementType = uint (pmStmt m), prBindCount = sint (pmBind m),
     prColumns = map fst (pmColumns m)\<rparr>)"
  using assms
  by (simp add: ParsePrepare_def prepare_ok_def prepare_img_def wire_simps Let_def sint_count
      section_rules)

definition pae_img :: "int \<Rightarrow> prepare_msg \<Rightarrow> execute_msg \<Rightarrow> byte list" where
  "pae_img pv p e = prepare_img p @ be32 (emTotal e) @ execute_tail pv (map fst (pmColumns p)) e"

definition pae_result :: "prepare_msg \<Rightarrow> execute_msg \<Rightarrow> PrepareAndExecuteResult" where
  "pae_result p e =
    \<lparr>paeQueryHandle = sint (pmHandle p), paeStatementType = uint (pmStmt p), paeBindCount = sint (pmBind p),
     paeColumns = map fst (pmColumns p), paeTotalTupleCount = sint (emTotal e),
     paeResultInfos = map fst (emInfos e), paeTupleCount = int (length (fetched e)), paeRows = fetched e\<rparr>"

lemma ParsePrepareAndExecute_img:
  assumes "prepare_ok p" and "execute_ok (uint (pmStmt p)) (map fst (pmColumns p)) e"
  shows "ParsePrepareAndExecute (pae_img pv p e) pv = Some (Inr (pae_result p e))"
proof (cases "emFetch e")
  case None
  with assms show ?thesis
    by (simp add: ParsePrepareAndExecute_def prepare_ok_def prepare_img_def execute_ok_def execute_tail_def
        pae_img_def pae_result_def fetched_def wire_simps Let_def sint_count section_rules)
next
  case (Some f)
  obtain code rs where f: "f = (code, rs)" by (cases f)
  from assms Some f have sel: "uint (pmStmt p) = 21" and cnt: "countable_list rs"
    and rows: "\<forall>r\<in>set rs. row_ok False (map fst (pmColumns p)) r"
    by (simp_all add: execute_ok_def)
  show ?thesis
    using assms Some f sel cnt rows
    by (simp add: ParsePrepareAndExecute_def prepare_ok_def prepare_img_def execute_ok_def execute_tail_def
        pae_img_def pae_result_def fetched_def wire_simps Let_def sint_count section_rules rows_read)
qed

text \<open>\<open>Execute\<close> answers with the row count as its response code, and reads rows only when the
  statement has columns.\<close>

definition exec_img :: "int \<Rightarrow> byte list \<Rightarrow> ColumnMetaData list \<Rightarrow> execute_msg \<Rightarrow> byte list" where
  "exec_img pv cas cols e = cas @ be32 (emTotal e) @ execute_tail pv cols e"

definition exec_result :: "ColumnMetaData list \<Rightarrow> execute_msg \<Rightarrow> ExecuteResult" where
  "exec_result cols e =
    \<lparr>erTotalTupleCount = sint (emTotal e), erResultInfos = map fst (emInfos e),
     erTupleCount = int (length (fetched e)), erRows = (if cols = [] then [] else fetched e)\<rparr>"

lemma ParseExecute_img:
  assumes "length cas = SizeCASInfo" and "0 \<le> sint (emTotal e)" and "execute_ok st cols e"
  shows "ParseExecute (exec_img pv cas cols e) cols st pv = Some (Inr (exec_result cols e))"
proof (cases "emFetch e")
  case None
  with assms show ?thesis
    by (simp add: ParseExecute_def execute_ok_def execute_tail_def
        exec_img_def exec_result_def fetched_def wire_simps Let_def sint_count section_rules)
next
  case (Some f)
  obtain code rs where f: "f = (code, rs)" by (cases f)
  from assms Some f have sel: "st = 21" and cnt: "countable_list rs"
    and rows: "\<forall>r\<in>set rs. row_ok False cols r"
    by (simp_all add: execute_ok_def)
  show ?thesis
    using assms Some f sel cnt rows
    by (simp add: ParseExecute_def execute_ok_def execute_tail_def
        exec_img_def exec_result_def fetched_def wire_simps Let_def sint_count section_rules rows_read)
qed

definition fetch_img :: "byte list \<Rightarrow> int32 \<Rightarrow> bool \<Rightarrow> ColumnMetaData list \<Rightarrow> row_msg list \<Rightarrow> byte list" where
  "fetch_img cas rc isCall cols rs = cas @ be32 rc @ count_img rs @ rows_img isCall cols rs"

lemma ParseFetch_img:
  assumes "length cas = SizeCASInfo" and "0 \<le> sint rc" and "countable_list rs"
    and "\<forall>r\<in>set rs. row_ok (st = StmtCallSP) cols r"
  shows "ParseFetch (fetch_img cas rc (st = StmtCallSP) cols rs) cols st = Some (Inr
    \<lparr>frTupleCount = int (length rs), frRows = (if cols = [] then [] else map row_val rs)\<rparr>)"
  using assms parseRowData_img [OF assms(4) refl, where rest = "[]"]
  by (auto simp: ParseFetch_def fetch_img_def rows_img_def wire_simps Let_def sint_count section_rules)

text \<open>The handshake's answer: token, code, broker information (version in byte 4) and session.\<close>

lemma ParseOpenDatabase_img:
  assumes "length cas = SizeCASInfo" and "0 \<le> sint rc" and "length broker = SizeBrokerInfo"
  shows "ParseOpenDatabase (cas @ be32 rc @ broker @ be32 sid @ rest) = Some (Inr
    \<lparr>odCASInfo = cas, odProtocolVersion = uint (broker ! 4) AND 0x3F, odSessionID = sint sid\<rparr>)"
  using assms by (simp add: ParseOpenDatabase_def wire_simps Let_def index_def)

lemma ParseSimpleResponse_img:
  assumes "length cas = SizeCASInfo" and "0 \<le> sint rc"
  shows "ParseSimpleResponse (cas @ be32 rc @ rest) = Some (Inr ())"
  using assms by (simp add: ParseSimpleResponse_def wire_simps Let_def)

lemma ParseGetDbVersion_img:
  assumes "length cas = SizeCASInfo" and "0 \<le> sint rc"
  shows "ParseGetDbVersion (cas @ be32 rc @ bytes_of_string v @ [0]) = Some (Inr v)"
  using assms by (simp add: ParseGetDbVersion_def wire_simps Let_def)

lemma error_response:
  fixes code :: int32 and msg :: string
  assumes "length cas = SizeCASInfo" and "sint rc < 0"
  defines "data \<equiv> error_img cas rc code msg"
  shows "parseRawBytes SizeCASInfo (newPacketReader data) = Some (cas, rd cas (drop 4 data))"
    and "parseInt (rd cas (drop 4 data)) = Some (rc, rd (cas @ be32 rc) (drop 8 data))"
    and "raiseError (int (length data) - 8) (rd (cas @ be32 rc) (drop 8 data)) = Some (newError code msg)"
  using assms(1,2)
  by (simp_all add: data_def error_img_def wire_simps raiseError_def readError_def)

section \<open>Malformed responses\<close>

text \<open>A reader at the end of the token, and the branch on the response code.\<close>

lemma parseInt_word:
  assumes "Uint32 rest = Some v"
  shows "parseInt (rd pre rest) = Some (v, rd (pre @ take 4 rest) (drop 4 rest))"
proof -
  have "4 \<le> length rest" using assms Uint32_None_iff [of rest] by force
  then show ?thesis using assms by (simp add: parseInt_def slice_from_def rd_def)
qed

lemma split_response:
  assumes "8 \<le> length data"
  obtains cas rc body where "data = cas @ body" "length cas = 4" "Uint32 body = Some rc"
    "parseRawBytes 4 (newPacketReader data) = Some (cas, rd cas body)"
    "parseInt (rd cas body) = Some (rc, rd (cas @ take 4 body) (drop 4 body))"
proof -
  let ?cas = "take 4 data" and ?body = "drop 4 data"
  have l: "length ?cas = 4" and e: "data = ?cas @ ?body" using assms by simp_all
  obtain rc where rc: "Uint32 ?body = Some rc"
    using assms Uint32_None_iff [of ?body] by fastforce
  have raw: "parseRawBytes 4 (newPacketReader data) = Some (?cas, rd ?cas ?body)"
    using parseRawBytes_rd [of 4 ?cas "[]" ?body] l e by (simp add: newPacketReader_rd)
  have int: "parseInt (rd ?cas ?body) = Some (rc, rd (?cas @ take 4 ?body) (drop 4 ?body))"
    by (rule parseInt_word [OF rc])
  show thesis by (rule that [OF e l rc raw int])
qed

lemma raiseError_panics:
  assumes "n = int (length rest)"
  shows "raiseError n (rd pre rest) = None \<longleftrightarrow> length rest < 4"
proof (cases "length rest < 4")
  case True
  then show ?thesis
    using int32.panics_rd [of pre rest] by (simp add: raiseError_def readError_def)
next
  case False
  then obtain c where c: "Uint32 rest = Some c"
    using Uint32_None_iff [of rest] by fastforce
  note parseInt_word [OF c, of pre]
  moreover have "parseNullTermString (n - 4) (rd (pre @ take 4 rest) (drop 4 rest)) \<noteq> None"
    using parseRawBytes_rd_end [of "n - 4" "drop 4 rest" "pre @ take 4 rest"] assms False
    by (simp add: parseNullTermString_def)
  ultimately show ?thesis using False by (auto simp: raiseError_def readError_def)
qed

section \<open>Properties\<close>

text \<open>C5: Whatever columns, rows, counts and flags the server sends in answer to PREPARE and to
  PREPARE_AND_EXECUTE, the driver returns exactly them: the handle, the statement type, the bind
  count, every column's metadata, the affected counts, and each cell of each row as the value its type
  stands for, at every protocol version.\<close>

theorem prepare_responses_roundtrip:
  assumes "prepare_ok p" and "execute_ok (uint (pmStmt p)) (map fst (pmColumns p)) e"
  shows "ParsePrepare (prepare_img p) = Some (Inr
      \<lparr>prQueryHandle = sint (pmHandle p), prStatementType = uint (pmStmt p), prBindCount = sint (pmBind p),
       prColumns = map fst (pmColumns p)\<rparr>)
    \<and> ParsePrepareAndExecute (pae_img pv p e) pv = Some (Inr (pae_result p e))"
  using ParsePrepare_img [OF assms(1), of "[]"] ParsePrepareAndExecute_img [OF assms] by simp

definition sample_column :: ColumnMetaData where
  "sample_column = \<lparr>ColumnType = TypeInt, Scale = 0, Precision = 10, ColName = ''id'', RealName = ''id'',
     TableName = ''t'', IsNullable = False, DefaultValue = '''', IsAutoIncrement = True, IsUniqueKey = True,
     IsPrimaryKey = True, IsForeignKey = False\<rparr>"

definition sample_prepare :: prepare_msg where
  "sample_prepare = \<lparr>pmCas = [0, 0, 0, 0], pmHandle = 3, pmLifetime = 0, pmStmt = StmtSelect, pmBind = 0,
     pmUpdatable = 0, pmColumns = [(sample_column, 0, 0, 0)]\<rparr>"

definition sample_execute :: execute_msg where
  "sample_execute = \<lparr>emTotal = 2, emReusable = 0, emInfos = [], emIncludes = 1, emShard = 0,
     emFetch = Some (0, [(1, replicate 8 0, [CData TypeInt (DInt 42)]), (2, replicate 8 0, [CNull])])\<rparr>"

lemma sample_ok: "prepare_ok sample_prepare" "execute_ok 21 [sample_column] sample_execute"
  by (simp_all add: prepare_ok_def sample_prepare_def column_ok_def sample_column_def short_string_def
      countable_list_def execute_ok_def sample_execute_def row_ok_def be32_def)

theorem prepare_responses_roundtrip_witness:
  "\<exists>res. ParsePrepareAndExecute (pae_img 5 sample_prepare sample_execute) 5 = Some (Inr res)
    \<and> paeQueryHandle res = 3 \<and> paeTotalTupleCount res = 2 \<and> paeRows res = [[VInt64 42], [VNil]]"
proof -
  have "execute_ok (uint (pmStmt sample_prepare)) (map fst (pmColumns sample_prepare)) sample_execute"
    using sample_ok(2) by (simp add: sample_prepare_def)
  from prepare_responses_roundtrip [OF sample_ok(1) this, of 5] show ?thesis
    by (simp add: pae_result_def fetched_def sample_prepare_def sample_execute_def row_val_def)
qed

text \<open>C21: The answers to EXECUTE and FETCH are read back exactly too.  Rows are kept only for
  statements that have columns, and the row count is reported either way.\<close>

theorem execute_responses_roundtrip:
  assumes "length cas = SizeCASInfo" and "0 \<le> sint (emTotal e)" and "execute_ok st cols e"
    and "0 \<le> sint rc" and "countable_list rs" and "\<forall>r\<in>set rs. row_ok (st = StmtCallSP) cols r"
  shows "ParseExecute (exec_img pv cas cols e) cols st pv = Some (Inr (exec_result cols e))
    \<and> ParseFetch (fetch_img cas rc (st = StmtCallSP) cols rs) cols st = Some (Inr
        \<lparr>frTupleCount = int (length rs), frRows = (if cols = [] then [] else map row_val rs)\<rparr>)"
  using ParseExecute_img [OF assms(1-3)] ParseFetch_img [OF assms(1,4-6)] by blast

theorem execute_responses_roundtrip_witness:
  "ParseFetch (fetch_img [0, 0, 0, 0] 0 False [sample_column]
      [(1, replicate 8 0, [CData TypeInt (DInt 7)])]) [sample_column] StmtSelect
     = Some (Inr \<lparr>frTupleCount = 1, frRows = [[VInt64 7]]\<rparr>)"
proof -
  have "\<forall>r\<in>set [(1, replicate 8 0, [CData TypeInt (DInt 7)])].
      row_ok ((21 :: int) = StmtCallSP) [sample_column] r"
    by (simp add: row_ok_def sample_column_def be32_def)
  from execute_responses_roundtrip [OF _ _ sample_ok(2) _ _ this, of "[0, 0, 0, 0]" 0 0]
  show ?thesis by (simp add: countable_list_def row_val_def sample_execute_def)
qed

text \<open>C22: A server error is never lost or mistaken for a result: every parser answers a packet with a
  negative response code with the classified error that carries the server's code and message.\<close>

theorem server_errors_reported:
  assumes "length cas = SizeCASInfo" and "sint rc < 0"
  shows "ParseOpenDatabase (error_img cas rc code msg) = Some (Inl (newError code msg))
    \<and> ParseSimpleResponse (error_img cas rc code msg) = Some (Inl (newError code msg))
    \<and> ParsePrepareAndExecute (error_img cas rc code msg) pv = Some (Inl (newError code msg))
    \<and> ParseFetch (error_img cas rc code msg) cols st = Some (Inl (newError code msg))
    \<and> ParseGetDbVersion (error_img cas rc code msg) = Some (Inl (newError code msg))
    \<and> ParseGetLastInsertId (error_img cas rc code msg) = Some (Inl (newError code msg))
    \<and> ParsePrepare (error_img cas rc code msg) = Some (Inl (newError code msg))
    \<and> ParseExecute (error_img cas rc code msg) cols st pv = Some (Inl (newError code msg))"
  using error_response [OF assms, of code msg] assms
  by (simp add: ParseOpenDatabase_def ParseSimpleResponse_def ParsePrepareAndExecute_def ParseFetch_def
      ParseGetDbVersion_def ParseGetLastInsertId_def ParsePrepare_def ParseExecute_def Let_def)

theorem server_errors_reported_witness:
  "ParseSimpleResponse (error_img [0, 0, 0, 0] (-1) (-494) ''Syntax error'')
     = Some (Inl (newError (-494) ''Syntax error''))"
  using server_errors_reported [of "[0, 0, 0, 0]" "-1" "-494" "''Syntax error''"] by simp

text \<open>C30: A short response crashes the caller.  The acknowledgement parser panics exactly on packets
  that end before the response code, or before the error code that a negative response code
  announces; on every other packet it returns.\<close>

theorem simple_response_panics_iff:
  "ParseSimpleResponse data = None \<longleftrightarrow>
     length data < 8 \<or> length data < 12 \<and> (\<exists>rc. Uint32 (drop 4 data) = Some rc \<and> sint rc < 0)"
proof (cases "length data < 8")
  case True
  have "ParseSimpleResponse data = None"
  proof (cases "length data < 4")
    case True
    then show ?thesis
      using parseRawBytes_panics_iff [of "newPacketReader data" 4]
      by (simp add: ParseSimpleResponse_def newPacketReader_rd)
  next
    case False
    then have "parseRawBytes 4 (newPacketReader data) = Some (take 4 data, rd (take 4 data) (drop 4 data))"
      using parseRawBytes_rd [of 4 "take 4 data" "[]" "drop 4 data"] by (simp add: newPacketReader_rd)
    moreover have "parseInt (rd (take 4 data) (drop 4 data)) = None"
      using True int32.panics_rd by simp
    ultimately show ?thesis by (simp add: ParseSimpleResponse_def)
  qed
  with True show ?thesis by simp
next
  case False
  then have "8 \<le> length data" by simp
  then obtain cas rc body where s: "data = cas @ body" "length cas = 4" "Uint32 body = Some rc"
    "parseRawBytes 4 (newPacketReader data) = Some (cas, rd cas body)"
    "parseInt (rd cas body) = Some (rc, rd (cas @ take 4 body) (drop 4 body))"
    by (rule split_response)
  have "raiseError (int (length data) - 8) (rd (cas @ take 4 body) (drop 4 body)) = None
      \<longleftrightarrow> length (drop 4 body) < 4"
    by (rule raiseError_panics) (use s(1,2) False in simp)
  moreover have "ParseSimpleResponse data = None \<longleftrightarrow> sint rc < 0
      \<and> raiseError (int (length data) - 8) (rd (cas @ take 4 body) (drop 4 body)) = None"
    by (cases "raiseError (int (length data) - 8) (rd (cas @ take 4 body) (drop 4 body))")
      (simp_all only: ParseSimpleResponse_def SizeCASInfo_def SizeInt_def s(4,5) Let_def bind.simps prod.case,
        simp_all)
  moreover have "length (drop 4 body) < 4 \<longleftrightarrow> length data < 12" "drop 4 data = body"
    using s(1,2) False by auto
  ultimately show ?thesis using False s(3) by (simp add: conj_commute)
qed

end
