(* ===== verification/Params.thy ===== *)
theory Params
  imports Responses
begin

text \<open>
  The bind-parameter encoding of \<^verbatim>\<open>protocol.go\<close> against the driver's own cell reader: what
  \<open>encodeBindParams\<close> writes is a row of typed cells, and reading it back gives, for every argument,
  the value the server sees.
\<close>

section \<open>Times on the wire\<close>

text \<open>A time travels as its calendar fields, so it loses what is finer than a millisecond.\<close>

definition trunc_ms :: "Time \<Rightarrow> Time" where
  "trunc_ms t = t\<lparr>unixNano := unixNano t - unixNano t mod 1000000\<rparr>"

definition year_ok :: "Time \<Rightarrow> bool" where
  "year_ok t \<longleftrightarrow> - (2 ^ 15) \<le> Year t \<and> Year t < 2 ^ 15"

lemma days_in_le: "1 \<le> m \<Longrightarrow> m \<le> 12 \<Longrightarrow> days_in leap m \<le> 31"
proof -
  assume "1 \<le> m" "m \<le> 12"
  then have "m = 1 \<or> m = 2 \<or> m = 3 \<or> m = 4 \<or> m = 5 \<or> m = 6 \<or> m = 7 \<or> m = 8 \<or> m = 9 \<or> m = 10
      \<or> m = 11 \<or> m = 12" by arith
  then show ?thesis by (cases leap) (auto simp: days_in_def cumulative_def days_before_def)
qed

lemma sint_field:
  "sint (word_of_int (Month t) :: int16) = Month t" "sint (word_of_int (Day t) :: int16) = Day t"
  "sint (word_of_int (Hour t) :: int16) = Hour t" "sint (word_of_int (Minute t) :: int16) = Minute t"
  "sint (word_of_int (Second t) :: int16) = Second t"
  "sint (word_of_int (Nanosecond t div 1000000) :: int16) = Nanosecond t div 1000000"
proof -
  have d: "1 \<le> Month t" "Month t \<le> 12" "1 \<le> Day t" "Day t \<le> days_in (is_leap (Year t)) (Month t)"
    using fields_valid(1) [of t] by (simp_all add: valid_date_def)
  note l = days_in_le [OF d(1,2), of "is_leap (Year t)"]
  have c: "0 \<le> Hour t" "Hour t < 24" "0 \<le> Minute t" "Minute t < 60" "0 \<le> Second t" "Second t < 60"
    using fields_valid(2) [of t] by (simp_all add: valid_clock_def)
  have n: "0 \<le> Nanosecond t div 1000000" "Nanosecond t div 1000000 < 1000"
    using fields_valid(3,4) [of t] by (simp_all add: pos_imp_zdiv_nonneg_iff)
  show "sint (word_of_int (Month t) :: int16) = Month t" "sint (word_of_int (Day t) :: int16) = Day t"
    "sint (word_of_int (Hour t) :: int16) = Hour t" "sint (word_of_int (Minute t) :: int16) = Minute t"
    "sint (word_of_int (Second t) :: int16) = Second t"
    "sint (word_of_int (Nanosecond t div 1000000) :: int16) = Nanosecond t div 1000000"
    by (rule sint_of_int16; use d l c n in simp)+
qed

lemma Date_trunc_ms:
  assumes "zoneOff t = 0"
  shows "Date (Year t) (Month t) (Day t) (Hour t) (Minute t) (Second t) (Nanosecond t div 1000000 * 1000000)
    = trunc_ms t"
proof -
  have "Nanosecond t mod 1000000 = unixNano t mod 1000000"
    using assms mod_mod_cancel [of 1000000 1000000000 "unixNano t"]
    by (simp add: Nanosecond_def localNano_def)
  moreover have "Nanosecond t div 1000000 * 1000000 = Nanosecond t - Nanosecond t mod 1000000"
    by (simp add: minus_mod_eq_div_mult)
  ultimately show ?thesis
    using assms by (simp add: Date_of_fields trunc_ms_def localNano_def)
qed

section \<open>Parameters are typed cells\<close>

text \<open>The cell of an argument, and the value read from it.\<close>

definition datetime_data :: "Time \<Rightarrow> cell_data" where
  "datetime_data t = DDatetime (word_of_int (Year t)) (word_of_int (Month t)) (word_of_int (Day t))
     (word_of_int (Hour t)) (word_of_int (Minute t)) (word_of_int (Second t))
     (word_of_int (Nanosecond t div 1000000))"

fun param_cell :: "Value \<Rightarrow> cell_msg" where
  "param_cell VNil = CNull"
| "param_cell (VBool b) = CData TypeShort (DShort (if b then 1 else 0))"
| "param_cell (VInt64 i) = CData TypeBigInt (DBig i)"
| "param_cell (VFloat64 d) = CData TypeDouble (DDouble d)"
| "param_cell (VString s) = CData TypeString (DString s)"
| "param_cell (VBytes b) = CData TypeVarBit (DBytes b)"
| "param_cell (VTime t) = CData TypeDatetime (datetime_data (UTC t))"
| "param_cell (VOther T text) = CData TypeString (DString text)"

fun received :: "Value \<Rightarrow> Value" where
  "received VNil = VNil"
| "received (VBool b) = VInt64 (if b then 1 else 0)"
| "received (VInt64 i) = VInt64 i"
| "received (VFloat64 d) = VFloat64 d"
| "received (VString s) = VString s"
| "received (VBytes b) = (if b = [] then VNil else VBytes b)"
| "received (VTime t) = VTime (trunc_ms (UTC t))"
| "received (VOther T text) = VString text"

fun param_ok :: "Value \<Rightarrow> bool" where
  "param_ok (VString s) \<longleftrightarrow> length s < 2 ^ 31 - 2"
| "param_ok (VOther T s) \<longleftrightarrow> length s < 2 ^ 31 - 2"
| "param_ok (VBytes b) \<longleftrightarrow> length b < 2 ^ 31 - 1"
| "param_ok (VTime t) \<longleftrightarrow> year_ok (UTC t)"
| "param_ok _ \<longleftrightarrow> True"

lemma encodeOneParam_img: "wbuf (encodeOneParam v w) = wbuf w @ cell_img True (param_cell v)"
  by (cases v) (simp_all add: writer_simps datetime_data_def Let_def add.commute)

lemma encodeParams_img: "wbuf (encodeParams_loop vs w) = wbuf w @ concat (map (cell_img True \<circ> param_cell) vs)"
  by (induction vs w rule: encodeParams_loop.induct) (simp_all add: encodeOneParam_img)

lemma encodeBindParams_img: "encodeBindParams vs = concat (map (cell_img True \<circ> param_cell) vs)"
  by (cases vs) (simp_all add: encodeBindParams_def toBytes_wbuf wbuf_new encodeParams_img del: encodeParams_loop.simps)

interpretation param: message "parseCell True col" "cell_img True \<circ> param_cell" received param_ok
proof
  fix col :: ColumnMetaData and v :: Value and pre rest
  assume ok: "param_ok v"
  have t: "cell_typed True col" by (simp add: cell_typed_def)
  show "parseCell True col (rd pre ((cell_img True \<circ> param_cell) v @ rest))
    = Some (received v, rd (pre @ (cell_img True \<circ> param_cell) v) rest)"
  proof (cases "v = VBytes []")
    case True
    then show ?thesis by (simp add: parseCell_def wire_simps)
  next
    case False
    have "cell_ok True col (param_cell v)"
      using ok False by (cases v) (auto simp: datetime_data_def be16_def be64_def)
    moreover have "cell_val (param_cell v) = received v"
      using ok False Date_trunc_ms [of "UTC t" for t]
      by (cases v) (auto simp: datetime_data_def sint_field year_ok_def UTC_def)
    ultimately show ?thesis
      using cell.read [where isCall = True and col = col and m = "param_cell v"] t by simp
  qed
qed

lemma parseCells_params:
  assumes "length cols = length vs" and "\<forall>v\<in>set vs. param_ok v"
  shows "parseCells True cols (rd pre (concat (map (cell_img True \<circ> param_cell) vs) @ rest))
    = Some (map received vs, rd (pre @ concat (map (cell_img True \<circ> param_cell) vs)) rest)"
  using assms
proof (induction cols vs arbitrary: pre rule: list_induct2)
  case (Cons col cols v vs)
  from Cons.prems have "param_ok v" by simp
  from param.read [OF this, of col pre] Cons show ?case by (simp add: append.assoc)
qed simp

section \<open>Properties\<close>

text \<open>C12: Bind parameters survive the wire.  The bytes of any list of arguments, read as typed cells by
  the driver's own reader, give each argument back: integers, floats and strings exactly, a boolean
  as 0 or 1, a time as the same UTC instant to the millisecond, an empty byte string as NULL, and
  nothing of what follows is consumed.\<close>

theorem bind_params_roundtrip:
  assumes "length cols = length vs" and "\<forall>v\<in>set vs. param_ok v"
  shows "parseCells True cols (rd pre (encodeBindParams vs @ rest))
    = Some (map received vs, rd (pre @ encodeBindParams vs) rest)"
  unfolding encodeBindParams_img by (rule parseCells_params [OF assms])

theorem bind_params_roundtrip_witness:
  "\<exists>r. parseCells True (replicate 4 sample_column)
      (rd [] (encodeBindParams [VInt64 (-5), VNil, VString ''o?'', VTime \<lparr>unixNano = 1234567, zoneOff = 3600\<rparr>]))
    = Some ([VInt64 (-5), VNil, VString ''o?'', VTime \<lparr>unixNano = 1000000, zoneOff = 0\<rparr>], r)"
proof -
  let ?t = "\<lparr>unixNano = 1234567, zoneOff = 3600\<rparr>"
  let ?vs = "[VInt64 (-5), VNil, VString ''o?'', VTime ?t]"
  have "year_of_days 0 = 1970" by code_simp
  then have "\<forall>v\<in>set ?vs. param_ok v"
    by (simp add: year_ok_def Year_def localDays_def localNano_def UTC_def)
  from bind_params_roundtrip [OF _ this, of "replicate 4 sample_column" "[]" "[]"]
  show ?thesis by (simp add: trunc_ms_def UTC_def)
qed

end
