(* ===== verification/Socket.thy ===== *)
theory Socket
  imports Errors
begin

text \<open>
  The sockets of \<^verbatim>\<open>net.Conn\<close> as the driver uses them, and \<^verbatim>\<open>io.ReadFull\<close>.  A socket carries the
  script of what the peer and the network will do: the pieces and errors its reads deliver, and the
  outcomes of its writes.  It records what was written, its deadline and whether it is open.  A
  deadline that passes, or is moved to now by a cancelled context, shows as an error in the script.
\<close>

datatype read_event = Chunk "byte list" | ReadFail go_error

datatype write_event = Accept | WriteFail nat go_error  \<comment> \<open>after that many bytes\<close>

record socket =
  inbox :: "read_event list"
  outcomes :: "write_event list"
  sent :: "byte list list"
  deadline :: "int option"   \<comment> \<open>None is the zero time: no deadline\<close>
  opened :: bool

definition errClosed :: go_error where
  "errClosed = NetError ''use of closed network connection''"

definition sock_write :: "byte list \<Rightarrow> socket \<Rightarrow> go_error option \<times> socket" where
  "sock_write data s =
     (if \<not> opened s then (Some errClosed, s)
      else case outcomes s of
        WriteFail k e # os \<Rightarrow> (Some e, s\<lparr>outcomes := os, sent := sent s @ [take k data]\<rparr>)
      | Accept # os \<Rightarrow> (None, s\<lparr>outcomes := os, sent := sent s @ [data]\<rparr>)
      | [] \<Rightarrow> (None, s\<lparr>sent := sent s @ [data]\<rparr>))"

text \<open>
  \<^verbatim>\<open>io.ReadFull(r, buf)\<close> with \<open>n\<close> bytes of \<^verbatim>\<open>buf\<close> left to fill and \<open>acc\<close> already read: it reads again
  until the buffer is full; an end of file after some bytes is \<open>io.ErrUnexpectedEOF\<close>.  An empty
  script is a peer that has closed the connection.
\<close>

definition short_read :: "byte list \<Rightarrow> go_error \<Rightarrow> go_error" where
  "short_read acc e = (if acc \<noteq> [] \<and> e = IoEOF then IoUnexpectedEOF else e)"

fun read_full :: "nat \<Rightarrow> byte list \<Rightarrow> read_event list \<Rightarrow> (go_error + byte list) \<times> read_event list" where
  "read_full 0 acc es = (Inr acc, es)"
| "read_full (Suc n) acc [] = (Inl (short_read acc IoEOF), [])"
| "read_full (Suc n) acc (ReadFail e # es) = (Inl (short_read acc e), es)"
| "read_full (Suc n) acc (Chunk b # es) =
     (if length b \<le> Suc n then read_full (Suc n - length b) (acc @ b) es
      else (Inr (acc @ take (Suc n) b), Chunk (drop (Suc n) b) # es))"

definition sock_read_full :: "nat \<Rightarrow> socket \<Rightarrow> (go_error + byte list) \<times> socket" where
  "sock_read_full n s =
     (if n = 0 then (Inr [], s)
      else if \<not> opened s then (Inl errClosed, s)
      else let (r, es) = read_full n [] (inbox s) in (r, s\<lparr>inbox := es\<rparr>))"

definition sock_set_deadline :: "int option \<Rightarrow> socket \<Rightarrow> go_error option \<times> socket" where
  "sock_set_deadline d s = (if opened s then (None, s\<lparr>deadline := d\<rparr>) else (Some errClosed, s))"

definition sock_close :: "socket \<Rightarrow> socket" where
  "sock_close s = s\<lparr>opened := False\<rparr>"

section \<open>Streams\<close>

text \<open>
  What a script delivers before its first error, however it is cut into pieces; the error; and what
  comes after it.
\<close>

fun stream :: "read_event list \<Rightarrow> byte list" where
  "stream (Chunk b # es) = b @ stream es"
| "stream _ = []"

fun failure :: "read_event list \<Rightarrow> go_error" where
  "failure (Chunk b # es) = failure es"
| "failure (ReadFail e # es) = e"
| "failure [] = IoEOF"

fun after_failure :: "read_event list \<Rightarrow> read_event list" where
  "after_failure (Chunk b # es) = after_failure es"
| "after_failure (ReadFail e # es) = es"
| "after_failure [] = []"

text \<open>\<open>io.ReadFull\<close> depends on the stream alone.\<close>

lemma read_full_ok:
  assumes "n \<le> length (stream es)"
  shows "\<exists>es'. read_full n acc es = (Inr (acc @ take n (stream es)), es')
    \<and> stream es' = drop n (stream es) \<and> failure es' = failure es \<and> after_failure es' = after_failure es"
  using assms
proof (induction n acc es rule: read_full.induct)
  case (4 n acc b es)
  then show ?case
    by (cases "length b \<le> Suc n") auto
qed auto

lemma read_full_short:
  assumes "length (stream es) < n"
  shows "read_full n acc es = (Inl (short_read (acc @ stream es) (failure es)), after_failure es)"
  using assms
  by (induction n acc es rule: read_full.induct) auto

lemma read_full_length: "read_full n acc es = (Inr r, es') \<Longrightarrow> length r = length acc + n"
  by (induction n acc es arbitrary: r rule: read_full.induct) (auto split: if_splits)

lemma sock_read_full_length: "sock_read_full n s = (Inr r, s') \<Longrightarrow> length r = n"
  by (auto simp: sock_read_full_def split: if_splits prod.splits dest: read_full_length)

text \<open>Reads and writes never open or close a socket.\<close>

lemma sock_opened [simp]:
  "opened (snd (sock_write d s)) = opened s" "opened (snd (sock_read_full n s)) = opened s"
  "opened (sock_close s) = False" "opened (snd (sock_set_deadline t s)) = opened s"
  by (auto simp: sock_write_def sock_read_full_def sock_close_def sock_set_deadline_def
      split: list.splits write_event.splits prod.splits)

end
