(* ===== verification/Conn.thy ===== *)
theory Conn
  imports Protocol SqlText Socket
begin

text \<open>
  \<^verbatim>\<open>conn.go\<close>: one connection to a CAS broker.  The connection is a record, and an operation maps it
  to its result and the new record, or to \<open>None\<close> when it panics.  A method of \<^verbatim>\<open>conn.go\<close>,
  \<^verbatim>\<open>stmt.go\<close> and \<^verbatim>\<open>tx.go\<close> holds the mutex from its first line to its return, so these never overlap and each
  is one step; the methods of \<^verbatim>\<open>rows.go\<close> take no mutex (see \<open>Rows\<close>).  The goroutine of \<open>watchContextCancel\<close> moves the
  socket's deadline to now when the context ends: while the operation runs, which then sees a failing
  read in its script and whose deferred reset takes the deadline away; or after that reset, which
  leaves the expired deadline on the socket.  The theory \<open>Watch\<close> has its interleavings step by step.
\<close>

record conn =
  cSocket :: "socket option"
  cHost :: string
  cPort :: int
  cDatabase :: string
  cUser :: string
  cPassword :: string
  cTimeout :: int
  casInfo :: "byte list"
  protoVer :: int
  autoCommit :: bool
  closed :: bool

type_synonym 'a op = "conn \<Rightarrow> ((go_error + 'a) \<times> conn) option"

text \<open>\<^verbatim>\<open>x, err := m(); if err != nil { return nil, err }; k(x)\<close>, and a parser's result as an operation.\<close>

definition bindM :: "'a op \<Rightarrow> ('a \<Rightarrow> 'b op) \<Rightarrow> 'b op" where
  "bindM m k c = (case m c of
       None \<Rightarrow> None
     | Some (Inl e, c') \<Rightarrow> Some (Inl e, c')
     | Some (Inr x, c') \<Rightarrow> k x c')"

definition returnM :: "'a \<Rightarrow> 'a op" where
  "returnM x c = Some (Inr x, c)"

definition failM :: "go_error \<Rightarrow> 'a op" where
  "failM e c = Some (Inl e, c)"

definition parsed :: "(go_error + 'a) option \<Rightarrow> 'a op" where
  "parsed p c = (case p of None \<Rightarrow> None | Some r \<Rightarrow> Some (r, c))"

section \<open>Low-level I/O\<close>

definition send :: "byte list \<Rightarrow> unit op" where
  "send data c = (case cSocket c of
       None \<Rightarrow> None
     | Some s \<Rightarrow> (let (err, s') = sock_write data s; c' = c\<lparr>cSocket := Some s'\<rparr> in
         case err of Some e \<Rightarrow> Some (Inl e, c') | None \<Rightarrow> Some (Inr (), c')))"

definition read_exact :: "nat \<Rightarrow> byte list op" where
  "read_exact n c = (case cSocket c of
       None \<Rightarrow> None
     | Some s \<Rightarrow> (let (r, s') = sock_read_full n s in Some (r, c\<lparr>cSocket := Some s'\<rparr>)))"

definition recv :: "byte list op" where
  "recv = bindM (read_exact SizeDataLength) (\<lambda>lenBuf c.
     case Uint32 lenBuf of
       None \<Rightarrow> None
     | Some v \<Rightarrow> (let dataLen = unat v; totalLen = dataLen + SizeCASInfo
         in read_exact totalLen c))"

definition sendAndRecv :: "byte list \<Rightarrow> byte list op" where
  "sendAndRecv data = bindM (send data) (\<lambda>_. recv)"

fun namedValuesToValues :: "NamedValue list \<Rightarrow> go_error + Value list" where
  "namedValuesToValues [] = Inr []"
| "namedValuesToValues (arg # args) =
     (if nvName arg \<noteq> []
      then Inl (FmtError (''cubrid: named parameters are not supported: '' @ nvName arg))
      else case namedValuesToValues args of
        Inl e \<Rightarrow> Inl e
      | Inr values \<Rightarrow> Inr (nvValue arg # values))"

text \<open>
  A context: what its \<^verbatim>\<open>Err()\<close> returns at the successive points where an operation asks (0 in
  \<open>applyContextDeadline\<close>, 1 after it, 2 after the execution) or would return (3 at the deferred reset,
  4 from the reset until the watcher ends); its deadline; and when the goroutine of
  \<open>watchContextCancel\<close>, if it takes the \<^verbatim>\<open>ctx.Done()\<close> branch of its select, sets the deadline, and to
  what time: before the deferred reset, or after it.
\<close>

datatype firing = FiresNever | FiresEarly int | FiresLate int

record ctx =
  ctxErr :: "nat \<Rightarrow> go_error option"
  ctxDeadline :: "int option"
  ctxFires :: firing

definition setDeadline :: "int option \<Rightarrow> conn \<Rightarrow> go_error option \<times> conn" where
  "setDeadline d c = (case cSocket c of
       None \<Rightarrow> (None, c)
     | Some s \<Rightarrow> (let (err, s') = sock_set_deadline d s in (err, c\<lparr>cSocket := Some s'\<rparr>)))"

definition applyContextDeadline :: "ctx \<Rightarrow> conn \<Rightarrow> go_error option \<times> conn" where
  "applyContextDeadline x c = (case ctxErr x 0 of
       Some e \<Rightarrow> (Some e, c)
     | None \<Rightarrow>
         (case cSocket c of
            None \<Rightarrow> (None, c)
          | Some s \<Rightarrow>
              (case ctxDeadline x of
                 None \<Rightarrow> (None, c)
               | Some d \<Rightarrow> setDeadline (Some d) c)))"

text \<open>The deferred \<^verbatim>\<open>c.socket.SetDeadline(time.Time{})\<close>, whose error is dropped.\<close>

definition resetDeadline :: "conn \<Rightarrow> conn" where
  "resetDeadline c = snd (setDeadline None c)"

definition with_reset :: "'a op \<Rightarrow> 'a op" where
  "with_reset m c = (case m c of None \<Rightarrow> None | Some (r, c') \<Rightarrow> Some (r, resetDeadline c'))"

text \<open>
  The goroutine's \<^verbatim>\<open>c.socket.SetDeadline(time.Now())\<close>, and an operation that runs between
  \<^verbatim>\<open>stopWatch := c.watchContextCancel(ctx)\<close> and the two deferred calls, the reset and then
  \<^verbatim>\<open>stopWatch()\<close>.  The goroutine fires only when the context has ended.  Reads and writes neither look
  at the deadline nor move it, so all moments before the reset are one.
\<close>

definition fireDeadline :: "int \<Rightarrow> conn \<Rightarrow> conn" where
  "fireDeadline now c = snd (setDeadline (Some now) c)"

definition with_watch :: "ctx \<Rightarrow> 'a op \<Rightarrow> 'a op" where
  "with_watch x m c = (case ctxFires x of
       FiresNever \<Rightarrow> with_reset m c
     | FiresEarly now \<Rightarrow> with_reset m (if ctxErr x 3 \<noteq> None then fireDeadline now c else c)
     | FiresLate now \<Rightarrow>
         (case with_reset m c of
            None \<Rightarrow> None
          | Some (r, c') \<Rightarrow> Some (r, if ctxErr x 4 \<noteq> None then fireDeadline now c' else c')))"

section \<open>Internal helpers\<close>

definition closeQueryHandle :: "int \<Rightarrow> conn \<Rightarrow> conn option" where
  "closeQueryHandle qh c =
     (let req = WriteCloseReqHandle qh (casInfo c) in
      case sendAndRecv req c of
        None \<Rightarrow> None
      | Some (Inl err, c') \<Rightarrow> Some c'
      | Some (Inr resp, c') \<Rightarrow>
          (case ParseSimpleResponse resp of None \<Rightarrow> None | Some _ \<Rightarrow> Some c'))"

definition execSQL :: "string \<Rightarrow> PrepareAndExecuteResult op" where
  "execSQL sql c =
     (let req = WritePrepareAndExecute sql (autoCommit c) (casInfo c)
      in bindM (sendAndRecv req) (\<lambda>resp c. parsed (ParsePrepareAndExecute resp (protoVer c)) c) c)"

text \<open>
  The digits of a string as an \<^verbatim>\<open>int64\<close> that wraps, up to the first other character.  The source
  ranges over runes; a byte of a longer rune is not a digit and stops the loop as the rune does.
\<close>

fun leading_digits :: "string \<Rightarrow> int64 \<Rightarrow> int64" where
  "leading_digits [] n = n"
| "leading_digits (ch # v) n =
     (if CHR ''0'' \<le> ch \<and> ch \<le> CHR ''9''
      then leading_digits v (n * 10 + word_of_nat (of_char ch - of_char CHR ''0'')) else n)"

fun value_to_id :: "Value \<Rightarrow> int64" where
  "value_to_id (VInt64 v) = v"
| "value_to_id (VString v) = leading_digits v 0"
| "value_to_id _ = 0"

definition first_value :: "Value list list \<Rightarrow> int64" where
  "first_value rs = (case rs of (v # _) # _ \<Rightarrow> value_to_id v | _ \<Rightarrow> 0)"

definition closeIfPositive :: "int \<Rightarrow> conn \<Rightarrow> conn option" where
  "closeIfPositive qh c = (if qh > 0 then closeQueryHandle qh c else Some c)"

definition fetchLastInsertID :: "conn \<Rightarrow> (int64 \<times> conn) option" where
  "fetchLastInsertID c = (case execSQL ''SELECT LAST_INSERT_ID()'' c of
       None \<Rightarrow> None
     | Some (Inl err, c') \<Rightarrow> Some (0, c')
     | Some (Inr res, c') \<Rightarrow>
         (let id = first_value (paeRows res) in
          case closeIfPositive (paeQueryHandle res) c' of None \<Rightarrow> None | Some c'' \<Rightarrow> Some (id, c'')))"

section \<open>What the operations hand out\<close>

text \<open>
  The structs of \<^verbatim>\<open>stmt.go\<close>, \<^verbatim>\<open>rows.go\<close> and \<^verbatim>\<open>tx.go\<close> point to their connection; here the connection
  is passed along with them, so a \<^verbatim>\<open>tx\<close>, which holds nothing else, is the unit value.
\<close>

record stmt =
  sQuery :: string
  sQueryHandle :: int
  sStmtType :: int
  sBindCount :: int
  sColumns :: "ColumnMetaData list"
  sClosed :: bool

record rows =
  rQueryHandle :: int
  rColumns :: "ColumnMetaData list"
  rStmtType :: int
  rTotalCount :: int
  rFetchedCount :: int
  rBufferedRows :: "Value list list"
  rBufferOffset :: nat
  rExhausted :: bool
  rFetchSize :: int
  rClosed :: bool
  rCloseHandle :: bool

record result =
  lastInsertID :: int64
  rowsAffected :: int64

definition defaultFetchSize :: int where "defaultFetchSize = 100"

definition affectedRows :: "ResultInfo list \<Rightarrow> int64" where
  "affectedRows infos = foldl (\<lambda>affected info. affected + word_of_int (riResultCount info)) 0 infos"

section \<open>driver.Conn\<close>

definition Prepare :: "string \<Rightarrow> stmt op" where
  "Prepare query c =
     (if closed c then Some (Inl ErrBadConn, c)
      else let req = WritePrepare query (autoCommit c) (casInfo c)
        in bindM (sendAndRecv req) (\<lambda>resp. bindM (parsed (ParsePrepare resp)) (\<lambda>res. returnM
             \<lparr>sQuery = query, sQueryHandle = prQueryHandle res, sStmtType = prStatementType res,
              sBindCount = prBindCount res, sColumns = prColumns res, sClosed = False\<rparr>)) c)"

definition Close :: "conn \<Rightarrow> conn" where
  "Close c =
     (if closed c then c
      else let c = c\<lparr>closed := True\<rparr> in
        case cSocket c of
          None \<Rightarrow> c
        | Some s \<Rightarrow>
            (let req = WriteConClose (casInfo c); (err, s') = sock_write req s
             in c\<lparr>cSocket := Some (sock_close s')\<rparr>))"

definition Begin :: "unit op" where
  "Begin c = (if closed c then Some (Inl ErrBadConn, c) else Some (Inr (), c\<lparr>autoCommit := False\<rparr>))"

definition BeginTx :: "ctx \<Rightarrow> unit op" where
  "BeginTx x c =
     (if closed c then Some (Inl ErrBadConn, c)
      else case applyContextDeadline x c of
        (Some err, c') \<Rightarrow> Some (Inl err, c')
      | (None, c') \<Rightarrow> with_reset (\<lambda>c. case ctxErr x 1 of
            Some err \<Rightarrow> Some (Inl err, c)
          | None \<Rightarrow> Some (Inr (), c\<lparr>autoCommit := False\<rparr>)) c')"

definition Ping :: "unit op" where
  "Ping c =
     (if closed c then Some (Inl ErrBadConn, c)
      else let req = WriteGetDbVersion True (casInfo c) in
        case sendAndRecv req c of
          None \<Rightarrow> None
        | Some (Inl err, c') \<Rightarrow> Some (Inl ErrBadConn, c')
        | Some (Inr resp, c') \<Rightarrow> bindM (parsed (ParseGetDbVersion resp)) (\<lambda>_. returnM ()) c')"

definition ServerVersion :: "string op" where
  "ServerVersion c =
     (let req = WriteGetDbVersion True (casInfo c)
      in bindM (sendAndRecv req) (\<lambda>resp. parsed (ParseGetDbVersion resp)) c)"

text \<open>
  The common body of \<open>QueryContext\<close> and \<open>ExecContext\<close>: the second look at the context, the
  arguments, the interpolation, the execution, and the third look, which also replaces the error of
  a failed execution.
\<close>

definition interpolated :: "string \<Rightarrow> Value list \<Rightarrow> string op" where
  "interpolated query values =
     (if length values > 0 then parsed (InterpolateArgs query values) else returnM query)"

definition checked :: "go_error option \<Rightarrow> 'a op \<Rightarrow> 'a op" where
  "checked ctxError m c = (case m c of
       None \<Rightarrow> None
     | Some (r, c') \<Rightarrow> (case ctxError of Some e \<Rightarrow> Some (Inl e, c') | None \<Rightarrow> Some (r, c')))"

definition runContext :: "ctx \<Rightarrow> string \<Rightarrow> NamedValue list \<Rightarrow> PrepareAndExecuteResult op" where
  "runContext x query args =
     (case ctxErr x 1 of
        Some err \<Rightarrow> failM err
      | None \<Rightarrow>
          (case namedValuesToValues args of
             Inl err \<Rightarrow> failM err
           | Inr values \<Rightarrow>
               bindM (interpolated query values) (\<lambda>sql. checked (ctxErr x 2) (execSQL sql))))"

definition newRows :: "PrepareAndExecuteResult \<Rightarrow> rows" where
  "newRows res =
     \<lparr>rQueryHandle = paeQueryHandle res, rColumns = paeColumns res, rStmtType = paeStatementType res,
      rTotalCount = paeTotalTupleCount res, rFetchedCount = int (length (paeRows res)),
      rBufferedRows = paeRows res, rBufferOffset = 0,
      rExhausted = (paeTupleCount res = 0 \<or> int (length (paeRows res)) \<ge> paeTotalTupleCount res),
      rFetchSize = defaultFetchSize, rClosed = False, rCloseHandle = (paeQueryHandle res > 0)\<rparr>"

definition QueryContext :: "ctx \<Rightarrow> string \<Rightarrow> NamedValue list \<Rightarrow> rows op" where
  "QueryContext x query args c =
     (if closed c then Some (Inl ErrBadConn, c)
      else case applyContextDeadline x c of
        (Some err, c') \<Rightarrow> Some (Inl err, c')
      | (None, c') \<Rightarrow>
          with_watch x (bindM (runContext x query args) (\<lambda>res. returnM (newRows res))) c')"

text \<open>What \<open>ExecContext\<close> does with a result: sum the affected rows, fetch the generated key of an
  INSERT, and release the handle.\<close>

definition execBody :: "PrepareAndExecuteResult \<Rightarrow> result op" where
  "execBody res c =
     (let affected = affectedRows (paeResultInfos res) in
      case (if paeStatementType res = StmtInsert then fetchLastInsertID c else Some (0, c)) of
        None \<Rightarrow> None
      | Some (lastID, c') \<Rightarrow>
          (case closeIfPositive (paeQueryHandle res) c' of
             None \<Rightarrow> None
           | Some c'' \<Rightarrow> Some (Inr \<lparr>lastInsertID = lastID, rowsAffected = affected\<rparr>, c'')))"

definition ExecContext :: "ctx \<Rightarrow> string \<Rightarrow> NamedValue list \<Rightarrow> result op" where
  "ExecContext x query args c =
     (if closed c then Some (Inl ErrBadConn, c)
      else case applyContextDeadline x c of
        (Some err, c') \<Rightarrow> Some (Inl err, c')
      | (None, c') \<Rightarrow> with_watch x (bindM (runContext x query args) execBody) c')"

section \<open>Transactions (tx.go)\<close>

definition endTran :: "byte \<Rightarrow> unit op" where
  "endTran txType c =
     (let req = WriteEndTran txType (casInfo c)
      in bindM (sendAndRecv req) (\<lambda>resp. bindM (parsed (ParseSimpleResponse resp))
           (\<lambda>_ c. Some (Inr (), c\<lparr>autoCommit := True\<rparr>))) c)"

definition Commit :: "unit op" where "Commit = endTran TxCommit"

definition Rollback :: "unit op" where "Rollback = endTran TxRollback"

end
