(* ===== verification/Rows.thy ===== *)
theory Rows
  imports Conn
begin

text \<open>
  \<^verbatim>\<open>rows.go\<close>: iteration over a result set.  The methods change the cursor and the connection it
  points to, so they map both.  \<^verbatim>\<open>rows.Close\<close> and \<^verbatim>\<open>rows.Next\<close> take no mutex, unlike the methods of
  \<^verbatim>\<open>conn.go\<close>, \<^verbatim>\<open>stmt.go\<close> and \<^verbatim>\<open>tx.go\<close>.  The definitions below are one whole call; that no other operation
  of the connection runs between the write and the read of a FETCH or CLOSE rests on the caller, and
  \<^verbatim>\<open>database/sql\<close> calls every method of a driver connection, its rows included, under the lock of that
  connection.  The sessions of the theory \<open>Session\<close> also have the single writes and reads of an unlocked
  cursor as events of their own.
\<close>

definition Columns :: "rows \<Rightarrow> string list" where
  "Columns r = map ColName (rColumns r)"

definition rows_Close :: "rows \<Rightarrow> conn \<Rightarrow> (rows \<times> conn) option" where
  "rows_Close r c =
     (if rClosed r then Some (r, c)
      else let r = r\<lparr>rClosed := True\<rparr> in
        if rCloseHandle r \<and> rQueryHandle r > 0
        then (case closeQueryHandle (rQueryHandle r) c of
                None \<Rightarrow> None | Some c' \<Rightarrow> Some (r\<lparr>rQueryHandle := 0\<rparr>, c'))
        else Some (r, c))"

text \<open>The loop of \<open>fillDest\<close>: it stops at the end of the row or of \<open>dest\<close>; each case of the type switch
  stores the value as it is.\<close>

fun fill :: "Value list \<Rightarrow> Value list \<Rightarrow> Value list" where
  "fill dest [] = dest"
| "fill [] (v # row) = []"
| "fill (d # dest) (v # row) = v # fill dest row"

definition fillDest :: "Value list \<Rightarrow> Value list \<Rightarrow> rows \<Rightarrow> Value list \<times> rows" where
  "fillDest dest row r = (let r = r\<lparr>rBufferOffset := rBufferOffset r + 1\<rparr> in (fill dest row, r))"

text \<open>\<open>Next\<close> returns the error, the destination and the new cursor and connection.\<close>

definition Next :: "Value list \<Rightarrow> rows \<Rightarrow> conn \<Rightarrow> ((go_error option \<times> Value list) \<times> rows \<times> conn) option" where
  "Next dest r c =
     (if rClosed r then Some ((Some IoEOF, dest), r, c)
      else if rBufferOffset r < length (rBufferedRows r)
        then let (dest', r') = fillDest dest (rBufferedRows r ! rBufferOffset r) r
             in Some ((None, dest'), r', c)
      else if rExhausted r then Some ((Some IoEOF, dest), r, c)
      else let fetchReq = WriteFetch (rQueryHandle r) (rFetchedCount r) (rFetchSize r) (casInfo c) in
        case bindM (sendAndRecv fetchReq) (\<lambda>resp. parsed (ParseFetch resp (rColumns r) (rStmtType r))) c of
          None \<Rightarrow> None
        | Some (Inl err, c') \<Rightarrow> Some ((Some err, dest), r, c')
        | Some (Inr res, c') \<Rightarrow>
            if frTupleCount res = 0 then Some ((Some IoEOF, dest), r\<lparr>rExhausted := True\<rparr>, c')
            else
              let r = r\<lparr>rBufferedRows := frRows res\<rparr>;
                  r = r\<lparr>rBufferOffset := 0\<rparr>;
                  r = r\<lparr>rFetchedCount := rFetchedCount r + frTupleCount res\<rparr>;
                  r = (if rFetchedCount r \<ge> rTotalCount r then r\<lparr>rExhausted := True\<rparr> else r)
              in do {
                row \<leftarrow> index (rBufferedRows r) (int (rBufferOffset r));
                let (dest', r') = fillDest dest row r;
                Some ((None, dest'), r', c')
              })"

definition typeName :: "int \<Rightarrow> string" where
  "typeName t =
     (if t = TypeChar then ''CHAR'' else if t = TypeString then ''VARCHAR''
      else if t = TypeNChar then ''NCHAR'' else if t = TypeVarNChar then ''NVARCHAR''
      else if t = TypeShort then ''SMALLINT'' else if t = TypeInt then ''INTEGER''
      else if t = TypeBigInt then ''BIGINT'' else if t = TypeFloat then ''FLOAT''
      else if t = TypeDouble then ''DOUBLE'' else if t = TypeMonetary then ''MONETARY''
      else if t = TypeNumeric then ''NUMERIC'' else if t = TypeDate then ''DATE''
      else if t = TypeTime then ''TIME'' else if t = TypeTimestamp then ''TIMESTAMP''
      else if t = TypeDatetime then ''DATETIME'' else if t = TypeBit then ''BIT''
      else if t = TypeVarBit then ''BIT VARYING'' else if t = TypeBlob then ''BLOB''
      else if t = TypeClob then ''CLOB'' else if t = TypeEnum then ''ENUM''
      else if t = TypeNull then ''NULL'' else ''UNKNOWN'')"

definition ColumnTypeDatabaseTypeName :: "int \<Rightarrow> rows \<Rightarrow> string" where
  "ColumnTypeDatabaseTypeName i r =
     (if i < 0 \<or> i \<ge> int (length (rColumns r)) then ''''
      else typeName (ColumnType (rColumns r ! nat i)))"

end
