(* ===== verification/Wire.thy ===== *)
theory Wire
  imports Conn Responses
begin

text \<open>
  The connection's low-level I/O against the byte stream.  First what every operation built from
  reads and writes keeps, whatever the network does, as the locale \<open>io_relation\<close> with three
  interpretations.  Then what a request and its response do when the network delivers the response.
\<close>

section \<open>Relations that reads and writes keep\<close>

definition keeps :: "(conn \<Rightarrow> conn \<Rightarrow> bool) \<Rightarrow> 'a op \<Rightarrow> bool" where
  "keeps R m \<longleftrightarrow> (\<forall>c r c'. m c = Some (r, c') \<longrightarrow> R c c')"

lemma keepsD: "keeps R m \<Longrightarrow> m c = Some (r, c') \<Longrightarrow> R c c'"
  by (simp add: keeps_def)

locale io_relation =
  fixes R :: "conn \<Rightarrow> conn \<Rightarrow> bool"
  assumes R_refl: "R c c"
    and R_trans: "R a b \<Longrightarrow> R b c \<Longrightarrow> R a c"
    and R_write: "cSocket c = Some s \<Longrightarrow> R c (c\<lparr>cSocket := Some (snd (sock_write d s))\<rparr>)"
    and R_read: "cSocket c = Some s \<Longrightarrow> R c (c\<lparr>cSocket := Some (snd (sock_read_full n s))\<rparr>)"
begin

lemma keeps_return: "keeps R (returnM x)" "keeps R (failM e)" "keeps R (parsed p)"
  by (auto simp: keeps_def returnM_def failM_def parsed_def R_refl split: option.splits)

lemma keeps_bind: "keeps R m \<Longrightarrow> (\<And>x. keeps R (k x)) \<Longrightarrow> keeps R (bindM m k)"
  unfolding keeps_def bindM_def
  by (auto split: option.splits sum.splits intro: R_refl) (metis R_trans)+

lemma keeps_send: "keeps R (send d)"
  unfolding keeps_def
proof (intro allI impI)
  fix c r c' assume "send d c = Some (r, c')"
  then obtain s where "cSocket c = Some s" "c' = c\<lparr>cSocket := Some (snd (sock_write d s))\<rparr>"
    by (auto simp: send_def Let_def split: option.splits prod.splits)
  then show "R c c'" by (simp add: R_write)
qed

lemma keeps_read: "keeps R (read_exact n)"
  unfolding keeps_def
proof (intro allI impI)
  fix c r c' assume "read_exact n c = Some (r, c')"
  then obtain s where "cSocket c = Some s" "c' = c\<lparr>cSocket := Some (snd (sock_read_full n s))\<rparr>"
    by (auto simp: read_exact_def Let_def split: option.splits prod.splits)
  then show "R c c'" by (simp add: R_read)
qed

lemma keeps_recv: "keeps R recv"
  unfolding recv_def
proof (rule keeps_bind [OF keeps_read])
  fix b
  show "keeps R (\<lambda>c. case Uint32 b of None \<Rightarrow> None
      | Some v \<Rightarrow> let dataLen = unat v; totalLen = dataLen + SizeCASInfo in read_exact totalLen c)"
    using keeps_read by (cases "Uint32 b") (simp_all add: keeps_def Let_def)
qed

lemma keeps_sendAndRecv: "keeps R (sendAndRecv d)"
  unfolding sendAndRecv_def by (intro keeps_bind keeps_send keeps_recv)

lemma keeps_closeQueryHandle: "closeQueryHandle qh c = Some c' \<Longrightarrow> R c c'"
  using keepsD [OF keeps_sendAndRecv]
  by (auto simp: closeQueryHandle_def Let_def split: option.splits sum.splits prod.splits)

lemma keeps_closeIfPositive: "closeIfPositive qh c = Some c' \<Longrightarrow> R c c'"
  using keeps_closeQueryHandle R_refl by (auto simp: closeIfPositive_def split: if_splits)

lemma keeps_parsed_at: "keeps R (\<lambda>c. parsed (p c) c)"
  by (auto simp: keeps_def parsed_def R_refl split: option.splits)

lemma keeps_execSQL: "keeps R (execSQL sql)"
proof -
  have "keeps R (bindM (sendAndRecv req) (\<lambda>resp c. parsed (ParsePrepareAndExecute resp (protoVer c)) c))" for req
    by (intro keeps_bind keeps_sendAndRecv keeps_parsed_at)
  then show ?thesis unfolding execSQL_def keeps_def Let_def by blast
qed

lemma keeps_fetchLastInsertID:
  assumes "fetchLastInsertID c = Some (i, c')"
  shows "R c c'"
proof (cases "execSQL ''SELECT LAST_INSERT_ID()'' c")
  case None
  with assms show ?thesis by (simp add: fetchLastInsertID_def)
next
  case (Some rc)
  then obtain r c1 where r: "execSQL ''SELECT LAST_INSERT_ID()'' c = Some (r, c1)" by (cases rc) auto
  note 1 = keepsD [OF keeps_execSQL r]
  show ?thesis
  proof (cases r)
    case (Inl e)
    with assms r 1 show ?thesis by (simp add: fetchLastInsertID_def)
  next
    case (Inr res)
    with assms r have "closeIfPositive (paeQueryHandle res) c1 = Some c'"
      by (auto simp: fetchLastInsertID_def Let_def split: option.splits)
    from R_trans [OF 1 keeps_closeIfPositive [OF this]] show ?thesis .
  qed
qed

end

text \<open>Nothing but the socket changes.\<close>

definition settings :: "conn \<Rightarrow> conn" where "settings c = c\<lparr>cSocket := None\<rparr>"

interpretation settings: io_relation "\<lambda>c c'. settings c' = settings c"
  by unfold_locales (simp_all add: settings_def)

text \<open>The bytes already written stay written, and the deadline and the open flag stay.\<close>

definition sent_log :: "conn \<Rightarrow> byte list list" where
  "sent_log c = (case cSocket c of None \<Rightarrow> [] | Some s \<Rightarrow> sent s)"

definition deadline_of :: "conn \<Rightarrow> int option" where
  "deadline_of c = (case cSocket c of None \<Rightarrow> None | Some s \<Rightarrow> deadline s)"

definition is_open :: "conn \<Rightarrow> bool" where
  "is_open c = (case cSocket c of None \<Rightarrow> False | Some s \<Rightarrow> opened s)"

definition grows :: "conn \<Rightarrow> conn \<Rightarrow> bool" where
  "grows c c' \<longleftrightarrow> prefix (sent_log c) (sent_log c') \<and> deadline_of c' = deadline_of c
     \<and> is_open c' = is_open c \<and> (cSocket c' = None \<longleftrightarrow> cSocket c = None)"

interpretation log: io_relation grows
  by unfold_locales
    (auto simp: grows_def sent_log_def deadline_of_def is_open_def sock_read_full_def sock_write_def
      split: prod.splits option.splits write_event.splits list.splits intro: prefix_order.trans)

text \<open>A closed socket does no I/O at all: every operation leaves it as it is.\<close>

definition inert :: "conn \<Rightarrow> conn \<Rightarrow> bool" where
  "inert c c' \<longleftrightarrow> cSocket c \<noteq> None \<and> \<not> is_open c \<longrightarrow> c' = c"

interpretation inert: io_relation inert
  by unfold_locales (auto simp: inert_def is_open_def sock_read_full_def sock_write_def)

section \<open>Requests that are answered\<close>

text \<open>
  A live connection has an open socket whose writes succeed; \<open>incoming\<close> is what its peer delivers
  before the next failure.  \<open>exchanged\<close> says what a conversation left behind: the requests
  appended to the log, the rest of the input, and everything else as it was.
\<close>

definition live :: "conn \<Rightarrow> bool" where
  "live c = (case cSocket c of None \<Rightarrow> False | Some s \<Rightarrow> opened s \<and> outcomes s = [])"

definition incoming :: "conn \<Rightarrow> byte list" where
  "incoming c = (case cSocket c of None \<Rightarrow> [] | Some s \<Rightarrow> stream (inbox s))"

definition net_failure :: "conn \<Rightarrow> go_error" where
  "net_failure c = (case cSocket c of None \<Rightarrow> IoEOF | Some s \<Rightarrow> failure (inbox s))"

definition later :: "conn \<Rightarrow> byte list" where
  "later c = (case cSocket c of None \<Rightarrow> [] | Some s \<Rightarrow> stream (after_failure (inbox s)))"

definition exchanged :: "conn \<Rightarrow> byte list list \<Rightarrow> byte list \<Rightarrow> conn \<Rightarrow> bool" where
  "exchanged c reqs rest c' \<longleftrightarrow> live c' \<and> incoming c' = rest \<and> settings c' = settings c
     \<and> sent_log c' = sent_log c @ reqs \<and> deadline_of c' = deadline_of c"

definition response :: "byte list \<Rightarrow> byte list" where
  "response data = be32 (word_of_int (int (length data) - 4)) @ data"

definition framed_ok :: "byte list \<Rightarrow> bool" where
  "framed_ok data \<longleftrightarrow> 4 \<le> length data \<and> length data < 2 ^ 32"

lemma settings_eqD:
  "settings c' = settings c \<Longrightarrow> casInfo c' = casInfo c \<and> protoVer c' = protoVer c
     \<and> autoCommit c' = autoCommit c \<and> closed c' = closed c"
  by (cases c; cases c') (simp add: settings_def)

lemma exchangedD:
  assumes "exchanged c reqs rest c'"
  shows "live c'" "incoming c' = rest" "casInfo c' = casInfo c" "protoVer c' = protoVer c"
    "autoCommit c' = autoCommit c" "closed c' = closed c" "sent_log c' = sent_log c @ reqs"
    "deadline_of c' = deadline_of c" "settings c' = settings c"
  using assms settings_eqD [of c' c] by (simp_all add: exchanged_def)

lemma exchanged_trans:
  "exchanged c reqs i c1 \<Longrightarrow> exchanged c1 reqs' j c2 \<Longrightarrow> exchanged c (reqs @ reqs') j c2"
  by (simp add: exchanged_def)

lemma exchanged_refl: "live c \<Longrightarrow> exchanged c [] (incoming c) c"
  by (simp add: exchanged_def)

text \<open>A read of bytes that are coming returns them; a read of more fails with the network's error.\<close>

lemma read_exact_ok:
  assumes "live c" and "incoming c = bs @ rest" and "n = length bs"
  shows "\<exists>c'. read_exact n c = Some (Inr bs, c') \<and> exchanged c [] rest c' \<and> net_failure c' = net_failure c
    \<and> later c' = later c"
proof -
  obtain s where s: "cSocket c = Some s" "opened s" "outcomes s = []" "stream (inbox s) = bs @ rest"
    using assms(1,2) by (auto simp: live_def incoming_def split: option.splits)
  show ?thesis
  proof (cases "n = 0")
    case True
    with assms s show ?thesis
      by (auto simp: read_exact_def sock_read_full_def exchanged_def live_def incoming_def settings_def
          sent_log_def deadline_of_def net_failure_def later_def)
  next
    case False
    obtain es' where "read_full n [] (inbox s) = (Inr bs, es')" "stream es' = rest"
        "failure es' = failure (inbox s)" "after_failure es' = after_failure (inbox s)"
      using read_full_ok [of n "inbox s" "[]"] s(4) assms(3) by auto
    with False s show ?thesis
      by (auto simp: read_exact_def sock_read_full_def exchanged_def live_def incoming_def settings_def
          sent_log_def deadline_of_def net_failure_def later_def)
  qed
qed

lemma read_exact_short:
  assumes "live c" and "length (incoming c) < n"
  shows "\<exists>c'. read_exact n c = Some (Inl (short_read (incoming c) (net_failure c)), c')
    \<and> exchanged c [] (later c) c'"
proof -
  obtain s where s: "cSocket c = Some s" "opened s" "outcomes s = []" "length (stream (inbox s)) < n"
    using assms by (auto simp: live_def incoming_def split: option.splits)
  with read_full_short [OF s(4), of "[]"] show ?thesis
    by (auto simp: read_exact_def sock_read_full_def incoming_def net_failure_def exchanged_def live_def
        settings_def sent_log_def deadline_of_def later_def)
qed

lemma send_ok:
  assumes "live c"
  shows "\<exists>c'. send d c = Some (Inr (), c') \<and> exchanged c [d] (incoming c) c' \<and> net_failure c' = net_failure c
    \<and> later c' = later c"
proof -
  obtain s where s: "cSocket c = Some s" "opened s" "outcomes s = []"
    using assms by (auto simp: live_def split: option.splits)
  let ?c = "c\<lparr>cSocket := Some (s\<lparr>sent := sent s @ [d]\<rparr>)\<rparr>"
  have "send d c = Some (Inr (), ?c)" "exchanged c [d] (incoming c) ?c" "net_failure ?c = net_failure c"
      "later ?c = later c"
    using s by (simp_all add: live_def send_def sock_write_def exchanged_def incoming_def settings_def
      sent_log_def deadline_of_def net_failure_def later_def)
  then show ?thesis by blast
qed

lemma unat_len: "framed_ok data \<Longrightarrow> unat (word_of_int (int (length data) - 4) :: int32) + 4 = length data"
proof -
  assume ok: "framed_ok data"
  then have "(word_of_int (int (length data) - 4) :: int32) = word_of_nat (length data - 4)"
    by (simp add: framed_ok_def of_nat_diff)
  moreover have "length data - 4 < 2 ^ 32"
    using ok by (simp add: framed_ok_def less_imp_diff_less)
  then have "unat (word_of_nat (length data - 4) :: int32) = length data - 4"
    by (simp add: unat_of_nat take_bit_nat_eq_self del: of_nat_diff)
  ultimately show ?thesis using ok by (simp add: framed_ok_def)
qed

lemma recv_ok:
  assumes "live c" and "incoming c = response data @ rest" and "framed_ok data"
  shows "\<exists>c'. recv c = Some (Inr data, c') \<and> exchanged c [] rest c' \<and> net_failure c' = net_failure c"
proof -
  let ?l = "be32 (word_of_int (int (length data) - 4))"
  have i: "incoming c = ?l @ (data @ rest)" using assms(2) by (simp add: response_def)
  obtain c1 where 1: "read_exact 4 c = Some (Inr ?l, c1)" "exchanged c [] (data @ rest) c1"
      "net_failure c1 = net_failure c"
    using read_exact_ok [OF assms(1) i, of 4] by auto
  obtain c2 where 2: "read_exact (length data) c1 = Some (Inr data, c2)" "exchanged c1 [] rest c2"
      "net_failure c2 = net_failure c1"
    using read_exact_ok [OF exchangedD(1,2) [OF 1(2)] refl] by blast
  have u: "Uint32 ?l = Some (word_of_int (int (length data) - 4))"
    using Uint32_be32 [of _ "[]"] by simp
  have "recv c = Some (Inr data, c2)"
    using 1(1) 2(1) by (simp add: recv_def bindM_def u Let_def unat_len [OF assms(3)] del: of_int_diff)
  then show ?thesis using exchanged_trans [OF 1(2) 2(2)] 1(3) 2(3) by auto
qed

lemma sendAndRecv_ok:
  assumes "live c" and "incoming c = response data @ rest" and "framed_ok data"
  shows "\<exists>c'. sendAndRecv req c = Some (Inr data, c') \<and> exchanged c [req] rest c' \<and> net_failure c' = net_failure c"
proof -
  obtain c1 where 1: "send req c = Some (Inr (), c1)" "exchanged c [req] (incoming c) c1"
      "net_failure c1 = net_failure c"
    using send_ok [OF assms(1)] by blast
  obtain c2 where 2: "recv c1 = Some (Inr data, c2)" "exchanged c1 [] rest c2" "net_failure c2 = net_failure c1"
    using recv_ok [OF exchangedD(1) [OF 1(2)] _ assms(3)] exchangedD(2) [OF 1(2)] assms(2) by metis
  show ?thesis
    using 1 2(1,3) exchanged_trans [OF 1(2) 2(2)] by (simp add: sendAndRecv_def bindM_def)
qed

lemma sendAndRecv_short:
  assumes "live c" and "length (incoming c) < 4"
  shows "\<exists>c'. sendAndRecv req c = Some (Inl (short_read (incoming c) (net_failure c)), c')
    \<and> exchanged c [req] (later c) c'"
proof -
  obtain c1 where 1: "send req c = Some (Inr (), c1)" "exchanged c [req] (incoming c) c1"
      "net_failure c1 = net_failure c" "later c1 = later c"
    using send_ok [OF assms(1)] by blast
  note e1 = exchangedD [OF 1(2)]
  obtain c2 where 2: "read_exact 4 c1 = Some (Inl (short_read (incoming c) (net_failure c)), c2)"
      "exchanged c1 [] (later c) c2"
    using read_exact_short [OF e1(1), of 4] assms(2) e1(2) 1(3,4) by auto
  show ?thesis
    using 1(1) 2(1) exchanged_trans [OF 1(2) 2(2)] by (simp add: sendAndRecv_def recv_def bindM_def)
qed

text \<open>
  The framing as a function of the stream: the length, then that many bytes and the four of the
  token.  \<open>recv\<close> returns the first frame, or fails when it is cut short.
\<close>

definition frame_length :: "byte list \<Rightarrow> nat" where
  "frame_length bs = unat (the (Uint32 bs)) + SizeCASInfo"

definition first_frame :: "byte list \<Rightarrow> (byte list \<times> byte list) option" where
  "first_frame bs =
     (if length bs < 4 \<or> length bs < 4 + frame_length bs then None
      else Some (take (frame_length bs) (drop 4 bs), drop (frame_length bs) (drop 4 bs)))"

lemma recv_frame:
  assumes "live c"
  shows "case first_frame (incoming c) of
      Some (data, rest) \<Rightarrow> \<exists>c'. recv c = Some (Inr data, c') \<and> exchanged c [] rest c'
    | None \<Rightarrow> \<exists>c'. recv c = Some (Inl (short_read
          (if length (incoming c) < 4 then incoming c else drop 4 (incoming c)) (net_failure c)), c')
        \<and> exchanged c [] (later c) c'"
proof (cases "length (incoming c) < 4")
  case True
  from read_exact_short [OF assms, of 4] True obtain c' where
    "read_exact 4 c = Some (Inl (short_read (incoming c) (net_failure c)), c')" "exchanged c [] (later c) c'" by auto
  with True show ?thesis by (simp add: first_frame_def recv_def bindM_def)
next
  case False
  let ?bs = "incoming c" and ?n = "frame_length (incoming c)"
  obtain v where v: "Uint32 (take 4 ?bs) = Some v" "Uint32 ?bs = Some v"
    using False Uint32_None_iff [of ?bs] by (cases "Uint32 ?bs") auto
  have n: "?n = unat v + 4" by (simp add: frame_length_def v)
  obtain c1 where 1: "read_exact 4 c = Some (Inr (take 4 ?bs), c1)" "exchanged c [] (drop 4 ?bs) c1"
      "net_failure c1 = net_failure c" "later c1 = later c"
    using read_exact_ok [OF assms, of "take 4 ?bs" "drop 4 ?bs" 4] False by auto
  note e1 = exchangedD [OF 1(2)]
  have run: "recv c = read_exact ?n c1"
    using 1(1) by (simp add: recv_def bindM_def v n Let_def)
  show ?thesis
  proof (cases "length ?bs < 4 + ?n")
    case True
    have "length (incoming c1) = length ?bs - 4" using e1(2) by simp
    with True False have "length (incoming c1) < ?n" by linarith
    from read_exact_short [OF e1(1) this] obtain c2 where
      "read_exact ?n c1 = Some (Inl (short_read (drop 4 ?bs) (net_failure c)), c2)" "exchanged c1 [] (later c) c2"
      unfolding e1(2) 1(3,4) by blast
    with run exchanged_trans [OF 1(2)] True False show ?thesis by (auto simp: first_frame_def)
  next
    case enough: False
    have s: "incoming c1 = take ?n (drop 4 ?bs) @ drop ?n (drop 4 ?bs)"
      unfolding e1(2) by (rule append_take_drop_id [symmetric])
    have l: "?n = length (take ?n (drop 4 ?bs))" using enough by simp
    obtain c2 where "read_exact ?n c1 = Some (Inr (take ?n (drop 4 ?bs)), c2)"
        "exchanged c1 [] (drop ?n (drop 4 ?bs)) c2"
      using read_exact_ok [OF e1(1) s l] by auto
    with run exchanged_trans [OF 1(2)] enough False show ?thesis by (auto simp: first_frame_def)
  qed
qed

section \<open>The internal helpers when the server answers\<close>

lemma bindM_simps:
  "m c = None \<Longrightarrow> bindM m k c = None"
  "m c = Some (Inl e, c') \<Longrightarrow> bindM m k c = Some (Inl e, c')"
  "m c = Some (Inr x, c') \<Longrightarrow> bindM m k c = k x c'"
  by (simp_all add: bindM_def)

definition acknowledges :: "byte list \<Rightarrow> bool" where
  "acknowledges data \<longleftrightarrow> framed_ok data \<and> ParseSimpleResponse data \<noteq> None"

lemma closeQueryHandle_ok:
  assumes "live c" and "incoming c = response data @ rest" and "acknowledges data"
  shows "\<exists>c'. closeQueryHandle qh c = Some c' \<and> exchanged c [WriteCloseReqHandle qh (casInfo c)] rest c'"
proof -
  have "framed_ok data" using assms(3) by (simp add: acknowledges_def)
  from sendAndRecv_ok [OF assms(1,2) this] obtain c' where
    "sendAndRecv (WriteCloseReqHandle qh (casInfo c)) c = Some (Inr data, c')"
    "exchanged c [WriteCloseReqHandle qh (casInfo c)] rest c'" by blast
  then show ?thesis
    using assms(3) by (auto simp: closeQueryHandle_def acknowledges_def)
qed

lemma execSQL_answer:
  assumes "live c" and "incoming c = response data @ rest" and "framed_ok data"
    and "ParsePrepareAndExecute data (protoVer c) = Some r"
  shows "\<exists>c'. execSQL sql c = Some (r, c')
    \<and> exchanged c [WritePrepareAndExecute sql (autoCommit c) (casInfo c)] rest c'"
proof -
  let ?req = "WritePrepareAndExecute sql (autoCommit c) (casInfo c)"
  from sendAndRecv_ok [OF assms(1-3)] obtain c' where
    c': "sendAndRecv ?req c = Some (Inr data, c')" "exchanged c [?req] rest c'" by blast
  then show ?thesis
    using assms(4) exchangedD(4) [OF c'(2)] by (simp add: execSQL_def bindM_simps parsed_def)
qed

text \<open>The server's answer to a query, framed.\<close>

definition query_answer :: "int \<Rightarrow> prepare_msg \<Rightarrow> execute_msg \<Rightarrow> byte list" where
  "query_answer pv p e = response (pae_img pv p e)"

definition answer_ok :: "int \<Rightarrow> prepare_msg \<Rightarrow> execute_msg \<Rightarrow> bool" where
  "answer_ok pv p e \<longleftrightarrow> prepare_ok p \<and> execute_ok (uint (pmStmt p)) (map fst (pmColumns p)) e
     \<and> framed_ok (pae_img pv p e)"

lemma execSQL_ok:
  assumes "live c" and "incoming c = query_answer (protoVer c) p e @ rest" and "answer_ok (protoVer c) p e"
  shows "\<exists>c'. execSQL sql c = Some (Inr (pae_result p e), c')
    \<and> exchanged c [WritePrepareAndExecute sql (autoCommit c) (casInfo c)] rest c'"
  by (rule execSQL_answer [where data = "pae_img (protoVer c) p e"])
     (use assms in \<open>simp_all add: query_answer_def answer_ok_def ParsePrepareAndExecute_img\<close>)

text \<open>The acknowledgements a list of handles waits for, and the requests that close them.\<close>

definition close_requests :: "byte list \<Rightarrow> int \<Rightarrow> byte list list" where
  "close_requests cas qh = (if qh > 0 then [WriteCloseReqHandle qh cas] else [])"

definition close_answers :: "int \<Rightarrow> byte list \<Rightarrow> byte list" where
  "close_answers qh ack = (if qh > 0 then response ack else [])"

lemma closeIfPositive_ok:
  assumes "live c" and "incoming c = close_answers qh ack @ rest" and "acknowledges ack"
  shows "\<exists>c'. closeIfPositive qh c = Some c' \<and> exchanged c (close_requests (casInfo c) qh) rest c'"
proof (cases "qh > 0")
  case True
  with assms closeQueryHandle_ok [OF assms(1) _ assms(3)] show ?thesis
    by (simp add: closeIfPositive_def close_requests_def close_answers_def)
next
  case False
  with assms exchanged_refl [OF assms(1)] show ?thesis
    by (simp add: closeIfPositive_def close_requests_def close_answers_def)
qed

lemma fetchLastInsertID_ok:
  assumes "live c" and "answer_ok (protoVer c) p e" and "acknowledges ack"
    and "incoming c = query_answer (protoVer c) p e @ close_answers (sint (pmHandle p)) ack @ rest"
  shows "\<exists>c'. fetchLastInsertID c = Some (first_value (fetched e), c')
    \<and> exchanged c (WritePrepareAndExecute ''SELECT LAST_INSERT_ID()'' (autoCommit c) (casInfo c)
        # close_requests (casInfo c) (sint (pmHandle p))) rest c'"
proof -
  from execSQL_ok [OF assms(1,4,2)] obtain c1 where
    1: "execSQL ''SELECT LAST_INSERT_ID()'' c = Some (Inr (pae_result p e), c1)"
    and x1: "exchanged c [WritePrepareAndExecute ''SELECT LAST_INSERT_ID()'' (autoCommit c) (casInfo c)]
      (close_answers (sint (pmHandle p)) ack @ rest) c1" by blast
  from closeIfPositive_ok [OF exchangedD(1,2) [OF x1] assms(3)] obtain c2 where
    2: "closeIfPositive (sint (pmHandle p)) c1 = Some c2"
    and x2: "exchanged c1 (close_requests (casInfo c) (sint (pmHandle p))) rest c2"
    using exchangedD(3) [OF x1] by auto
  show ?thesis
    using 1 2 exchanged_trans [OF x1 x2] by (simp add: fetchLastInsertID_def pae_result_def)
qed

section \<open>The row count and the generated key\<close>

text \<open>
  What the results of an execution mean: the number of affected rows is the sum over its parts, and the
  generated key is the first cell of the answer to LAST_INSERT_ID, a number or its leading digits.
\<close>

definition affected_total :: "execute_msg \<Rightarrow> int" where
  "affected_total e = (\<Sum>i\<leftarrow>emInfos e. riResultCount (fst i))"

definition generated_key :: "execute_msg \<Rightarrow> int64" where
  "generated_key e = (case fetched e of
       (VInt64 v # _) # _ \<Rightarrow> v
     | (VString s # _) # _ \<Rightarrow> word_of_int (dec_val (takeWhile is_digit s))
     | _ \<Rightarrow> 0)"

lemma affectedRows_sum: "affectedRows (map fst (emInfos e)) = word_of_int (affected_total e)"
proof -
  have "foldl (\<lambda>affected info. affected + word_of_int (riResultCount info)) n (map fst xs)
      = n + (word_of_int (\<Sum>i\<leftarrow>xs. riResultCount (fst i)) :: int64)" for n and xs :: "info_msg list"
    by (induction xs arbitrary: n) simp_all
  then show ?thesis by (simp add: affectedRows_def affected_total_def)
qed

lemma leading_digits_value:
  "leading_digits s (word_of_int k) = word_of_int (foldl (\<lambda>n c. n * 10 + digit_val c) k (takeWhile is_digit s))"
proof (induction s arbitrary: k)
  case (Cons c s)
  show ?case
  proof (cases "is_digit c")
    case True
    then have "(of_char c :: int) \<ge> 48" by (simp add: is_digit_iff)
    then have "(of_char c :: nat) \<ge> 48" by (metis of_nat_of_char of_nat_numeral nat_int_comparison(3))
    then have "int (of_char c - 48) = digit_val c"
      by (simp add: digit_val_def of_nat_diff of_nat_of_char)
    then have "word_of_nat (of_char c - 48) = (word_of_int (digit_val c) :: int64)"
      by (metis of_int_of_nat_eq)
    then have "(word_of_int k * 10 + word_of_nat (of_char c - of_char CHR ''0'') :: int64)
        = word_of_int (k * 10 + digit_val c)" by simp
    with True [unfolded is_digit_def] True Cons.IH [of "k * 10 + digit_val c"] show ?thesis by simp
  next
    case False
    then have "leading_digits (c # s) (word_of_int k) = word_of_int k" "takeWhile is_digit (c # s) = []"
      by (auto simp: is_digit_def)
    then show ?thesis by simp
  qed
qed simp

lemma first_value_key: "first_value (fetched e) = generated_key e"
proof -
  have "leading_digits s 0 = (word_of_int (dec_val (takeWhile is_digit s)) :: int64)" for s
    using leading_digits_value [of s 0] by (simp add: dec_val_def)
  then show ?thesis
    by (auto simp: first_value_def generated_key_def split: list.splits Value.splits)
qed

end
