(* ===== verification/ConnSpec.thy ===== *)
theory ConnSpec
  imports Wire SqlLex
begin

text \<open>
  What the operations of \<^verbatim>\<open>conn.go\<close> promise: which requests they send and in which order, what they
  return, and the state they leave, when the server answers, when the context is cancelled, and when
  the network fails.
\<close>

section \<open>The frame of a context operation\<close>

text \<open>\<open>BeginTx\<close>, \<open>QueryContext\<close> and \<open>ExecContext\<close> share their opening and their deferred reset; \<open>BeginTx\<close>
  starts no watcher, so its context is one whose watcher never fires.\<close>

definition unwatched :: "ctx \<Rightarrow> ctx" where
  "unwatched x = x\<lparr>ctxFires := FiresNever\<rparr>"

lemma unwatched_simps [simp]:
  "ctxErr (unwatched x) = ctxErr x" "ctxDeadline (unwatched x) = ctxDeadline x"
  by (simp_all add: unwatched_def)

lemma unwatched_with_watch [simp]: "with_watch (unwatched x) m = with_reset m"
  by (rule ext) (simp add: unwatched_def with_watch_def)

lemma unwatched_apply [simp]: "applyContextDeadline (unwatched x) = applyContextDeadline x"
  unfolding applyContextDeadline_def unwatched_simps ..

definition underContext :: "ctx \<Rightarrow> 'a op \<Rightarrow> 'a op" where
  "underContext x m c =
     (if closed c then Some (Inl ErrBadConn, c)
      else case applyContextDeadline x c of
        (Some err, c') \<Rightarrow> Some (Inl err, c')
      | (None, c') \<Rightarrow> with_watch x m c')"

definition beginBody :: "ctx \<Rightarrow> unit op" where
  "beginBody x c = (case ctxErr x 1 of
      Some err \<Rightarrow> Some (Inl err, c) | None \<Rightarrow> Some (Inr (), c\<lparr>autoCommit := False\<rparr>))"

lemma context_frames:
  "QueryContext x query args = underContext x (bindM (runContext x query args) (\<lambda>res. returnM (newRows res)))"
  "ExecContext x query args = underContext x (bindM (runContext x query args) execBody)"
  "BeginTx x = underContext (unwatched x) (beginBody x)"
  by (rule ext, simp add: QueryContext_def ExecContext_def BeginTx_def underContext_def
      beginBody_def [abs_def] del: One_nat_def cong: option.case_cong)+

text \<open>The state after a context operation on a live connection: as after the exchange, with no
  deadline.\<close>

definition settled :: "conn \<Rightarrow> byte list list \<Rightarrow> byte list \<Rightarrow> conn \<Rightarrow> bool" where
  "settled c reqs rest c' \<longleftrightarrow> live c' \<and> incoming c' = rest \<and> settings c' = settings c
     \<and> sent_log c' = sent_log c @ reqs \<and> deadline_of c' = None"

text \<open>The deadline a watcher leaves when it fires after the reset, and the state after an operation
  that may have such a watcher.\<close>

definition watch_deadline :: "ctx \<Rightarrow> int option" where
  "watch_deadline x = (case ctxFires x of
     FiresLate now \<Rightarrow> if ctxErr x 4 \<noteq> None then Some now else None | _ \<Rightarrow> None)"

definition settled_by :: "ctx \<Rightarrow> conn \<Rightarrow> byte list list \<Rightarrow> byte list \<Rightarrow> conn \<Rightarrow> bool" where
  "settled_by x c reqs rest c' \<longleftrightarrow> live c' \<and> incoming c' = rest \<and> settings c' = settings c
     \<and> sent_log c' = sent_log c @ reqs \<and> deadline_of c' = watch_deadline x"

lemma settled_by_quiet:
  "ctxErr x 4 = None \<Longrightarrow> settled_by x = settled"
  by (simp add: settled_by_def settled_def watch_deadline_def fun_eq_iff split: firing.splits)

lemma with_watch_cases:
  "with_watch x m c = (case m (case ctxFires x of
       FiresEarly now \<Rightarrow> if ctxErr x 3 \<noteq> None then fireDeadline now c else c | _ \<Rightarrow> c) of
     None \<Rightarrow> None
   | Some (r, c') \<Rightarrow> Some (r, case watch_deadline x of
       None \<Rightarrow> resetDeadline c' | Some now \<Rightarrow> fireDeadline now (resetDeadline c')))"
  by (auto simp: with_watch_def with_reset_def watch_deadline_def split: firing.splits option.splits)

lemma fireDeadline_live:
  "live c \<Longrightarrow> live (fireDeadline now c) \<and> incoming (fireDeadline now c) = incoming c
    \<and> settings (fireDeadline now c) = settings c \<and> sent_log (fireDeadline now c) = sent_log c
    \<and> net_failure (fireDeadline now c) = net_failure c \<and> later (fireDeadline now c) = later c
    \<and> deadline_of (fireDeadline now c) = Some now"
  by (auto simp: fireDeadline_def setDeadline_def sock_set_deadline_def live_def incoming_def
      settings_def sent_log_def net_failure_def later_def deadline_of_def split: option.splits)

lemma applyContextDeadline_live:
  assumes "live c" and "ctxErr x 0 = None"
  shows "\<exists>c'. applyContextDeadline x c = (None, c') \<and> live c' \<and> incoming c' = incoming c
    \<and> settings c' = settings c \<and> sent_log c' = sent_log c \<and> net_failure c' = net_failure c
    \<and> later c' = later c"
proof -
  obtain s where s: "cSocket c = Some s" "opened s" "outcomes s = []"
    using assms(1) by (auto simp: live_def split: option.splits)
  then show ?thesis
    using assms by (cases "ctxDeadline x")
      (simp_all add: applyContextDeadline_def setDeadline_def sock_set_deadline_def live_def
        incoming_def settings_def sent_log_def net_failure_def later_def)
qed

lemma resetDeadline_live:
  "exchanged c1 reqs rest c2 \<Longrightarrow> settings c1 = settings c \<Longrightarrow> sent_log c1 = sent_log c
    \<Longrightarrow> settled c reqs rest (resetDeadline c2)"
  by (auto simp: exchanged_def settled_def resetDeadline_def setDeadline_def sock_set_deadline_def
      live_def incoming_def settings_def sent_log_def deadline_of_def split: option.splits)

lemma settled_late:
  assumes "settled c reqs rest c'"
  shows "settled_by x c reqs rest
    (case watch_deadline x of None \<Rightarrow> c' | Some now \<Rightarrow> fireDeadline now c')"
  using assms fireDeadline_live [of c'] by (auto simp: settled_def settled_by_def split: option.splits)

lemma underContext_ok:
  assumes "live c" and "\<not> closed c" and "ctxErr x 0 = None"
    and "\<And>c1. live c1 \<Longrightarrow> incoming c1 = incoming c \<Longrightarrow> settings c1 = settings c \<Longrightarrow>
      net_failure c1 = net_failure c \<Longrightarrow> later c1 = later c \<Longrightarrow>
      \<exists>c2. m c1 = Some (r, c2) \<and> exchanged c1 reqs rest c2"
  shows "\<exists>c'. underContext x m c = Some (r, c') \<and> settled_by x c reqs rest c'"
proof -
  obtain c1 where c1: "applyContextDeadline x c = (None, c1)" "live c1" "incoming c1 = incoming c"
      "settings c1 = settings c" "sent_log c1 = sent_log c"
      "net_failure c1 = net_failure c" "later c1 = later c"
    using applyContextDeadline_live [OF assms(1,3)] by blast
  define d where "d = (case ctxFires x of
      FiresEarly now \<Rightarrow> if ctxErr x 3 \<noteq> None then fireDeadline now c1 else c1 | _ \<Rightarrow> c1)"
  have d: "live d" "incoming d = incoming c" "settings d = settings c" "sent_log d = sent_log c"
      "net_failure d = net_failure c" "later d = later c"
    using c1 fireDeadline_live [OF c1(2)] by (auto simp: d_def split: firing.splits)
  obtain c2 where c2: "m d = Some (r, c2)" "exchanged d reqs rest c2"
    using assms(4) [OF d(1,2,3,5,6)] by blast
  from settled_late [OF resetDeadline_live [OF c2(2) d(3,4)]] show ?thesis
    using c1(1) c2(1) assms(2)
    by (auto simp: underContext_def with_watch_cases d_def [symmetric] split: option.splits)
qed

section \<open>The statement that is sent\<close>

text \<open>\<open>to_sql query args sql\<close>: the arguments are positional and interpolation gives \<open>sql\<close>.\<close>

definition to_sql :: "string \<Rightarrow> NamedValue list \<Rightarrow> string \<Rightarrow> bool" where
  "to_sql query args sql \<longleftrightarrow> (\<forall>a\<in>set args. nvName a = [])
     \<and> (if args = [] then sql = query
        else InterpolateArgs query (map nvValue args) = Some (Inr sql))"

lemma namedValuesToValues_eq:
  "namedValuesToValues args = (case find (\<lambda>a. nvName a \<noteq> []) args of
     None \<Rightarrow> Inr (map nvValue args)
   | Some a \<Rightarrow> Inl (FmtError (''cubrid: named parameters are not supported: '' @ nvName a)))"
  by (induction args) (auto split: option.splits)

lemma interpolated_ok:
  assumes "to_sql query args sql"
  shows "\<exists>vs. namedValuesToValues args = Inr vs \<and> interpolated query vs c = Some (Inr sql, c)"
proof -
  have "find (\<lambda>a. nvName a \<noteq> []) args = None"
    using assms by (auto simp: to_sql_def find_None_iff)
  then have "namedValuesToValues args = Inr (map nvValue args)"
    by (simp add: namedValuesToValues_eq)
  then show ?thesis
    using assms by (auto simp: to_sql_def interpolated_def parsed_def returnM_def split: if_splits)
qed

lemma runContext_run:
  assumes "to_sql query args sql" and "ctxErr x 1 = None"
  shows "runContext x query args c = checked (ctxErr x 2) (execSQL sql) c"
proof -
  obtain vs where vs: "namedValuesToValues args = Inr vs" "interpolated query vs c = Some (Inr sql, c)"
    using interpolated_ok [OF assms(1)] by blast
  show ?thesis using bindM_simps(3) [where m = "interpolated query vs", OF vs(2)] vs(1) assms(2)
    by (simp add: runContext_def)
qed

lemma runContext_ok:
  assumes "live c" and "incoming c = query_answer (protoVer c) p e @ rest" and "answer_ok (protoVer c) p e"
    and "to_sql query args sql" and "ctxErr x 1 = None"
  shows "\<exists>c'. runContext x query args c
      = Some (case ctxErr x 2 of Some err \<Rightarrow> Inl err | None \<Rightarrow> Inr (pae_result p e), c')
    \<and> exchanged c [WritePrepareAndExecute sql (autoCommit c) (casInfo c)] rest c'"
proof -
  from execSQL_ok [OF assms(1-3)] obtain c' where
    "execSQL sql c = Some (Inr (pae_result p e), c')"
    "exchanged c [WritePrepareAndExecute sql (autoCommit c) (casInfo c)] rest c'" by blast
  then show ?thesis
    by (auto simp: runContext_run [OF assms(4,5)] checked_def split: option.splits)
qed

section \<open>Executing and querying\<close>

text \<open>The requests \<open>ExecContext\<close> makes, and the answers it waits for: an INSERT asks for the generated
  key, and every handle the server handed out is closed.\<close>

definition exec_requests :: "conn \<Rightarrow> string \<Rightarrow> prepare_msg \<Rightarrow> prepare_msg \<Rightarrow> byte list list" where
  "exec_requests c sql p p' =
     WritePrepareAndExecute sql (autoCommit c) (casInfo c)
     # (if uint (pmStmt p) = StmtInsert
        then WritePrepareAndExecute ''SELECT LAST_INSERT_ID()'' (autoCommit c) (casInfo c)
             # close_requests (casInfo c) (sint (pmHandle p'))
        else [])
     @ close_requests (casInfo c) (sint (pmHandle p))"

definition exec_answers :: "int \<Rightarrow> prepare_msg \<Rightarrow> execute_msg \<Rightarrow> prepare_msg \<Rightarrow> execute_msg \<Rightarrow> byte list \<Rightarrow> byte list" where
  "exec_answers pv p e p' e' ack =
     query_answer pv p e
     @ (if uint (pmStmt p) = StmtInsert
        then query_answer pv p' e' @ close_answers (sint (pmHandle p')) ack else [])
     @ close_answers (sint (pmHandle p)) ack"

lemma execBody_ok:
  assumes "live c" and "answer_ok (protoVer c) p' e'" and "acknowledges ack"
    and "incoming c = (if uint (pmStmt p) = StmtInsert
        then query_answer (protoVer c) p' e' @ close_answers (sint (pmHandle p')) ack else [])
      @ close_answers (sint (pmHandle p)) ack @ rest"
  shows "\<exists>c'. execBody (pae_result p e) c = Some (Inr
      \<lparr>lastInsertID = (if uint (pmStmt p) = StmtInsert then first_value (fetched e') else 0),
       rowsAffected = affectedRows (map fst (emInfos e))\<rparr>, c')
    \<and> exchanged c ((if uint (pmStmt p) = StmtInsert
        then WritePrepareAndExecute ''SELECT LAST_INSERT_ID()'' (autoCommit c) (casInfo c)
             # close_requests (casInfo c) (sint (pmHandle p')) else [])
        @ close_requests (casInfo c) (sint (pmHandle p))) rest c'"
proof (cases "uint (pmStmt p) = StmtInsert")
  case True
  with assms(4) have "incoming c = query_answer (protoVer c) p' e'
      @ close_answers (sint (pmHandle p')) ack @ close_answers (sint (pmHandle p)) ack @ rest" by simp
  from fetchLastInsertID_ok [OF assms(1-3) this] obtain c1 where
    1: "fetchLastInsertID c = Some (first_value (fetched e'), c1)"
    and x1: "exchanged c (WritePrepareAndExecute ''SELECT LAST_INSERT_ID()'' (autoCommit c) (casInfo c)
        # close_requests (casInfo c) (sint (pmHandle p'))) (close_answers (sint (pmHandle p)) ack @ rest) c1"
    by blast
  from closeIfPositive_ok [OF exchangedD(1,2) [OF x1] assms(3)] obtain c2 where
    2: "closeIfPositive (sint (pmHandle p)) c1 = Some c2"
    and x2: "exchanged c1 (close_requests (casInfo c) (sint (pmHandle p))) rest c2"
    using exchangedD(3) [OF x1] by auto
  show ?thesis
    using True 1 2 exchanged_trans [OF x1 x2] by (simp add: execBody_def pae_result_def)
next
  case False
  with assms(4) have "incoming c = close_answers (sint (pmHandle p)) ack @ rest" by simp
  from closeIfPositive_ok [OF assms(1) this assms(3)] False show ?thesis
    by (auto simp: execBody_def pae_result_def)
qed

lemma ExecContext_ok:
  assumes "live c" and "\<not> closed c" and "ctxErr x 0 = None" and "ctxErr x 1 = None" and "ctxErr x 2 = None"
    and "to_sql query args sql" and "answer_ok (protoVer c) p e" and "answer_ok (protoVer c) p' e'" and "acknowledges ack"
    and "incoming c = exec_answers (protoVer c) p e p' e' ack @ rest"
  shows "\<exists>c'. ExecContext x query args c = Some (Inr
      \<lparr>lastInsertID = (if uint (pmStmt p) = StmtInsert then first_value (fetched e') else 0),
       rowsAffected = affectedRows (map fst (emInfos e))\<rparr>, c')
    \<and> settled_by x c (exec_requests c sql p p') rest c'"
  unfolding context_frames
proof (rule underContext_ok)
  fix c1 assume c1: "live c1" "incoming c1 = incoming c" "settings c1 = settings c"
    "net_failure c1 = net_failure c" "later c1 = later c"
  note same = settings_eqD [OF c1(3)]
  have i: "incoming c1 = query_answer (protoVer c1) p e @ ((if uint (pmStmt p) = StmtInsert
        then query_answer (protoVer c1) p' e' @ close_answers (sint (pmHandle p')) ack else [])
      @ close_answers (sint (pmHandle p)) ack @ rest)"
    using assms(10) c1(2) same by (simp add: exec_answers_def)
  have a: "answer_ok (protoVer c1) p e" "answer_ok (protoVer c1) p' e'"
    using assms(7,8) same by simp_all
  from runContext_ok [OF c1(1) i a(1) assms(6,4)] assms(5) obtain c2 where
    2: "runContext x query args c1 = Some (Inr (pae_result p e), c2)"
    and x2: "exchanged c1 [WritePrepareAndExecute sql (autoCommit c1) (casInfo c1)]
      ((if uint (pmStmt p) = StmtInsert
        then query_answer (protoVer c1) p' e' @ close_answers (sint (pmHandle p')) ack else [])
      @ close_answers (sint (pmHandle p)) ack @ rest) c2" by auto
  note e2 = exchangedD [OF x2]
  have "answer_ok (protoVer c2) p' e'" using a(2) e2(4) by simp
  have t: "autoCommit c2 = autoCommit c" "casInfo c2 = casInfo c" using e2(3,5) same by simp_all
  have i2: "incoming c2 = (if uint (pmStmt p) = StmtInsert
        then query_answer (protoVer c2) p' e' @ close_answers (sint (pmHandle p')) ack else [])
      @ close_answers (sint (pmHandle p)) ack @ rest"
    unfolding e2(4) by (rule e2(2))
  from execBody_ok [OF e2(1) \<open>answer_ok (protoVer c2) p' e'\<close> assms(9) i2, of e, unfolded t] obtain c3 where
    3: "execBody (pae_result p e) c2 = Some (Inr
      \<lparr>lastInsertID = (if uint (pmStmt p) = StmtInsert then first_value (fetched e') else 0),
       rowsAffected = affectedRows (map fst (emInfos e))\<rparr>, c3)"
    and x3: "exchanged c2 (tl (exec_requests c sql p p')) rest c3"
    unfolding exec_requests_def list.sel by blast
  note run = bindM_simps(3) [where m = "runContext x query args" and k = execBody, OF 2, unfolded 3]
  have "exchanged c1 (exec_requests c sql p p') rest c3"
    using exchanged_trans [OF x2 x3] same by (simp add: exec_requests_def)
  with run show "\<exists>c3. bindM (runContext x query args) execBody c1 = Some (Inr
      \<lparr>lastInsertID = (if uint (pmStmt p) = StmtInsert then first_value (fetched e') else 0),
       rowsAffected = affectedRows (map fst (emInfos e))\<rparr>, c3)
    \<and> exchanged c1 (exec_requests c sql p p') rest c3"
    by blast
qed (use assms in simp_all)

text \<open>A context that ends while the statement runs: its error is returned, and nothing else is sent.\<close>

lemma ExecContext_cancelled:
  assumes "live c" and "\<not> closed c" and "ctxErr x 0 = None" and "ctxErr x 1 = None" and "ctxErr x 2 = Some err"
    and "to_sql query args sql" and "answer_ok (protoVer c) p e"
    and "incoming c = query_answer (protoVer c) p e @ rest"
  shows "\<exists>c'. ExecContext x query args c = Some (Inl err, c')
    \<and> settled_by x c [WritePrepareAndExecute sql (autoCommit c) (casInfo c)] rest c'"
  unfolding context_frames
proof (rule underContext_ok)
  fix c1 assume c1: "live c1" "incoming c1 = incoming c" "settings c1 = settings c"
    "net_failure c1 = net_failure c" "later c1 = later c"
  note same = settings_eqD [OF c1(3)]
  have i: "incoming c1 = query_answer (protoVer c1) p e @ rest" and a: "answer_ok (protoVer c1) p e"
    using assms(7,8) c1(2) same by simp_all
  from runContext_ok [OF c1(1) i a assms(6,4)] assms(5) obtain c2 where
    "runContext x query args c1 = Some (Inl err, c2)"
    "exchanged c1 [WritePrepareAndExecute sql (autoCommit c1) (casInfo c1)] rest c2" by auto
  then show "\<exists>c2. bindM (runContext x query args) execBody c1 = Some (Inl err, c2)
    \<and> exchanged c1 [WritePrepareAndExecute sql (autoCommit c) (casInfo c)] rest c2"
    using same by (auto simp: bindM_simps)
qed (use assms in simp_all)

lemma QueryContext_ok:
  assumes "live c" and "\<not> closed c" and "ctxErr x 0 = None" and "ctxErr x 1 = None"
    and "to_sql query args sql" and "answer_ok (protoVer c) p e"
    and "incoming c = query_answer (protoVer c) p e @ rest"
  shows "\<exists>c'. QueryContext x query args c
      = Some (case ctxErr x 2 of Some err \<Rightarrow> Inl err | None \<Rightarrow> Inr (newRows (pae_result p e)), c')
    \<and> settled_by x c [WritePrepareAndExecute sql (autoCommit c) (casInfo c)] rest c'"
  unfolding context_frames
proof (rule underContext_ok)
  fix c1 assume c1: "live c1" "incoming c1 = incoming c" "settings c1 = settings c"
    "net_failure c1 = net_failure c" "later c1 = later c"
  note same = settings_eqD [OF c1(3)]
  have i: "incoming c1 = query_answer (protoVer c1) p e @ rest" and a: "answer_ok (protoVer c1) p e"
    using assms(6,7) c1(2) same by simp_all
  from runContext_ok [OF c1(1) i a assms(5,4)] obtain c2 where
    "runContext x query args c1
      = Some (case ctxErr x 2 of Some err \<Rightarrow> Inl err | None \<Rightarrow> Inr (pae_result p e), c2)"
    "exchanged c1 [WritePrepareAndExecute sql (autoCommit c1) (casInfo c1)] rest c2" by blast
  then show "\<exists>c2. bindM (runContext x query args) (\<lambda>res. returnM (newRows res)) c1
      = Some (case ctxErr x 2 of Some err \<Rightarrow> Inl err | None \<Rightarrow> Inr (newRows (pae_result p e)), c2)
    \<and> exchanged c1 [WritePrepareAndExecute sql (autoCommit c) (casInfo c)] rest c2"
    using same by (auto simp: bindM_def returnM_def split: option.splits)
qed (use assms in simp_all)

section \<open>When the network fails\<close>

lemma QueryContext_fails:
  assumes "live c" and "\<not> closed c" and "ctxErr x 0 = None" and "ctxErr x 1 = None"
    and "to_sql query args sql" and "incoming c = []"
  shows "\<exists>c'. QueryContext x query args c
      = Some (Inl (case ctxErr x 2 of Some err \<Rightarrow> err | None \<Rightarrow> net_failure c), c')
    \<and> settled_by x c [WritePrepareAndExecute sql (autoCommit c) (casInfo c)] (later c) c'"
  unfolding context_frames
proof (rule underContext_ok)
  fix c1 assume c1: "live c1" "incoming c1 = incoming c" "settings c1 = settings c"
    "net_failure c1 = net_failure c" "later c1 = later c"
  note same = settings_eqD [OF c1(3)]
  let ?req = "WritePrepareAndExecute sql (autoCommit c) (casInfo c)"
  let ?e = "case ctxErr x 2 of Some err \<Rightarrow> err | None \<Rightarrow> net_failure c"
  obtain c2 where c2: "sendAndRecv ?req c1 = Some (Inl (net_failure c), c2)" "exchanged c1 [?req] (later c) c2"
    using sendAndRecv_short [OF c1(1), of ?req] c1(2,4,5) assms(6) by (auto simp: short_read_def)
  have "runContext x query args c1 = Some (Inl ?e, c2)"
    using c2(1) same
    by (simp add: runContext_run [OF assms(5,4)] checked_def execSQL_def bindM_simps split: option.splits)
  with c2(2) show "\<exists>c2. bindM (runContext x query args) (\<lambda>res. returnM (newRows res)) c1
      = Some (Inl ?e, c2) \<and> exchanged c1 [?req] (later c) c2"
    by (auto simp: bindM_simps)
qed (use assms in simp_all)

section \<open>What every context operation keeps\<close>

context io_relation begin

lemma keeps_runContext: "keeps R (runContext x query args)"
proof -
  have "keeps R (checked e m)" if "keeps R m" for e and m :: "'b op"
    using that unfolding keeps_def checked_def by (auto split: option.splits)
  moreover have "keeps R (interpolated query vs)" for vs
    by (auto simp: interpolated_def keeps_return)
  ultimately show ?thesis
    unfolding runContext_def
    by (auto split: option.splits sum.splits intro!: keeps_bind keeps_return keeps_execSQL)
qed

lemma keeps_execBody: "keeps R (execBody res)"
  unfolding keeps_def execBody_def
  by (auto simp: Let_def split: option.splits if_splits
      intro: R_trans keeps_fetchLastInsertID keeps_closeIfPositive)

end

section \<open>Rejected calls and the deadline\<close>

text \<open>Moving the deadline is no I/O.\<close>

definition untouched :: "conn \<Rightarrow> conn \<Rightarrow> bool" where
  "untouched c c' \<longleftrightarrow> sent_log c' = sent_log c \<and> incoming c' = incoming c \<and> settings c' = settings c"

lemma untouched_refl: "untouched c c"
  by (simp add: untouched_def)

lemma untouched_trans: "untouched a b \<Longrightarrow> untouched b c \<Longrightarrow> untouched a c"
  by (simp add: untouched_def)

lemma untouched_setDeadline: "untouched c (snd (setDeadline d c))"
  by (auto simp: untouched_def setDeadline_def sock_set_deadline_def sent_log_def incoming_def settings_def
      split: option.splits)

lemma untouched_apply: "applyContextDeadline x c = (r, c') \<Longrightarrow> untouched c c'"
  using untouched_setDeadline untouched_refl
  by (auto simp: applyContextDeadline_def split: option.splits) (metis snd_conv)

lemma untouched_reset: "untouched c (resetDeadline c)"
  by (simp add: resetDeadline_def untouched_setDeadline)

lemma untouched_fire: "untouched c (fireDeadline now c)"
  by (simp add: fireDeadline_def untouched_setDeadline)

lemma with_watch_rejects:
  assumes "\<And>c1. \<exists>e. m c1 = Some (Inl e, c1)"
  shows "\<exists>e c'. with_watch x m c = Some (Inl e, c') \<and> untouched c c'"
proof -
  let ?d = "case ctxFires x of
      FiresEarly now \<Rightarrow> if ctxErr x 3 \<noteq> None then fireDeadline now c else c | _ \<Rightarrow> c"
  obtain e where e: "m ?d = Some (Inl e, ?d)" using assms by blast
  have d: "untouched c ?d" by (auto simp: untouched_refl untouched_fire split: firing.splits)
  note u = untouched_trans [OF d untouched_reset]
  show ?thesis
    using u untouched_trans [OF u untouched_fire] by (auto simp: with_watch_cases e split: option.splits)
qed

lemma underContext_rejects:
  assumes "closed c \<or> ctxErr x 0 \<noteq> None \<or> (\<forall>c1. \<exists>e. m c1 = Some (Inl e, c1))"
  shows "\<exists>e c'. underContext x m c = Some (Inl e, c') \<and> untouched c c'"
proof (cases "applyContextDeadline x c")
  case (Pair r c1)
  note u = untouched_apply [OF Pair]
  show ?thesis
  proof (cases r)
    case (Some e)
    then show ?thesis using Pair u untouched_refl by (auto simp: underContext_def)
  next
    case None
    then have "ctxErr x 0 = None" using Pair by (auto simp: applyContextDeadline_def split: option.splits)
    then consider "closed c" | "\<not> closed c" "\<And>c1. \<exists>e. m c1 = Some (Inl e, c1)" using assms by blast
    then show ?thesis
    proof cases
      case 2
      from with_watch_rejects [OF 2(2), where x = x and c = c1] Pair None 2(1) show ?thesis
        using untouched_trans [OF u] by (fastforce simp: underContext_def)
    qed (use untouched_refl in \<open>auto simp: underContext_def\<close>)
  qed
qed

lemma runContext_rejects:
  assumes "ctxErr x 1 \<noteq> None \<or> (\<exists>a\<in>set args. nvName a \<noteq> [])
    \<or> args \<noteq> [] \<and> length args \<noteq> length (findBindPlaceholders query)"
  shows "\<exists>e. runContext x query args c = Some (Inl e, c)"
proof (cases "ctxErr x 1")
  case (Some e)
  then show ?thesis by (simp add: runContext_def failM_def)
next
  case None
  show ?thesis
  proof (cases "find (\<lambda>a. nvName a \<noteq> []) args")
    case (Some a)
    with None show ?thesis by (simp add: runContext_def failM_def namedValuesToValues_eq)
  next
    case nf: None
    then have "args \<noteq> []" "length args \<noteq> length (findBindPlaceholders query)"
      using assms None by (auto simp: find_None_iff)
    then have "\<exists>e. interpolated query (map nvValue args) c = Some (Inl e, c)"
      by (auto simp: interpolated_def parsed_def InterpolateArgs_def Let_def)
    then show ?thesis
      using None nf by (auto simp: runContext_def namedValuesToValues_eq bindM_simps)
  qed
qed

text \<open>What is left of the deadline: exactly what a late watcher sets, and nothing when the operation was
  rejected before its watcher was started.\<close>

lemma deadline_moves:
  "is_open c \<Longrightarrow> deadline_of (snd (setDeadline d c)) = d"
  "\<not> is_open c \<Longrightarrow> snd (setDeadline d c) = c" "is_open (snd (setDeadline d c)) = is_open c"
  by (cases c; auto simp: setDeadline_def sock_set_deadline_def is_open_def deadline_of_def
      split: option.splits)+

lemma apply_deadline:
  assumes "applyContextDeadline x c = (e, c1)"
  shows "is_open c1 = is_open c" "e \<noteq> None \<or> \<not> is_open c \<Longrightarrow> c1 = c"
    "ctxErr x 0 \<noteq> None \<Longrightarrow> e \<noteq> None" "ctxErr x 0 = None \<Longrightarrow> is_open c \<Longrightarrow> e = None"
  using assms
  by (cases c; auto simp: applyContextDeadline_def setDeadline_def sock_set_deadline_def is_open_def
      split: option.splits if_splits)+

lemma underContext_deadline:
  assumes "keeps grows m" and "deadline_of c = None" and "underContext x m c = Some (r, c')"
  shows "deadline_of c'
    = (if closed c \<or> ctxErr x 0 \<noteq> None \<or> \<not> is_open c then None else watch_deadline x)"
proof (cases "applyContextDeadline x c")
  case (Pair e c1)
  note a = apply_deadline [OF Pair]
  consider "closed c" | "\<not> closed c" "e \<noteq> None" | "\<not> closed c" "e = None" by blast
  then show ?thesis
  proof cases
    case 3
    let ?d = "case ctxFires x of
        FiresEarly now \<Rightarrow> if ctxErr x 3 \<noteq> None then fireDeadline now c1 else c1 | _ \<Rightarrow> c1"
    obtain c2 where c2: "m ?d = Some (r, c2)" "c' = (case watch_deadline x of
        None \<Rightarrow> resetDeadline c2 | Some now \<Rightarrow> fireDeadline now (resetDeadline c2))"
      using Pair assms(3) 3 by (auto simp: underContext_def with_watch_cases split: option.splits)
    have d: "is_open ?d = is_open c" "\<not> is_open c \<Longrightarrow> ?d = c"
      using a(1,2) by (auto simp: fireDeadline_def deadline_moves split: firing.splits)
    from keepsD [OF assms(1) c2(1)] have "deadline_of c2 = deadline_of ?d" "is_open c2 = is_open c"
      using d(1) by (simp_all add: grows_def)
    moreover have "ctxErr x 0 = None" using a(3) 3(2) by blast
    ultimately show ?thesis using 3 d(2) assms(2) c2(2)
      by (cases "is_open c")
        (auto simp: deadline_moves resetDeadline_def fireDeadline_def split: option.splits)
  qed (use Pair assms a in \<open>auto simp: underContext_def\<close>)
qed

section \<open>A concrete connection\<close>

definition sample_conn :: "read_event list \<Rightarrow> conn" where
  "sample_conn es = \<lparr>cSocket = Some \<lparr>inbox = es, outcomes = [], sent = [], deadline = None, opened = True\<rparr>,
     cHost = ''h'', cPort = 1, cDatabase = ''d'', cUser = ''u'', cPassword = '''', cTimeout = 0,
     casInfo = [0, 0, 0, 0], protoVer = 5, autoCommit = True, closed = False\<rparr>"

definition background :: ctx where
  "background = \<lparr>ctxErr = \<lambda>_. None, ctxDeadline = None, ctxFires = FiresNever\<rparr>"

definition insert_prepare :: prepare_msg where
  "insert_prepare = sample_prepare\<lparr>pmStmt := StmtInsert, pmColumns := []\<rparr>"

definition insert_execute :: execute_msg where
  "insert_execute = sample_execute\<lparr>emTotal := 1, emFetch := None,
     emInfos := [(\<lparr>riStmtType = StmtInsert, riResultCount = 1, riOID = replicate 8 0\<rparr>, 0, 0)]\<rparr>"

definition ack :: "byte list" where "ack = [0, 0, 0, 0, 0, 0, 0, 0]"

lemma sample_answers: "answer_ok 5 sample_prepare sample_execute" "answer_ok 5 insert_prepare insert_execute"
proof -
  show "answer_ok 5 sample_prepare sample_execute"
    using sample_ok
    by (simp add: answer_ok_def, simp add: framed_ok_def pae_img_def prepare_img_def execute_tail_def proto_img_def
      sample_prepare_def sample_execute_def sample_column_def column_img_def rows_img_def row_img_def)
  show "answer_ok 5 insert_prepare insert_execute"
    using sample_ok(1)
    by (simp add: answer_ok_def prepare_ok_def insert_prepare_def insert_execute_def execute_ok_def info_ok_def
      countable_list_def sample_execute_def framed_ok_def pae_img_def prepare_img_def execute_tail_def
      proto_img_def sample_prepare_def info_img_def)
qed

lemma sample_ack: "acknowledges ack"
  using ParseSimpleResponse_img [of "[0, 0, 0, 0]" 0 "[]"]
  by (simp add: acknowledges_def ack_def framed_ok_def be32_def)

lemma sample_live: "live (sample_conn es)" "incoming (sample_conn es) = stream es"
  "later (sample_conn es) = stream (after_failure es)" "net_failure (sample_conn es) = failure es"
  by (simp_all add: live_def incoming_def later_def net_failure_def sample_conn_def)

lemma sample_fields [simp]:
  "protoVer (sample_conn es) = 5" "\<not> closed (sample_conn es)" "autoCommit (sample_conn es)"
  "casInfo (sample_conn es) = [0, 0, 0, 0]" "sent_log (sample_conn es) = []"
  "ctxErr background k = None"
  by (simp_all add: sample_conn_def sent_log_def background_def)

lemma settled_log: "settled c reqs rest c' \<Longrightarrow> sent_log c' = sent_log c @ reqs"
  by (simp add: settled_def)

lemma settled_by_log: "settled_by x c reqs rest c' \<Longrightarrow> sent_log c' = sent_log c @ reqs"
  by (simp add: settled_by_def)

lemma sample_values: "first_value (fetched sample_execute) = 42" "sint (pmHandle sample_prepare) = 3"
  "sint (pmHandle insert_prepare) = 3" "uint (pmStmt insert_prepare) = 20" "uint (pmStmt sample_prepare) = 21"
  "affectedRows (map fst (emInfos insert_execute)) = 1" "affected_total insert_execute = 1"
  "generated_key sample_execute = 42"
  by (simp_all add: affected_total_def generated_key_def fetched_def sample_execute_def row_val_def first_value_def sample_prepare_def
      insert_prepare_def insert_execute_def affectedRows_def)

section \<open>Properties\<close>

text \<open>C2: \<open>ExecContext\<close> on an answering server, under a context that has not ended when it starts.  When
  the context has not ended either when the statement has run, \<open>ExecContext\<close> leaks nothing and asks for
  nothing else: it sends the interpolated statement, for an INSERT the query for the generated key, and
  one CLOSE for every handle the server handed out, in this order; it returns the generated key (the
  number the server gave, or its leading digits) and the sum of the row counts.  When the context has
  ended by then, it returns the context's error, has sent the statement alone, and so leaves the handle
  of the statement open on the server.  Both ways it consumes exactly the answers and leaves no deadline
  but the one a watcher sets that fires after the reset.\<close>

theorem exec_context_conversation:
  assumes "live c" and "\<not> closed c" and "ctxErr x 0 = None" and "ctxErr x 1 = None" and "to_sql query args sql"
    and "answer_ok (protoVer c) p e" and "answer_ok (protoVer c) p' e'" and "acknowledges a"
    and "incoming c = (case ctxErr x 2 of None \<Rightarrow> exec_answers (protoVer c) p e p' e' a
      | Some _ \<Rightarrow> query_answer (protoVer c) p e) @ rest"
  shows "\<exists>c'. ExecContext x query args c = Some (case ctxErr x 2 of
        Some err \<Rightarrow> Inl err
      | None \<Rightarrow> Inr \<lparr>lastInsertID = (if uint (pmStmt p) = StmtInsert then generated_key e' else 0),
                rowsAffected = word_of_int (affected_total e)\<rparr>, c')
    \<and> settled_by x c (case ctxErr x 2 of
        Some _ \<Rightarrow> [WritePrepareAndExecute sql (autoCommit c) (casInfo c)]
      | None \<Rightarrow> exec_requests c sql p p') rest c'"
proof (cases "ctxErr x 2")
  case None
  with assms(9) have i: "incoming c = exec_answers (protoVer c) p e p' e' a @ rest" by simp
  from ExecContext_ok [OF assms(1-4) None assms(5-8) i] show ?thesis
    unfolding first_value_key affectedRows_sum None option.case .
next
  case (Some err)
  with assms(9) have i: "incoming c = query_answer (protoVer c) p e @ rest" by simp
  from ExecContext_cancelled [OF assms(1-4) Some assms(5,6) i] Some show ?thesis by simp
qed

theorem exec_context_conversation_witness:
  "\<exists>c'. ExecContext background ''insert into t values (?)'' [\<lparr>nvName = '''', nvValue = VInt64 7\<rparr>]
      (sample_conn [Chunk (exec_answers 5 insert_prepare insert_execute sample_prepare sample_execute ack)])
     = Some (Inr \<lparr>lastInsertID = 42, rowsAffected = 1\<rparr>, c')
    \<and> sent_log c' = [WritePrepareAndExecute ''insert into t values (7)'' True [0, 0, 0, 0],
        WritePrepareAndExecute ''SELECT LAST_INSERT_ID()'' True [0, 0, 0, 0],
        WriteCloseReqHandle 3 [0, 0, 0, 0], WriteCloseReqHandle 3 [0, 0, 0, 0]]"
proof -
  let ?c = "sample_conn [Chunk (exec_answers 5 insert_prepare insert_execute sample_prepare sample_execute ack)]"
  have ps: "findBindPlaceholders ''insert into t values (?)'' = [22]"
    by (simp add: findBindPlaceholders_holes hole_def)
  then have "length [VInt64 7] = length (findBindPlaceholders ''insert into t values (?)'')" by simp
  from InterpolateArgs_spec [OF this]
  have "to_sql ''insert into t values (?)'' [\<lparr>nvName = '''', nvValue = VInt64 7\<rparr>] ''insert into t values (7)''"
    by (simp add: to_sql_def ps FormatInt_def dec.simps digit_char_def char_of_def)
  from exec_context_conversation [where c = ?c and x = background and rest = "[]" and a = ack,
      OF sample_live(1) _ _ _ this _ _ sample_ack, where p = insert_prepare and e = insert_execute
      and p' = sample_prepare and e' = sample_execute] sample_answers
  obtain c' where "ExecContext background ''insert into t values (?)'' [\<lparr>nvName = '''', nvValue = VInt64 7\<rparr>] ?c
      = Some (Inr \<lparr>lastInsertID = 42, rowsAffected = 1\<rparr>, c')"
    "settled_by background ?c (exec_requests ?c ''insert into t values (7)'' insert_prepare sample_prepare) [] c'"
    by (auto simp: sample_live sample_values)
  with settled_by_log show ?thesis
    by (simp add: exec_requests_def sample_values close_requests_def)
qed

text \<open>C13: \<open>QueryContext\<close> on an answering server sends one request, with the interpolated statement, and
  returns a cursor over exactly the rows the server sent, which owns the server's handle and knows
  whether more rows are to be fetched.\<close>

theorem query_context_rows:
  assumes "live c" and "\<not> closed c" and "\<forall>k. ctxErr x k = None" and "to_sql query args sql"
    and "answer_ok (protoVer c) p e" and "incoming c = query_answer (protoVer c) p e @ rest"
  shows "\<exists>c' r. QueryContext x query args c = Some (Inr r, c')
    \<and> settled c [WritePrepareAndExecute sql (autoCommit c) (casInfo c)] rest c'
    \<and> rBufferedRows r = fetched e \<and> rColumns r = map fst (pmColumns p) \<and> rTotalCount r = sint (emTotal e)
    \<and> rQueryHandle r = sint (pmHandle p) \<and> (rCloseHandle r \<longleftrightarrow> 0 < sint (pmHandle p)) \<and> \<not> rClosed r
    \<and> (rExhausted r \<longleftrightarrow> fetched e = [] \<or> sint (emTotal e) \<le> int (length (fetched e)))"
  using QueryContext_ok [OF assms(1,2) _ _ assms(4-6), of x] assms(3) settled_by_quiet [of x]
  by (auto simp: newRows_def pae_result_def)

theorem query_context_rows_witness:
  "\<exists>c' r. QueryContext background ''select 1'' []
      (sample_conn [Chunk (query_answer 5 sample_prepare sample_execute)]) = Some (Inr r, c')
    \<and> rBufferedRows r = [[VInt64 42], [VNil]] \<and> rExhausted r"
proof -
  let ?c = "sample_conn [Chunk (query_answer 5 sample_prepare sample_execute)]"
  have q: "to_sql ''select 1'' [] ''select 1''" by (simp add: to_sql_def)
  have a: "answer_ok (protoVer ?c) sample_prepare sample_execute"
    "incoming ?c = query_answer (protoVer ?c) sample_prepare sample_execute @ []"
    using sample_answers by (simp_all add: sample_live)
  have f: "fetched sample_execute = [[VInt64 42], [VNil]]" "sint (emTotal sample_execute) = 2"
    by (simp_all add: fetched_def sample_execute_def row_val_def)
  from query_context_rows [OF sample_live(1) _ _ q a, of background] show ?thesis
    by (auto simp: f)
qed

text \<open>C19: A call that cannot run writes nothing and reads nothing: on a closed connection, with a context
  that is already cancelled or expired, with named arguments, or with a non-empty argument list of the wrong length
  (without arguments the statement is sent as it is, whatever placeholders it has),
  \<open>QueryContext\<close> and \<open>ExecContext\<close> return an error and leave log, input and settings as they were.\<close>

theorem rejected_calls_do_no_io:
  assumes "closed c \<or> ctxErr x 0 \<noteq> None \<or> ctxErr x 1 \<noteq> None \<or> (\<exists>a\<in>set args. nvName a \<noteq> [])
    \<or> args \<noteq> [] \<and> length args \<noteq> length (findBindPlaceholders query)"
  shows "(\<exists>e c'. QueryContext x query args c = Some (Inl e, c') \<and> untouched c c')
    \<and> (\<exists>e c'. ExecContext x query args c = Some (Inl e, c') \<and> untouched c c')"
proof -
  have "closed c \<or> ctxErr x 0 \<noteq> None \<or> (\<forall>c1. \<exists>e. bindM (runContext x query args) k c1 = Some (Inl e, c1))"
    for k :: "PrepareAndExecuteResult \<Rightarrow> 'a op"
  proof (cases "closed c \<or> ctxErr x 0 \<noteq> None")
    case False
    then have "\<exists>e. runContext x query args c1 = Some (Inl e, c1)" for c1
      using runContext_rejects assms by blast
    then show ?thesis by (metis bindM_simps(2))
  qed blast
  then have rej: "\<exists>e c'. underContext x (bindM (runContext x query args) k) c = Some (Inl e, c') \<and> untouched c c'"
    for k :: "PrepareAndExecuteResult \<Rightarrow> 'a op"
    by (rule underContext_rejects)
  show ?thesis unfolding context_frames by (intro conjI rej)
qed

theorem rejected_calls_do_no_io_witness:
  "\<exists>e c'. ExecContext \<lparr>ctxErr = \<lambda>_. Some (ContextError ''context deadline exceeded''), ctxDeadline = Some 0, ctxFires = FiresNever\<rparr>
      ''update t set v = 1'' [] (sample_conn []) = Some (Inl e, c') \<and> sent_log c' = []"
  using rejected_calls_do_no_io [of "sample_conn []"
      "\<lparr>ctxErr = \<lambda>_. Some (ContextError ''context deadline exceeded''), ctxDeadline = Some 0, ctxFires = FiresNever\<rparr>"
      "[]" "''update t set v = 1''"]
  by (auto simp: untouched_def)

text \<open>C15: What a context leaves of its deadline, whatever the network and the context do.  On a connection
  without a deadline, \<open>BeginTx\<close> leaves none; \<open>QueryContext\<close> and \<open>ExecContext\<close> leave none either, except
  the time at which their watcher, when the context has ended, fires after the deferred reset; and they
  leave none in any case when the connection is closed or the context has ended before they start.\<close>

theorem context_deadline_is_reset:
  assumes "deadline_of c = None"
  shows "(QueryContext x query args c = Some (r, c') \<or> ExecContext x query args c = Some (r', c')
      \<longrightarrow> deadline_of c'
        = (if closed c \<or> ctxErr x 0 \<noteq> None \<or> \<not> is_open c then None else watch_deadline x))
    \<and> (BeginTx x c = Some (r'', c') \<longrightarrow> deadline_of c' = None)"
proof -
  have k1: "keeps grows (bindM (runContext x query args) (\<lambda>res. returnM (newRows res)))"
    by (intro log.keeps_bind log.keeps_runContext log.keeps_return)
  have k2: "keeps grows (bindM (runContext x query args) execBody)"
    by (intro log.keeps_bind log.keeps_runContext log.keeps_execBody)
  have k3: "keeps grows (beginBody x)"
    by (auto simp: keeps_def beginBody_def grows_def sent_log_def deadline_of_def is_open_def
        split: option.splits)
  have "watch_deadline (unwatched x) = None" by (simp add: watch_deadline_def unwatched_def)
  then show ?thesis
    unfolding context_frames
    using underContext_deadline [OF k1 assms] underContext_deadline [OF k2 assms]
      underContext_deadline [OF k3 assms, of "unwatched x"] by (auto split: if_splits)
qed

theorem context_deadline_is_reset_witness:
  "\<exists>r c'. QueryContext \<lparr>ctxErr = \<lambda>k. if k < 4 then None else Some (ContextError ''context canceled''),
        ctxDeadline = Some 9, ctxFires = FiresLate 5\<rparr> ''select 1'' []
      (sample_conn [ReadFail (NetError ''i/o timeout'')]) = Some (r, c')
    \<and> r = Inl (NetError ''i/o timeout'') \<and> deadline_of c' = Some 5"
proof -
  let ?c = "sample_conn [ReadFail (NetError ''i/o timeout'')]"
  let ?x = "\<lparr>ctxErr = \<lambda>k. if k < 4 then None else Some (ContextError ''context canceled''),
        ctxDeadline = Some 9, ctxFires = FiresLate 5\<rparr>"
  have q: "to_sql ''select 1'' [] ''select 1''" by (simp add: to_sql_def)
  obtain c' where c': "QueryContext ?x ''select 1'' [] ?c = Some (Inl (NetError ''i/o timeout''), c')"
    using QueryContext_fails [OF sample_live(1) _ _ _ q, of "[ReadFail (NetError ''i/o timeout'')]" ?x]
    by (auto simp: sample_live)
  have "deadline_of ?c = None" and o: "is_open ?c" "watch_deadline ?x = Some 5"
    by (simp_all add: sample_conn_def deadline_of_def is_open_def watch_deadline_def)
  from context_deadline_is_reset [OF this(1)] c' o show ?thesis by auto
qed

text \<open>C18: A query that starts under a live context but of whose answer no byte comes in time desynchronises
  the connection, whether it fails with the network's error or its context has ended by then and it
  returns the context's error.  The
  connection stays open and usable, so when the late answer arrives, the next query on the same
  connection, under a context that does not end while it runs, returns the rows of the one that timed
  out.\<close>

theorem timeout_desynchronises:
  assumes "live c" and "\<not> closed c" and "ctxErr x 0 = None" and "ctxErr x 1 = None"
    and "ctxErr y 0 = None" and "ctxErr y 1 = None" and "ctxErr y 2 = None"
    and "to_sql query1 args1 sql1" and "to_sql query2 args2 sql2"
    and "incoming c = []" and "later c = query_answer (protoVer c) p e @ rest" and "answer_ok (protoVer c) p e"
  shows "\<exists>c1 c2. QueryContext x query1 args1 c
      = Some (Inl (case ctxErr x 2 of Some err \<Rightarrow> err | None \<Rightarrow> net_failure c), c1) \<and> \<not> closed c1
    \<and> QueryContext y query2 args2 c1 = Some (Inr (newRows (pae_result p e)), c2)
    \<and> sent_log c2 = sent_log c @ [WritePrepareAndExecute sql1 (autoCommit c) (casInfo c),
        WritePrepareAndExecute sql2 (autoCommit c) (casInfo c)]"
proof -
  obtain c1 where c1: "QueryContext x query1 args1 c
        = Some (Inl (case ctxErr x 2 of Some err \<Rightarrow> err | None \<Rightarrow> net_failure c), c1)"
      "settled_by x c [WritePrepareAndExecute sql1 (autoCommit c) (casInfo c)] (later c) c1"
    using QueryContext_fails [OF assms(1-4,8,10)] by blast
  then have l: "live c1" "incoming c1 = later c" "settings c1 = settings c"
      "sent_log c1 = sent_log c @ [WritePrepareAndExecute sql1 (autoCommit c) (casInfo c)]"
    by (simp_all add: settled_by_def)
  note same = settings_eqD [OF l(3)]
  have a: "answer_ok (protoVer c1) p e" "incoming c1 = query_answer (protoVer c1) p e @ rest" "\<not> closed c1"
    using assms(2,11,12) l(2) same by simp_all
  obtain c2 where "QueryContext y query2 args2 c1 = Some (Inr (newRows (pae_result p e)), c2)"
      "settled_by y c1 [WritePrepareAndExecute sql2 (autoCommit c1) (casInfo c1)] rest c2"
    using QueryContext_ok [OF l(1) a(3) assms(5,6,9) a(1,2)] assms(7) by auto
  then show ?thesis
    using c1(1) a(3) l(4) same by (auto simp: settled_by_def)
qed

theorem timeout_desynchronises_witness:
  "\<exists>c1 c2. QueryContext \<lparr>ctxErr = \<lambda>k. if k < 2 then None else Some (ContextError ''context deadline exceeded''),
        ctxDeadline = Some 9, ctxFires = FiresEarly 9\<rparr> ''select 1'' []
      (sample_conn [ReadFail (NetError ''i/o timeout''), Chunk (query_answer 5 sample_prepare sample_execute)])
        = Some (Inl (ContextError ''context deadline exceeded''), c1)
    \<and> QueryContext background ''select 2'' [] c1 = Some (Inr (newRows (pae_result sample_prepare sample_execute)), c2)"
proof -
  let ?es = "[ReadFail (NetError ''i/o timeout''), Chunk (query_answer 5 sample_prepare sample_execute)]"
  let ?x = "\<lparr>ctxErr = \<lambda>k. if k < 2 then None else Some (ContextError ''context deadline exceeded''),
        ctxDeadline = Some 9, ctxFires = FiresEarly 9\<rparr>"
  have q: "to_sql ''select 1'' [] ''select 1''" "to_sql ''select 2'' [] ''select 2''" by (simp_all add: to_sql_def)
  have "incoming (sample_conn ?es) = []" "later (sample_conn ?es) = query_answer (protoVer (sample_conn ?es)) sample_prepare sample_execute @ []"
    "answer_ok (protoVer (sample_conn ?es)) sample_prepare sample_execute"
    using sample_answers by (simp_all add: sample_live)
  from timeout_desynchronises [OF sample_live(1) _ _ _ _ _ _ q this, of ?x background]
  show ?thesis by (auto simp: sample_live)
qed

text \<open>C25: A context that ends while a query succeeds leaks the server's handle: \<open>QueryContext\<close> returns the
  context's error, the handle the server opened is known to nobody, and no CLOSE request is sent.\<close>

theorem cancelled_query_leaks_handle:
  assumes "live c" and "\<not> closed c" and "ctxErr x 0 = None" and "ctxErr x 1 = None" and "ctxErr x 2 = Some err"
    and "to_sql query args sql" and "answer_ok (protoVer c) p e"
    and "incoming c = query_answer (protoVer c) p e @ rest"
  shows "\<exists>c'. QueryContext x query args c = Some (Inl err, c')
    \<and> settled_by x c [WritePrepareAndExecute sql (autoCommit c) (casInfo c)] rest c'"
  using QueryContext_ok [OF assms(1-4,6-8)] assms(5) by simp

theorem cancelled_query_leaks_handle_witness:
  "\<exists>c'. QueryContext \<lparr>ctxErr = \<lambda>k. if k < 2 then None else Some (ContextError ''context canceled''), ctxDeadline = None, ctxFires = FiresNever\<rparr>
      ''select 1'' [] (sample_conn [Chunk (query_answer 5 sample_prepare sample_execute)])
        = Some (Inl (ContextError ''context canceled''), c')
    \<and> sent_log c' = [WritePrepareAndExecute ''select 1'' True [0, 0, 0, 0]]"
proof -
  let ?c = "sample_conn [Chunk (query_answer 5 sample_prepare sample_execute)]"
  let ?x = "\<lparr>ctxErr = \<lambda>k. if k < 2 then None else Some (ContextError ''context canceled''), ctxDeadline = None, ctxFires = FiresNever\<rparr>"
  have q: "to_sql ''select 1'' [] ''select 1''" by (simp add: to_sql_def)
  have "answer_ok (protoVer ?c) sample_prepare sample_execute"
    "incoming ?c = query_answer (protoVer ?c) sample_prepare sample_execute @ []"
    using sample_answers by (simp_all add: sample_live)
  from cancelled_query_leaks_handle [where x = ?x, OF sample_live(1) _ _ _ _ q this] settled_by_log show ?thesis
    by fastforce
qed

end
