(* ===== verification/Cursor.thy ===== *)
theory Cursor
  imports Rows ConnSpec
begin

text \<open>
  The cursor of \<^verbatim>\<open>rows.go\<close> against the rows the server holds.  The abstract cursor is the list of rows
  still to be delivered; \<open>Next\<close> takes its head, whether the row is in the buffer or has to be fetched.
\<close>

section \<open>The abstract cursor\<close>

text \<open>The answers to FETCH that are coming, one for each batch of rows.\<close>

definition batch_img :: "int \<Rightarrow> ColumnMetaData list \<Rightarrow> row_msg list \<Rightarrow> byte list" where
  "batch_img st cols b = fetch_img [0, 0, 0, 0] 0 (st = StmtCallSP) cols b"

definition batch_ok :: "int \<Rightarrow> ColumnMetaData list \<Rightarrow> row_msg list \<Rightarrow> bool" where
  "batch_ok st cols b \<longleftrightarrow> b \<noteq> [] \<and> countable_list b \<and> (\<forall>r\<in>set b. row_ok (st = StmtCallSP) cols r)
     \<and> framed_ok (batch_img st cols b)"

definition batches_img :: "int \<Rightarrow> ColumnMetaData list \<Rightarrow> row_msg list list \<Rightarrow> byte list" where
  "batches_img st cols bs = concat (map (response \<circ> batch_img st cols) bs)"

definition rows_left :: "rows \<Rightarrow> row_msg list list \<Rightarrow> Value list list" where
  "rows_left r bs = drop (rBufferOffset r) (rBufferedRows r) @ map row_val (concat bs)"

text \<open>The cursor and the connection agree with the batches the server will send.\<close>

definition cursor_ok :: "rows \<Rightarrow> conn \<Rightarrow> row_msg list list \<Rightarrow> byte list \<Rightarrow> bool" where
  "cursor_ok r c bs rest \<longleftrightarrow> \<not> rClosed r \<and> rColumns r \<noteq> [] \<and> live c
     \<and> (\<forall>b\<in>set bs. batch_ok (rStmtType r) (rColumns r) b)
     \<and> incoming c = batches_img (rStmtType r) (rColumns r) bs @ rest
     \<and> rTotalCount r = rFetchedCount r + int (length (concat bs))
     \<and> (rExhausted r \<longleftrightarrow> bs = [])"

text \<open>The requests for the batches: each asks from the row after those already fetched.\<close>

fun fetch_requests :: "int \<Rightarrow> int \<Rightarrow> int \<Rightarrow> byte list \<Rightarrow> row_msg list list \<Rightarrow> byte list list" where
  "fetch_requests qh n sz cas [] = []"
| "fetch_requests qh n sz cas (b # bs) = WriteFetch qh n sz cas # fetch_requests qh (n + int (length b)) sz cas bs"

lemma fetch_batch:
  assumes "live c" and "incoming c = response (batch_img st cols b) @ rest" and "batch_ok st cols b"
    and "cols \<noteq> []"
  shows "\<exists>c'. bindM (sendAndRecv req) (\<lambda>resp. parsed (ParseFetch resp cols st)) c
      = Some (Inr \<lparr>frTupleCount = int (length b), frRows = map row_val b\<rparr>, c')
    \<and> exchanged c [req] rest c'"
proof -
  obtain c' where c': "sendAndRecv req c = Some (Inr (batch_img st cols b), c')" "exchanged c [req] rest c'"
    using sendAndRecv_ok [OF assms(1,2)] assms(3) by (auto simp: batch_ok_def)
  have "ParseFetch (batch_img st cols b) cols st
      = Some (Inr \<lparr>frTupleCount = int (length b), frRows = map row_val b\<rparr>)"
    unfolding batch_img_def using ParseFetch_img [of "[0, 0, 0, 0]" 0 b st cols] assms(3,4)
    by (simp add: batch_ok_def)
  then show ?thesis using c' by (simp add: bindM_simps parsed_def)
qed

section \<open>One step\<close>

text \<open>The step relation between the concrete cursor and the list of rows left.\<close>

lemma Next_end:
  assumes "cursor_ok r c bs rest" and "rows_left r bs = []"
  shows "Next dest r c = Some ((Some IoEOF, dest), r, c)"
proof (cases bs)
  case Nil
  then show ?thesis using assms by (simp add: Next_def cursor_ok_def rows_left_def)
next
  case (Cons b bs')
  then have "b \<noteq> []" using assms(1) by (simp add: cursor_ok_def batch_ok_def)
  with Cons assms(2) show ?thesis by (simp add: rows_left_def)
qed

lemma Next_buffered:
  assumes "\<not> rClosed r" and "rBufferOffset r < length (rBufferedRows r)"
  shows "Next dest r c = Some ((None, fill dest (rBufferedRows r ! rBufferOffset r)),
    r\<lparr>rBufferOffset := rBufferOffset r + 1\<rparr>, c)"
  using assms by (simp add: Next_def fillDest_def)

text \<open>The cursor after a batch has been fetched and its first row delivered.\<close>

definition refilled :: "rows \<Rightarrow> row_msg list \<Rightarrow> row_msg list list \<Rightarrow> rows" where
  "refilled r b bs = r\<lparr>rBufferedRows := map row_val b, rBufferOffset := 1,
     rFetchedCount := rFetchedCount r + int (length b), rExhausted := (bs = [])\<rparr>"

lemma batches_empty: "\<forall>b\<in>set bs. batch_ok st cols b \<Longrightarrow> concat bs = [] \<longleftrightarrow> bs = []"
  by (cases bs) (auto simp: batch_ok_def)

lemma Next_fetch:
  assumes "cursor_ok r c (b # bs) rest" and "length (rBufferedRows r) \<le> rBufferOffset r"
  shows "\<exists>c'. Next dest r c = Some ((None, fill dest (row_val (hd b))), refilled r b bs, c')
    \<and> exchanged c [WriteFetch (rQueryHandle r) (rFetchedCount r) (rFetchSize r) (casInfo c)]
        (batches_img (rStmtType r) (rColumns r) bs @ rest) c'"
proof -
  note ok = assms(1) [unfolded cursor_ok_def]
  let ?req = "WriteFetch (rQueryHandle r) (rFetchedCount r) (rFetchSize r) (casInfo c)"
  have "incoming c = response (batch_img (rStmtType r) (rColumns r) b)
      @ (batches_img (rStmtType r) (rColumns r) bs @ rest)"
    using ok by (simp add: batches_img_def)
  from fetch_batch [OF _ this, of ?req] ok obtain c' where
    c': "bindM (sendAndRecv ?req) (\<lambda>resp. parsed (ParseFetch resp (rColumns r) (rStmtType r))) c
      = Some (Inr \<lparr>frTupleCount = int (length b), frRows = map row_val b\<rparr>, c')"
    "exchanged c [?req] (batches_img (rStmtType r) (rColumns r) bs @ rest) c'" by auto
  obtain m ms where b: "b = m # ms" using ok by (cases b) (auto simp: batch_ok_def)
  have ex: "rTotalCount r \<le> rFetchedCount r + int (length b) \<longleftrightarrow> bs = []"
    using ok batches_empty [of bs "rStmtType r" "rColumns r"] by auto
  have "Next dest r c = Some ((None, fill dest (row_val (hd b))), refilled r b bs, c')"
    using assms(2) ok c'(1) ex
    by (simp add: Next_def Let_def b index_def fillDest_def refilled_def)
  with c'(2) show ?thesis by blast
qed

text \<open>Both cases together: the cursor moves to the rest of its rows, and the requests sent so far plus the
  requests still due are the same list.\<close>

definition due :: "rows \<Rightarrow> conn \<Rightarrow> row_msg list list \<Rightarrow> byte list list" where
  "due r c bs = sent_log c @ fetch_requests (rQueryHandle r) (rFetchedCount r) (rFetchSize r) (casInfo c) bs"

lemma Next_step:
  assumes "cursor_ok r c bs rest" and "rows_left r bs = row # left"
  shows "\<exists>r' c' bs'. Next dest r c = Some ((None, fill dest row), r', c') \<and> cursor_ok r' c' bs' rest
    \<and> rows_left r' bs' = left \<and> settings c' = settings c \<and> due r' c' bs' = due r c bs"
proof (cases "rBufferOffset r < length (rBufferedRows r)")
  case True
  let ?r = "r\<lparr>rBufferOffset := rBufferOffset r + 1\<rparr>"
  have d: "drop (rBufferOffset r) (rBufferedRows r)
      = rBufferedRows r ! rBufferOffset r # drop (rBufferOffset r + 1) (rBufferedRows r)"
    using True by (simp add: Cons_nth_drop_Suc)
  then have "row = rBufferedRows r ! rBufferOffset r" "rows_left ?r bs = left"
    using assms(2) by (simp_all add: rows_left_def)
  moreover have "cursor_ok ?r c bs rest" "due ?r c bs = due r c bs"
    using assms(1) by (simp_all add: cursor_ok_def due_def)
  ultimately show ?thesis
    using Next_buffered [of r dest c] True assms(1) by (auto simp: cursor_ok_def)
next
  case False
  then have "map row_val (concat bs) = row # left"
    using assms(2) by (simp add: rows_left_def)
  then obtain b bs' where bs: "bs = b # bs'" by (cases bs) auto
  moreover from bs assms(1) have "b \<noteq> []" by (simp add: cursor_ok_def batch_ok_def)
  ultimately have row: "row_val (hd b) = row" "map row_val (tl b) @ map row_val (concat bs') = left"
    using \<open>map row_val (concat bs) = row # left\<close> by (cases b; simp)+
  from Next_fetch [OF assms(1) [unfolded bs]] False obtain c' where
    n: "Next dest r c = Some ((None, fill dest (row_val (hd b))), refilled r b bs', c')"
    and x: "exchanged c [WriteFetch (rQueryHandle r) (rFetchedCount r) (rFetchSize r) (casInfo c)]
        (batches_img (rStmtType r) (rColumns r) bs' @ rest) c'" by fastforce
  note e = exchangedD [OF x]
  have "cursor_ok (refilled r b bs') c' bs' rest"
    using assms(1) e(1,2) by (simp add: cursor_ok_def refilled_def bs)
  moreover have "rows_left (refilled r b bs') bs' = left"
    using row(2) by (simp add: rows_left_def refilled_def drop_map drop_Suc)
  moreover have "due (refilled r b bs') c' bs' = due r c bs"
    using e(3,7) by (simp add: due_def refilled_def bs)
  ultimately show ?thesis using n row(1) e(9) by blast
qed

section \<open>Reading to the end\<close>

text \<open>\<open>n\<close> calls of \<open>Next\<close> that all succeed, with the destinations they filled.\<close>

fun drain :: "nat \<Rightarrow> Value list \<Rightarrow> rows \<Rightarrow> conn \<Rightarrow> (Value list list \<times> rows \<times> conn) option" where
  "drain 0 dest r c = Some ([], r, c)"
| "drain (Suc n) dest r c =
     (case Next dest r c of
        Some ((None, row), r', c') \<Rightarrow>
          (case drain n dest r' c' of
             Some (rows, s) \<Rightarrow> Some (row # rows, s)
           | None \<Rightarrow> None)
      | _ \<Rightarrow> None)"

lemma drain_all:
  assumes "cursor_ok r c bs rest"
  shows "\<exists>r' c'. drain (length (rows_left r bs)) dest r c = Some (map (fill dest) (rows_left r bs), r', c')
    \<and> Next dest r' c' = Some ((Some IoEOF, dest), r', c') \<and> incoming c' = rest
    \<and> settings c' = settings c \<and> sent_log c' = due r c bs"
  using assms
proof (induction "rows_left r bs" arbitrary: r c bs)
  case Nil
  then have e: "rows_left r bs = []" by simp
  have "bs = []"
    using e Nil.prems batches_empty [of bs "rStmtType r" "rColumns r"] by (auto simp: rows_left_def cursor_ok_def)
  then have "incoming c = rest" "sent_log c = due r c bs"
    using Nil.prems by (simp_all add: cursor_ok_def batches_img_def due_def)
  with Next_end [OF Nil.prems e] show ?case by (simp add: e)
next
  case (Cons row left)
  from Next_step [OF Cons.prems Cons.hyps(2) [symmetric], of dest] obtain r1 c1 bs1 where
    1: "Next dest r c = Some ((None, fill dest row), r1, c1)" and ok: "cursor_ok r1 c1 bs1 rest"
    and l: "rows_left r1 bs1 = left" and s: "settings c1 = settings c" "due r1 c1 bs1 = due r c bs" by blast
  from Cons.hyps(1) [OF l [symmetric] ok] obtain r' c' where
    2: "drain (length (rows_left r1 bs1)) dest r1 c1 = Some (map (fill dest) (rows_left r1 bs1), r', c')"
    "Next dest r' c' = Some ((Some IoEOF, dest), r', c')" "incoming c' = rest"
    "settings c' = settings c1" "sent_log c' = due r1 c1 bs1" by blast
  then show ?case
    using 1 s unfolding Cons.hyps(2) [symmetric] l by (intro exI [of _ r'] exI [of _ c']) simp
qed

lemma fill_same: "length dest = length row \<Longrightarrow> fill dest row = row"
  by (induction dest row rule: fill.induct) simp_all

text \<open>The cursor of a fresh query fits, when the server's total counts the rows it will send.\<close>

lemma newRows_cursor:
  assumes "live c" and "pmColumns p \<noteq> []"
    and "\<forall>b\<in>set bs. batch_ok (uint (pmStmt p)) (map fst (pmColumns p)) b"
    and "incoming c = batches_img (uint (pmStmt p)) (map fst (pmColumns p)) bs @ rest"
    and "sint (emTotal e) = int (length (fetched e)) + int (length (concat bs))"
    and "fetched e = [] \<longrightarrow> bs = []"
  shows "cursor_ok (newRows (pae_result p e)) c bs rest"
    and "rows_left (newRows (pae_result p e)) bs = fetched e @ map row_val (concat bs)"
proof -
  have "concat bs = [] \<longleftrightarrow> bs = []" using batches_empty assms(3) by blast
  then show "cursor_ok (newRows (pae_result p e)) c bs rest"
    using assms by (auto simp: cursor_ok_def newRows_def pae_result_def)
  show "rows_left (newRows (pae_result p e)) bs = fetched e @ map row_val (concat bs)"
    by (simp add: rows_left_def newRows_def pae_result_def)
qed

section \<open>Properties\<close>

lemma row_val_length: "row_ok isCall cols m \<Longrightarrow> length (row_val m) = length cols"
  by (cases m) (auto simp: row_ok_def row_val_def dest: list_all2_lengthD)

text \<open>C1: A query delivers exactly the rows of the server, in order, then the end.  When the server answers
  the query with the first rows and each FETCH with the next batch, repeated \<open>Next\<close> on the cursor of
  \<open>QueryContext\<close> yields every row once and unchanged, then \<open>io.EOF\<close>; the requests are the query and one
  FETCH for each batch, each from the row after the last, and the answers are consumed exactly.\<close>

theorem query_delivers_all_rows:
  assumes "live c" and "\<not> closed c" and "\<forall>k. ctxErr x k = None" and "to_sql query args sql"
    and "answer_ok (protoVer c) p e" and "pmColumns p \<noteq> []" and "uint (pmStmt p) = StmtSelect"
    and "\<forall>b\<in>set bs. batch_ok (uint (pmStmt p)) (map fst (pmColumns p)) b"
    and "incoming c = query_answer (protoVer c) p e @ batches_img (uint (pmStmt p)) (map fst (pmColumns p)) bs @ rest"
    and "sint (emTotal e) = int (length (fetched e)) + int (length (concat bs))"
    and "fetched e = [] \<longrightarrow> bs = []" and "length dest = length (pmColumns p)"
  defines "all_rows \<equiv> fetched e @ map row_val (concat bs)"
  shows "\<exists>r c1 r' c2. QueryContext x query args c = Some (Inr r, c1)
    \<and> drain (length all_rows) dest r c1 = Some (all_rows, r', c2)
    \<and> Next dest r' c2 = Some ((Some IoEOF, dest), r', c2) \<and> incoming c2 = rest
    \<and> sent_log c2 = sent_log c @ WritePrepareAndExecute sql (autoCommit c) (casInfo c)
        # fetch_requests (sint (pmHandle p)) (int (length (fetched e))) 100 (casInfo c) bs"
proof -
  let ?req = "WritePrepareAndExecute sql (autoCommit c) (casInfo c)"
  let ?r = "newRows (pae_result p e)"
  have ctx: "ctxErr x 0 = None" "ctxErr x 1 = None" "ctxErr x 2 = None" using assms(3) by simp_all
  have quiet: "settled_by x = settled" by (rule settled_by_quiet) (use assms(3) in simp)
  from QueryContext_ok [OF assms(1,2) ctx(1,2) assms(4,5,9), unfolded quiet] ctx(3) obtain c1 where
    q: "QueryContext x query args c = Some (Inr ?r, c1)"
    and "settled c [?req] (batches_img (uint (pmStmt p)) (map fst (pmColumns p)) bs @ rest) c1" by auto
  then have l: "live c1" and i: "incoming c1 = batches_img (uint (pmStmt p)) (map fst (pmColumns p)) bs @ rest"
    and set: "settings c1 = settings c" and log: "sent_log c1 = sent_log c @ [?req]"
    by (simp_all add: settled_def)
  note cur = newRows_cursor [OF l assms(6,8) i assms(10,11)]
  from drain_all [OF cur(1), of dest] obtain r' c2 where
    d: "drain (length (rows_left ?r bs)) dest ?r c1 = Some (map (fill dest) (rows_left ?r bs), r', c2)"
    "Next dest r' c2 = Some ((Some IoEOF, dest), r', c2)" "incoming c2 = rest" "sent_log c2 = due ?r c1 bs"
    by blast
  have w1: "length row = length (pmColumns p)" if "row \<in> set (fetched e)" for row
    using that assms(5) row_val_length [of False "map fst (pmColumns p)"]
    by (auto simp: fetched_def answer_ok_def execute_ok_def split: option.splits)
  have w2: "length (row_val m) = length (pmColumns p)" if "m \<in> set b" "b \<in> set bs" for m b
    using that assms(8) row_val_length [of "uint (pmStmt p) = StmtCallSP" "map fst (pmColumns p)" m]
    by (auto simp: batch_ok_def)
  have "map (fill dest) all_rows = all_rows"
    by (rule map_idI) (use w1 w2 assms(12) in \<open>auto simp: all_rows_def intro: fill_same\<close>)
  moreover have "due ?r c1 bs = sent_log c @ ?req
      # fetch_requests (sint (pmHandle p)) (int (length (fetched e))) 100 (casInfo c) bs"
    using log settings_eqD [OF set] by (simp add: due_def newRows_def pae_result_def defaultFetchSize_def)
  ultimately show ?thesis
    using q d cur(2) by (intro exI [of _ ?r] exI [of _ c1] exI [of _ r'] exI [of _ c2]) (simp add: all_rows_def)
qed

definition sample_batch :: "row_msg list" where
  "sample_batch = [(3, replicate 8 0, [CData TypeInt (DInt 43)])]"

lemma sample_batch_ok: "batch_ok 21 [sample_column] sample_batch"
  by (simp add: batch_ok_def sample_batch_def countable_list_def row_ok_def sample_column_def be32_def
      framed_ok_def batch_img_def fetch_img_def rows_img_def row_img_def)

theorem query_delivers_all_rows_witness:
  "\<exists>r c1 r' c2. QueryContext background ''select id from t'' []
      (sample_conn [Chunk (query_answer 5 sample_prepare (sample_execute\<lparr>emTotal := 3\<rparr>)),
        Chunk (batches_img 21 [sample_column] [sample_batch])]) = Some (Inr r, c1)
    \<and> drain 3 [VNil] r c1 = Some ([[VInt64 42], [VNil], [VInt64 43]], r', c2)
    \<and> Next [VNil] r' c2 = Some ((Some IoEOF, [VNil]), r', c2)
    \<and> sent_log c2 = [WritePrepareAndExecute ''select id from t'' True [0, 0, 0, 0], WriteFetch 3 2 100 [0, 0, 0, 0]]"
proof -
  let ?e = "sample_execute\<lparr>emTotal := 3\<rparr>"
  let ?c = "sample_conn [Chunk (query_answer 5 sample_prepare ?e),
      Chunk (batches_img 21 [sample_column] [sample_batch])]"
  have q: "to_sql ''select id from t'' [] ''select id from t''" by (simp add: to_sql_def)
  have cols: "map fst (pmColumns sample_prepare) = [sample_column]" "pmColumns sample_prepare \<noteq> []"
      "length (pmColumns sample_prepare) = 1"
    by (simp_all add: sample_prepare_def)
  have a: "answer_ok (protoVer ?c) sample_prepare ?e"
    using sample_answers(1) by (simp add: answer_ok_def execute_ok_def framed_ok_def pae_img_def execute_tail_def)
  have f: "fetched ?e = [[VInt64 42], [VNil]]" "sint (emTotal ?e) = 3"
    "map row_val sample_batch = [[VInt64 43]]" "length sample_batch = Suc 0"
    by (simp_all add: fetched_def sample_execute_def row_val_def sample_batch_def)
  have i: "incoming ?c = query_answer (protoVer ?c) sample_prepare ?e
      @ batches_img (uint (pmStmt sample_prepare)) (map fst (pmColumns sample_prepare)) [sample_batch] @ []"
    by (simp add: sample_live sample_values cols)
  from query_delivers_all_rows [where x = background and dest = "[VNil]" and bs = "[sample_batch]",
      OF sample_live(1) _ _ q a cols(2) _ _ i] sample_batch_ok
  show ?thesis by (simp add: f cols sample_values numeral_3_eq_3 del: drain.simps) blast
qed

text \<open>C26: A dropped connection looks like the end of the result.  When the peer closes the connection
  while rows are still to be fetched, \<open>Next\<close> returns \<open>io.EOF\<close>, the very value that ends a result set, and
  does not mark the connection bad; the rows not delivered are lost silently.\<close>

theorem dropped_connection_looks_like_end:
  assumes "\<not> rClosed r" and "length (rBufferedRows r) \<le> rBufferOffset r" and "\<not> rExhausted r"
    and "live c" and "incoming c = []" and "net_failure c = IoEOF"
  shows "\<exists>c'. Next dest r c = Some ((Some IoEOF, dest), r, c') \<and> settings c' = settings c"
proof -
  let ?req = "WriteFetch (rQueryHandle r) (rFetchedCount r) (rFetchSize r) (casInfo c)"
  obtain c' where c': "sendAndRecv ?req c = Some (Inl IoEOF, c')" "exchanged c [?req] (later c) c'"
    using sendAndRecv_short [OF assms(4), of ?req] assms(5,6) by (auto simp: short_read_def)
  have "Next dest r c = Some ((Some IoEOF, dest), r, c')"
    using c'(1) assms(1-3) by (simp add: Next_def Let_def bindM_simps)
  then show ?thesis using exchangedD(9) [OF c'(2)] by blast
qed

theorem dropped_connection_looks_like_end_witness:
  "\<exists>c'. Next [VNil] ((newRows (pae_result sample_prepare sample_execute))
      \<lparr>rBufferOffset := 2, rTotalCount := 1000, rExhausted := False\<rparr>) (sample_conn [])
    = Some ((Some IoEOF, [VNil]), (newRows (pae_result sample_prepare sample_execute))
      \<lparr>rBufferOffset := 2, rTotalCount := 1000, rExhausted := False\<rparr>, c')"
proof -
  let ?r = "(newRows (pae_result sample_prepare sample_execute))
      \<lparr>rBufferOffset := 2, rTotalCount := 1000, rExhausted := False\<rparr>"
  have "\<not> rClosed ?r" "length (rBufferedRows ?r) \<le> rBufferOffset ?r" "\<not> rExhausted ?r"
    by (simp_all add: newRows_def pae_result_def fetched_def sample_execute_def)
  from dropped_connection_looks_like_end [OF this, of "sample_conn []" "[VNil]"] show ?thesis
    by (auto simp: sample_live)
qed

text \<open>A FETCH answer that announces a negative number of rows crashes the caller: \<open>Next\<close> indexes an
  empty batch.\<close>

theorem negative_fetch_count_panics:
  assumes "\<not> rClosed r" and "length (rBufferedRows r) \<le> rBufferOffset r" and "\<not> rExhausted r" and "live c"
    and "length cas = 4" and "sint n < 0" and "incoming c = response (cas @ be32 0 @ be32 n) @ rest"
  shows "Next dest r c = None"
proof -
  let ?data = "cas @ be32 0 @ be32 n"
  have "framed_ok ?data" using assms(5) by (simp add: framed_ok_def)
  from sendAndRecv_ok [OF assms(4,7) this] obtain c' where
    c': "sendAndRecv (WriteFetch (rQueryHandle r) (rFetchedCount r) (rFetchSize r) (casInfo c)) c
      = Some (Inr ?data, c')" by blast
  have "ParseFetch ?data (rColumns r) (rStmtType r) = Some (Inr \<lparr>frTupleCount = sint n, frRows = []\<rparr>)"
    using assms(5,6) by (simp add: ParseFetch_def wire_simps Let_def)
  then show ?thesis
    using c' assms(1-3,6) by (simp add: Next_def Let_def bindM_simps parsed_def index_def)
qed

theorem negative_fetch_count_panics_witness:
  "Next [VNil] ((newRows (pae_result sample_prepare sample_execute)) \<lparr>rBufferOffset := 2, rExhausted := False\<rparr>)
     (sample_conn [Chunk (response ([0, 0, 0, 0] @ be32 0 @ be32 (-1)))]) = None"
proof -
  let ?r = "(newRows (pae_result sample_prepare sample_execute)) \<lparr>rBufferOffset := 2, rExhausted := False\<rparr>"
  have "\<not> rClosed ?r" "length (rBufferedRows ?r) \<le> rBufferOffset ?r" "\<not> rExhausted ?r"
    by (simp_all add: newRows_def pae_result_def fetched_def sample_execute_def)
  from negative_fetch_count_panics [OF this sample_live(1), of "[0, 0, 0, 0]" "-1"] show ?thesis
    by (simp add: sample_live)
qed

text \<open>C28: A cursor closes its handle at most once, and only when it owns it: the first \<open>Close\<close> sends one
  CLOSE exactly for an owned handle, a second \<open>Close\<close> does nothing, and a closed cursor is at its end.\<close>

theorem rows_close_once:
  assumes "\<not> rClosed r" and "live c" and "acknowledges a"
    and "incoming c = (if rCloseHandle r then close_answers (rQueryHandle r) a else []) @ rest"
  shows "\<exists>r' c'. rows_Close r c = Some (r', c')
    \<and> exchanged c (if rCloseHandle r then close_requests (casInfo c) (rQueryHandle r) else []) rest c'
    \<and> rows_Close r' c' = Some (r', c') \<and> Next dest r' c' = Some ((Some IoEOF, dest), r', c')"
proof (cases "rCloseHandle r \<and> rQueryHandle r > 0")
  case True
  then have "incoming c = response a @ rest" using assms(4) by (simp add: close_answers_def)
  from closeQueryHandle_ok [OF assms(2) this assms(3)] obtain c' where
    "closeQueryHandle (rQueryHandle r) c = Some c'"
    "exchanged c [WriteCloseReqHandle (rQueryHandle r) (casInfo c)] rest c'" by blast
  then show ?thesis using assms(1) True
    by (auto simp: rows_Close_def Next_def close_requests_def)
next
  case False
  then have "incoming c = rest" using assms(4) by (auto simp: close_answers_def split: if_splits)
  then have "exchanged c [] rest c" using exchanged_refl [OF assms(2)] by simp
  then show ?thesis using assms(1) False
    by (auto simp: rows_Close_def Next_def close_requests_def)
qed

theorem rows_close_once_witness:
  "\<exists>r' c'. rows_Close (newRows (pae_result sample_prepare sample_execute)) (sample_conn [Chunk (response ack)]) = Some (r', c')
    \<and> sent_log c' = [WriteCloseReqHandle 3 [0, 0, 0, 0]] \<and> rows_Close r' c' = Some (r', c')"
proof -
  let ?r = "newRows (pae_result sample_prepare sample_execute)"
  have r: "\<not> rClosed ?r" "rCloseHandle ?r" "rQueryHandle ?r = 3"
    by (simp_all add: newRows_def pae_result_def sample_values)
  from rows_close_once [OF r(1) sample_live(1) sample_ack, of "[Chunk (response ack)]" "[]" "[]"]
  show ?thesis by (force simp: r(2,3) sample_live close_answers_def close_requests_def exchanged_def)
qed

section \<open>Termination\<close>






end
