(* ===== verification/Stmt.thy ===== *)
theory Stmt
  imports Rows
begin

text \<open>
  \<^verbatim>\<open>stmt.go\<close>: prepared statements.  With arguments a statement is interpolated and sent as a new
  query (FC=41); without, its own handle is executed (FC=3).
\<close>

definition stmt_Close :: "stmt \<Rightarrow> conn \<Rightarrow> (stmt \<times> conn) option" where
  "stmt_Close s c =
     (if sClosed s then Some (s, c)
      else let s = s\<lparr>sClosed := True\<rparr> in
        if sQueryHandle s > 0
        then (case closeQueryHandle (sQueryHandle s) c of
                None \<Rightarrow> None | Some c' \<Rightarrow> Some (s\<lparr>sQueryHandle := 0\<rparr>, c'))
        else Some (s, c))"

definition NumInput :: "stmt \<Rightarrow> int" where "NumInput s = sBindCount s"

definition LastInsertId :: "result \<Rightarrow> go_error + int64" where "LastInsertId r = Inr (lastInsertID r)"

definition RowsAffected :: "result \<Rightarrow> go_error + int64" where "RowsAffected r = Inr (rowsAffected r)"

text \<open>\<^verbatim>\<open>WriteExecute\<close> and \<^verbatim>\<open>ParseExecute\<close> on the statement's own handle.\<close>

definition executePrepared :: "stmt \<Rightarrow> ExecuteResult op" where
  "executePrepared s c =
     (let req = WriteExecute (sQueryHandle s) (sStmtType s) [] (autoCommit c) (casInfo c)
      in bindM (sendAndRecv req)
           (\<lambda>resp c. parsed (ParseExecute resp (sColumns s) (sStmtType s) (protoVer c)) c) c)"

definition execInterpolated :: "stmt \<Rightarrow> Value list \<Rightarrow> PrepareAndExecuteResult op" where
  "execInterpolated s args = bindM (parsed (InterpolateArgs (sQuery s) args)) execSQL"

definition Exec :: "Value list \<Rightarrow> stmt \<Rightarrow> result op" where
  "Exec args s c =
     (if sClosed s \<or> closed c then Some (Inl ErrBadConn, c)
      else bindM
        (if length args > 0
         then bindM (execInterpolated s args) (\<lambda>paeRes c.
                case closeIfPositive (paeQueryHandle paeRes) c of
                  None \<Rightarrow> None | Some c' \<Rightarrow> Some (Inr (paeResultInfos paeRes), c'))
         else bindM (executePrepared s) (\<lambda>res. returnM (erResultInfos res)))
        (\<lambda>infos c.
          case (if sStmtType s = StmtInsert then fetchLastInsertID c else Some (0, c)) of
            None \<Rightarrow> None
          | Some (lastID, c') \<Rightarrow>
              Some (Inr \<lparr>lastInsertID = lastID, rowsAffected = affectedRows infos\<rparr>, c')) c)"

definition stmt_rows :: "stmt \<Rightarrow> int \<Rightarrow> int \<Rightarrow> Value list list \<Rightarrow> ColumnMetaData list \<Rightarrow> int \<Rightarrow> bool \<Rightarrow> rows" where
  "stmt_rows s totalCount tupleCount fetchedRows columns qh ownsHandle =
     \<lparr>rQueryHandle = qh, rColumns = columns, rStmtType = sStmtType s, rTotalCount = totalCount,
      rFetchedCount = int (length fetchedRows), rBufferedRows = fetchedRows, rBufferOffset = 0,
      rExhausted = (tupleCount = 0 \<or> int (length fetchedRows) \<ge> totalCount),
      rFetchSize = defaultFetchSize, rClosed = False, rCloseHandle = ownsHandle\<rparr>"

definition Query :: "Value list \<Rightarrow> stmt \<Rightarrow> rows op" where
  "Query args s c =
     (if sClosed s \<or> closed c then Some (Inl ErrBadConn, c)
      else if length args > 0
        then bindM (execInterpolated s args) (\<lambda>paeRes. returnM
               (stmt_rows s (paeTotalTupleCount paeRes) (paeTupleCount paeRes) (paeRows paeRes)
                 (paeColumns paeRes) (paeQueryHandle paeRes) True)) c
        else bindM (executePrepared s) (\<lambda>res. returnM
               (stmt_rows s (erTotalTupleCount res) (erTupleCount res) (erRows res)
                 (sColumns s) (sQueryHandle s) False)) c)"

end
