(* ===== verification/Session.thy ===== *)
theory Session
  imports Cursor Stmt
begin

text \<open>
  A connection over its whole life: the step relation of all operations that touch it (its own
  methods, and those of the statements, cursors and transactions that point to it), of watchers that
  fire late and of the network, with the invariants that hold in every reachable state, and those that
  hold as long as no watcher fires late; and the transaction operations.
\<close>

section \<open>What the remaining operations keep\<close>

context io_relation begin

lemma keeps_Prepare: "keeps R (Prepare q)"
proof -
  have "keeps R (bindM (sendAndRecv req) (\<lambda>resp. bindM (parsed (ParsePrepare resp)) (\<lambda>res. returnM (f res))))"
    for req and f :: "PrepareResult \<Rightarrow> stmt"
    by (intro keeps_bind keeps_sendAndRecv keeps_return)
  then show ?thesis
    unfolding Prepare_def keeps_def Let_def by (auto simp: R_refl split: if_splits)
qed

lemma keeps_Ping: "keeps R Ping"
  unfolding keeps_def
proof (intro allI impI)
  fix c r c' assume run: "Ping c = Some (r, c')"
  show "R c c'"
  proof (cases "closed c")
    case True
    then show ?thesis using run R_refl by (simp add: Ping_def)
  next
    case False
    then obtain x c1 where x: "sendAndRecv (WriteGetDbVersion True (casInfo c)) c = Some (x, c1)"
      using run by (auto simp: Ping_def Let_def split: option.splits)
    note 1 = keepsD [OF keeps_sendAndRecv x]
    have "c' = c1"
      using run False x
      by (cases x) (auto simp: Ping_def bindM_def parsed_def returnM_def split: option.splits sum.splits)
    with 1 show ?thesis by simp
  qed
qed

lemma keeps_ServerVersion: "keeps R ServerVersion"
proof -
  have "keeps R (bindM (sendAndRecv req) (\<lambda>resp. parsed (ParseGetDbVersion resp)))" for req
    by (intro keeps_bind keeps_sendAndRecv keeps_return)
  then show ?thesis unfolding ServerVersion_def keeps_def Let_def by blast
qed

lemma keeps_rows_Close: "rows_Close r c = Some (r', c') \<Longrightarrow> R c c'"
  using keeps_closeQueryHandle R_refl
  by (auto simp: rows_Close_def Let_def split: if_splits option.splits)

lemma keeps_stmt_Close: "stmt_Close s c = Some (s', c') \<Longrightarrow> R c c'"
  using keeps_closeQueryHandle R_refl
  by (auto simp: stmt_Close_def Let_def split: if_splits option.splits)

lemma keeps_fetch: "keeps R (bindM (sendAndRecv req) (\<lambda>resp. parsed (ParseFetch resp cols st)))"
  by (intro keeps_bind keeps_sendAndRecv keeps_return)

lemma keeps_Next:
  assumes "Next dest r c = Some (out, r', c')"
  shows "R c c'"
proof (cases "rClosed r \<or> rBufferOffset r < length (rBufferedRows r) \<or> rExhausted r")
  case True
  then show ?thesis using assms R_refl
    by (auto simp: Next_def Let_def fillDest_def split: if_splits)
next
  case False
  then obtain x where
    "bindM (sendAndRecv (WriteFetch (rQueryHandle r) (rFetchedCount r) (rFetchSize r) (casInfo c)))
      (\<lambda>resp. parsed (ParseFetch resp (rColumns r) (rStmtType r))) c = Some (x, c')"
    using assms
    by (auto simp: Next_def Let_def fillDest_def split: option.splits sum.splits if_splits bind_splits)
  from keepsD [OF keeps_fetch this] show ?thesis .
qed

lemma keeps_executePrepared: "keeps R (executePrepared s)"
proof -
  have "keeps R (bindM (sendAndRecv req)
      (\<lambda>resp c. parsed (ParseExecute resp (sColumns s) (sStmtType s) (protoVer c)) c))" for req
    by (intro keeps_bind keeps_sendAndRecv keeps_parsed_at)
  then show ?thesis unfolding executePrepared_def keeps_def Let_def by blast
qed

lemma keeps_execInterpolated: "keeps R (execInterpolated s args)"
  unfolding execInterpolated_def by (intro keeps_bind keeps_return keeps_execSQL)

lemma keeps_Query: "keeps R (Query args s)"
proof -
  have "keeps R (bindM (execInterpolated s args) (\<lambda>res. returnM (f res)))"
      "keeps R (bindM (executePrepared s) (\<lambda>res. returnM (g res)))"
    for f :: "PrepareAndExecuteResult \<Rightarrow> rows" and g :: "ExecuteResult \<Rightarrow> rows"
    by (intro keeps_bind keeps_return keeps_execInterpolated keeps_executePrepared)+
  then show ?thesis unfolding Query_def keeps_def by (auto simp: R_refl split: if_splits)
qed

lemma keeps_Exec: "keeps R (Exec args s)"
proof -
  have close: "keeps R (\<lambda>c. case closeIfPositive qh c of None \<Rightarrow> None | Some c' \<Rightarrow> Some (Inr y, c'))"
    for qh and y :: "ResultInfo list"
    using keeps_closeIfPositive by (auto simp: keeps_def split: option.splits)
  have last: "keeps R (\<lambda>c. case (if b then fetchLastInsertID c else Some (0, c)) of None \<Rightarrow> None
      | Some (lastID, c') \<Rightarrow> Some (Inr \<lparr>lastInsertID = lastID, rowsAffected = n\<rparr>, c'))" for b n
    using keeps_fetchLastInsertID R_refl by (auto simp: keeps_def split: option.splits)
  have "keeps R (if length args > 0
         then bindM (execInterpolated s args) (\<lambda>paeRes c.
                case closeIfPositive (paeQueryHandle paeRes) c of
                  None \<Rightarrow> None | Some c' \<Rightarrow> Some (Inr (paeResultInfos paeRes), c'))
         else bindM (executePrepared s) (\<lambda>res. returnM (erResultInfos res)))"
    by (auto intro!: keeps_bind keeps_return keeps_execInterpolated keeps_executePrepared close)
  from keeps_bind [OF this last] show ?thesis
    unfolding Exec_def keeps_def by (auto simp: R_refl split: if_splits)
qed

lemma keeps_acknowledged: "keeps R (bindM (sendAndRecv req) (\<lambda>resp. parsed (ParseSimpleResponse resp)))"
  by (intro keeps_bind keeps_sendAndRecv keeps_return)

end

text \<open>The context operations, \<open>Begin\<close> and the end of a transaction, which also set a field.\<close>

lemma endTran_cases:
  assumes "endTran t c = Some (r, c')"
  shows "\<exists>c1. (\<exists>r1. bindM (sendAndRecv (WriteEndTran t (casInfo c))) (\<lambda>resp. parsed (ParseSimpleResponse resp)) c
      = Some (r1, c1)) \<and> (c' = c1 \<and> (\<exists>e. r = Inl e) \<or> c' = c1\<lparr>autoCommit := True\<rparr> \<and> r = Inr ())"
  using assms
  by (auto simp: endTran_def Let_def bindM_def parsed_def split: option.splits sum.splits prod.splits)

section \<open>Sessions\<close>

text \<open>
  The flag of an event tells whether a watcher fires outside the operation that started it: in
  \<open>QueryContext\<close> and \<open>ExecContext\<close> after the deferred reset, or at any time after they have returned,
  between two later events (here also when no operation with a watcher came before, which only adds
  runs).  The methods of \<^verbatim>\<open>rows.go\<close> take no mutex; a caller that does not serialise
  them itself, as \<^verbatim>\<open>database/sql\<close> does, interleaves their single writes and reads with the other
  operations, so these are events of their own too.
\<close>

inductive session_event :: "bool \<Rightarrow> conn \<Rightarrow> conn \<Rightarrow> bool" where
  prepare: "Prepare q c = Some (r, c') \<Longrightarrow> session_event False c c'"
| query_context: "QueryContext x q args c = Some (r, c') \<Longrightarrow> session_event (watch_deadline x \<noteq> None) c c'"
| exec_context: "ExecContext x q args c = Some (r, c') \<Longrightarrow> session_event (watch_deadline x \<noteq> None) c c'"
| begin_tran: "Begin c = Some (r, c') \<Longrightarrow> session_event False c c'"
| begin_tx: "BeginTx x c = Some (r, c') \<Longrightarrow> session_event False c c'"
| commit: "Commit c = Some (r, c') \<Longrightarrow> session_event False c c'"
| rollback: "Rollback c = Some (r, c') \<Longrightarrow> session_event False c c'"
| ping: "Ping c = Some (r, c') \<Longrightarrow> session_event False c c'"
| server_version: "ServerVersion c = Some (r, c') \<Longrightarrow> session_event False c c'"
| close: "session_event False c (Close c)"
| next_row: "Next dest rs c = Some (out, rs', c') \<Longrightarrow> session_event False c c'"
| rows_close: "rows_Close rs c = Some (rs', c') \<Longrightarrow> session_event False c c'"
| rows_write: "send (WriteFetch qh k n (casInfo c)) c = Some (r, c')
    \<or> send (WriteCloseReqHandle qh (casInfo c)) c = Some (r, c') \<Longrightarrow> session_event False c c'"
| rows_read: "read_exact n c = Some (r, c') \<Longrightarrow> session_event False c c'"
| stmt_exec: "Exec vs s c = Some (r, c') \<Longrightarrow> session_event False c c'"
| stmt_query: "Query vs s c = Some (r, c') \<Longrightarrow> session_event False c c'"
| stmt_close: "stmt_Close s c = Some (s', c') \<Longrightarrow> session_event False c c'"
| late_watcher: "session_event True c (fireDeadline now c)"
| network: "cSocket c = Some sock \<Longrightarrow> session_event False c
     (c\<lparr>cSocket := Some (sock\<lparr>inbox := inbox sock @ es, outcomes := outcomes sock @ os\<rparr>)\<rparr>)"

definition session_step :: "conn \<Rightarrow> conn \<Rightarrow> bool" where
  "session_step c c' \<longleftrightarrow> (\<exists>late. session_event late c c')"

lemma session_stepI: "session_event late c c' \<Longrightarrow> session_step c c'"
  by (auto simp: session_step_def)

text \<open>The fields that name the session; only \<open>autoCommit\<close> and \<open>closed\<close> may change besides the socket.\<close>

definition identity :: "conn \<Rightarrow> conn" where
  "identity c = c\<lparr>cSocket := None, autoCommit := True, closed := False\<rparr>"

definition evolves :: "conn \<Rightarrow> conn \<Rightarrow> bool" where
  "evolves c c' \<longleftrightarrow> prefix (sent_log c) (sent_log c') \<and> identity c' = identity c
     \<and> (cSocket c' = None \<longleftrightarrow> cSocket c = None) \<and> (closed c \<longrightarrow> closed c')
     \<and> (is_open c' \<longrightarrow> is_open c)"

definition session_ok :: "conn \<Rightarrow> bool" where
  "session_ok c \<longleftrightarrow> cSocket c \<noteq> None \<and> (closed c \<longleftrightarrow> \<not> is_open c)
     \<and> length (casInfo c) = SizeCASInfo"

lemma evolves_refl: "evolves c c"
  by (simp add: evolves_def)

lemma evolves_trans: "evolves a b \<Longrightarrow> evolves b c \<Longrightarrow> evolves a c"
  by (auto simp: evolves_def intro: prefix_order.trans)

text \<open>The operations that keep all settings.\<close>

definition quiet :: "conn \<Rightarrow> conn \<Rightarrow> bool" where
  "quiet c c' \<longleftrightarrow> settings c' = settings c \<and> grows c c' \<and> inert c c'"

interpretation quiet: io_relation quiet
proof
  fix a b c assume "quiet a b" "quiet b c"
  then show "quiet a c"
    unfolding quiet_def using log.R_trans [of a b c] inert.R_trans [of a b c] by auto
qed (auto simp: quiet_def settings.R_write settings.R_read log.R_refl log.R_write log.R_read
    inert.R_refl inert.R_write inert.R_read)

lemma settings_identity: "settings c' = settings c \<Longrightarrow> identity c' = identity c"
  by (cases c; cases c') (simp add: settings_def identity_def)

lemma quiet_evolves: "quiet c c' \<Longrightarrow> evolves c c'"
  using settings_identity [of c' c] settings_eqD [of c' c] by (simp add: quiet_def evolves_def grows_def)

lemma quiet_ok: "quiet c c' \<Longrightarrow> session_ok c \<Longrightarrow> session_ok c'"
  using settings_eqD [of c' c] by (auto simp: quiet_def session_ok_def grows_def)

text \<open>A closed connection does not change at all.\<close>

definition good_step :: "conn \<Rightarrow> conn \<Rightarrow> bool" where
  "good_step c c' \<longleftrightarrow> evolves c c' \<and> session_ok c' \<and> (deadline_of c = None \<longrightarrow> deadline_of c' = None)
     \<and> (closed c \<longrightarrow> sent_log c' = sent_log c \<and> incoming c' = incoming c)"

text \<open>The same, with a deadline allowed when a watcher fires late.\<close>

definition event_ok :: "bool \<Rightarrow> conn \<Rightarrow> conn \<Rightarrow> bool" where
  "event_ok late c c' \<longleftrightarrow> evolves c c' \<and> session_ok c' \<and> (closed c \<longrightarrow> sent_log c' = sent_log c)
     \<and> (\<not> late \<and> deadline_of c = None \<longrightarrow> deadline_of c' = None)"

lemma good_event: "good_step c c' \<Longrightarrow> event_ok late c c'"
  by (simp add: good_step_def event_ok_def)

lemma quiet_good: "session_ok c \<Longrightarrow> quiet c c' \<Longrightarrow> good_step c c'"
  using quiet_evolves [of c c'] quiet_ok [of c c'] by (auto simp: good_step_def quiet_def inert_def session_ok_def grows_def)

lemma keeps_good: "session_ok c \<Longrightarrow> keeps quiet m \<Longrightarrow> m c = Some (r, c') \<Longrightarrow> good_step c c'"
  by (rule quiet_good) (auto dest: keepsD)

lemma set_autoCommit_good: "good_step c c1 \<Longrightarrow> \<not> closed c \<Longrightarrow> good_step c (c1\<lparr>autoCommit := b\<rparr>)"
  by (auto simp: good_step_def evolves_def session_ok_def identity_def sent_log_def is_open_def deadline_of_def)

lemma endTran_good:
  assumes "session_ok c" and "endTran t c = Some (r, c')"
  shows "good_step c c'"
proof -
  obtain c1 r1 where
    1: "bindM (sendAndRecv (WriteEndTran t (casInfo c))) (\<lambda>resp. parsed (ParseSimpleResponse resp)) c = Some (r1, c1)"
    and c': "c' = c1 \<or> c' = c1\<lparr>autoCommit := True\<rparr> \<and> r = Inr ()"
    using endTran_cases [OF assms(2)] by blast
  have good: "good_step c c1" by (rule keeps_good [OF assms(1) quiet.keeps_acknowledged 1])
  show ?thesis
  proof (cases "closed c")
    case False
    then show ?thesis using good c' set_autoCommit_good by blast
  next
    case True
    then obtain s where "cSocket c = Some s" "\<not> opened s"
      using assms(1) by (auto simp: session_ok_def is_open_def split: option.splits)
    then have "endTran t c = Some (Inl errClosed, c\<lparr>cSocket := Some s\<rparr>)"
      by (simp add: endTran_def sendAndRecv_def send_def sock_write_def bindM_def)
    with \<open>cSocket c = Some s\<close> assms(2) have "r = Inl errClosed" by simp
    with good c' show ?thesis by auto
  qed
qed

text \<open>An operation under a context moves the deadline there and back.\<close>

definition mild :: "conn \<Rightarrow> conn \<Rightarrow> bool" where
  "mild c c' \<longleftrightarrow> evolves c c' \<and> grows c c' \<and> closed c' = closed c"

definition still :: "conn \<Rightarrow> conn \<Rightarrow> bool" where
  "still c c' \<longleftrightarrow> settings c' = settings c \<and> sent_log c' = sent_log c \<and> is_open c' = is_open c
     \<and> (cSocket c' = None \<longleftrightarrow> cSocket c = None)"

lemma still_setDeadline: "still c (snd (setDeadline d c))"
  by (auto simp: still_def setDeadline_def sock_set_deadline_def settings_def sent_log_def is_open_def
      split: option.splits)

lemma still_refl: "still c c"
  by (simp add: still_def)

lemma still_trans: "still a b \<Longrightarrow> still b c \<Longrightarrow> still a c"
  by (simp add: still_def)

lemma still_apply: "applyContextDeadline x c = (r, c') \<Longrightarrow> still c c'"
  using still_setDeadline [of c]
  by (auto simp: applyContextDeadline_def split: option.splits)
    (auto simp: still_def, (metis snd_conv)+)

lemma still_evolves: "still c c' \<Longrightarrow> evolves c c' \<and> closed c' = closed c \<and> casInfo c' = casInfo c
    \<and> is_open c' = is_open c \<and> (cSocket c' = None \<longleftrightarrow> cSocket c = None)"
  using settings_identity [of c' c] settings_eqD [of c' c] by (simp add: still_def evolves_def)

lemma quiet_mild: "quiet c c' \<Longrightarrow> mild c c'"
  using quiet_evolves [of c c'] settings_eqD [of c' c] by (simp add: mild_def quiet_def)

lemma identity_casInfo: "identity c' = identity c \<Longrightarrow> casInfo c' = casInfo c"
  by (cases c; cases c') (simp add: identity_def)

lemma underContext_event:
  assumes "session_ok c" and "keeps mild m" and "underContext x m c = Some (r, c')"
  shows "event_ok (watch_deadline x \<noteq> None) c c'"
proof (cases "closed c")
  case True
  then show ?thesis using assms evolves_refl by (simp add: underContext_def event_ok_def)
next
  case False
  have "keeps grows m" using assms(2) by (auto simp: keeps_def mild_def)
  from underContext_deadline [OF this _ assms(3)]
  have d: "deadline_of c = None \<Longrightarrow> watch_deadline x = None \<Longrightarrow> deadline_of c' = None" by simp
  obtain e c1 where 1: "applyContextDeadline x c = (e, c1)" by force
  note s1 = still_evolves [OF still_apply [OF 1]]
  have "evolves c c' \<and> closed c' = closed c \<and> casInfo c' = casInfo c
      \<and> is_open c' = is_open c \<and> (cSocket c' = None \<longleftrightarrow> cSocket c = None)"
  proof (cases e)
    case (Some err)
    then show ?thesis using assms(3) False 1 s1 by (simp add: underContext_def)
  next
    case None
    let ?d = "case ctxFires x of
        FiresEarly now \<Rightarrow> if ctxErr x 3 \<noteq> None then fireDeadline now c1 else c1 | _ \<Rightarrow> c1"
    obtain c2 where 2: "m ?d = Some (r, c2)" "c' = (case watch_deadline x of
        None \<Rightarrow> resetDeadline c2 | Some now \<Rightarrow> fireDeadline now (resetDeadline c2))"
      using assms(3) False 1 None by (auto simp: underContext_def with_watch_cases split: option.splits)
    have "still c1 ?d"
      by (auto simp: still_setDeadline still_refl fireDeadline_def split: firing.splits)
    note s2 = still_evolves [OF this]
    from keepsD [OF assms(2) 2(1)] have m: "mild ?d c2" .
    have "still c2 c'" unfolding 2(2) resetDeadline_def fireDeadline_def
      using still_setDeadline still_trans by (auto split: option.splits) blast
    note s3 = still_evolves [OF this]
    have i: "identity c2 = identity ?d" and g: "closed c2 = closed ?d" "is_open c2 = is_open ?d"
        "cSocket c2 = None \<longleftrightarrow> cSocket ?d = None" "evolves ?d c2"
      using m by (simp_all add: mild_def evolves_def grows_def)
    have "evolves c c'"
      using evolves_trans [OF evolves_trans [OF evolves_trans [OF conjunct1 [OF s1] conjunct1 [OF s2]] g(4)]
        conjunct1 [OF s3]] .
    then show ?thesis using s1 s2 s3 g identity_casInfo [OF i] by simp
  qed
  then show ?thesis using assms(1) d False by (auto simp: event_ok_def session_ok_def)
qed

lemma context_ops_mild:
  "keeps mild (bindM (runContext x query args) (\<lambda>res. returnM (newRows res)))"
  "keeps mild (bindM (runContext x query args) execBody)" "keeps mild (beginBody x)"
proof -
  have "keeps quiet (bindM (runContext x query args) (\<lambda>res. returnM (newRows res)))"
    "keeps quiet (bindM (runContext x query args) execBody)"
    by (intro quiet.keeps_bind quiet.keeps_runContext quiet.keeps_return quiet.keeps_execBody)+
  then show "keeps mild (bindM (runContext x query args) (\<lambda>res. returnM (newRows res)))"
    "keeps mild (bindM (runContext x query args) execBody)"
    using quiet_mild by (auto simp: keeps_def)
  show "keeps mild (beginBody x)"
    by (auto simp: keeps_def beginBody_def mild_def evolves_def grows_def identity_def sent_log_def
        deadline_of_def is_open_def split: option.splits)
qed

lemma Close_good: "session_ok c \<Longrightarrow> good_step c (Close c)"
  by (auto simp: good_step_def evolves_def session_ok_def Close_def identity_def sent_log_def is_open_def
      deadline_of_def sock_close_def sock_write_def Let_def
      split: option.splits list.splits write_event.splits)

lemma Begin_good: "session_ok c \<Longrightarrow> Begin c = Some (r, c') \<Longrightarrow> good_step c c'"
  by (auto simp: Begin_def good_step_def evolves_def session_ok_def identity_def sent_log_def is_open_def
      deadline_of_def split: if_splits)

lemma network_event:
  "cSocket c = Some sock \<Longrightarrow> session_ok c \<Longrightarrow>
    event_ok False c (c\<lparr>cSocket := Some (sock\<lparr>inbox := es, outcomes := os\<rparr>)\<rparr>)"
  by (simp add: event_ok_def evolves_def session_ok_def identity_def sent_log_def is_open_def deadline_of_def)

lemma fire_event: "session_ok c \<Longrightarrow> event_ok True c (fireDeadline now c)"
  using still_evolves [OF still_setDeadline [of c "Some now"]] still_setDeadline [of c "Some now"]
  by (simp add: event_ok_def session_ok_def fireDeadline_def still_def)

text \<open>One event of a session keeps the invariant and evolves the connection; after \<open>Close\<close> nothing is
  sent, and no deadline appears but a late watcher's.\<close>

lemma session_event_ok:
  assumes "session_event late c c'" and "session_ok c"
  shows "event_ok late c c'"
  using assms(1)
proof cases
  case prepare
  show ?thesis by (rule good_event, rule keeps_good [OF assms(2) quiet.keeps_Prepare prepare(2)])
next
  case query_context
  then show ?thesis using underContext_event [OF assms(2) context_ops_mild(1)] by (simp add: context_frames)
next
  case exec_context
  then show ?thesis using underContext_event [OF assms(2) context_ops_mild(2)] by (simp add: context_frames)
next
  case begin_tran
  show ?thesis by (rule good_event, rule Begin_good [OF assms(2) begin_tran(2)])
next
  case (begin_tx x r)
  have "watch_deadline (unwatched x) = None" by (simp add: watch_deadline_def unwatched_def)
  with begin_tx show ?thesis
    using underContext_event [OF assms(2) context_ops_mild(3), of "unwatched x"] by (simp add: context_frames)
next
  case commit
  then show ?thesis using good_event endTran_good [OF assms(2)] by (simp add: Commit_def)
next
  case rollback
  then show ?thesis using good_event endTran_good [OF assms(2)] by (simp add: Rollback_def)
next
  case ping
  show ?thesis by (rule good_event, rule keeps_good [OF assms(2) quiet.keeps_Ping ping(2)])
next
  case server_version
  show ?thesis by (rule good_event, rule keeps_good [OF assms(2) quiet.keeps_ServerVersion server_version(2)])
next
  case close
  then show ?thesis using good_event Close_good [OF assms(2)] by simp
next
  case next_row
  show ?thesis by (rule good_event, rule quiet_good [OF assms(2) quiet.keeps_Next [OF next_row(2)]])
next
  case rows_close
  show ?thesis by (rule good_event, rule quiet_good [OF assms(2) quiet.keeps_rows_Close [OF rows_close(2)]])
next
  case rows_write
  then show ?thesis using good_event keeps_good [OF assms(2) quiet.keeps_send] by blast
next
  case rows_read
  show ?thesis by (rule good_event, rule keeps_good [OF assms(2) quiet.keeps_read rows_read(2)])
next
  case stmt_exec
  show ?thesis by (rule good_event, rule keeps_good [OF assms(2) quiet.keeps_Exec stmt_exec(2)])
next
  case stmt_query
  show ?thesis by (rule good_event, rule keeps_good [OF assms(2) quiet.keeps_Query stmt_query(2)])
next
  case stmt_close
  show ?thesis by (rule good_event, rule quiet_good [OF assms(2) quiet.keeps_stmt_Close [OF stmt_close(2)]])
next
  case late_watcher
  then show ?thesis using fire_event [OF assms(2)] by simp
next
  case network
  then show ?thesis using network_event [OF _ assms(2)] by simp
qed

lemma session_reaches:
  assumes "session_step\<^sup>*\<^sup>* c c'" and "session_ok c"
  shows "evolves c c' \<and> session_ok c' \<and> (closed c \<longrightarrow> sent_log c' = sent_log c)"
  using assms(1)
proof (induction rule: rtranclp_induct)
  case base
  show ?case using assms(2) evolves_refl by simp
next
  case (step d e)
  then have d: "evolves c d" "session_ok d" "closed c \<longrightarrow> sent_log d = sent_log c" by simp_all
  obtain late where "session_event late d e" using step.hyps(2) by (auto simp: session_step_def)
  from session_event_ok [OF this d(2)] have e: "evolves d e" "session_ok e"
      "closed d \<longrightarrow> sent_log e = sent_log d" by (simp_all add: event_ok_def)
  from d(1) have "closed c \<longrightarrow> closed d" by (simp add: evolves_def)
  then show ?case using evolves_trans [OF d(1) e(1)] e d(3) by simp
qed

text \<open>A session in which no watcher fires late never shows a deadline between its events.\<close>

lemma calm_session:
  assumes "(session_event False)\<^sup>*\<^sup>* c c'" and "session_ok c" and "deadline_of c = None"
  shows "session_ok c' \<and> deadline_of c' = None"
  using assms(1)
  by (induction rule: rtranclp_induct) (use assms in \<open>auto simp: event_ok_def dest: session_event_ok\<close>)

section \<open>The end of a transaction\<close>

text \<open>The server's acknowledgement of a request, or its error.\<close>

definition verdict :: "bool \<Rightarrow> byte list \<Rightarrow> int32 \<Rightarrow> string \<Rightarrow> byte list" where
  "verdict ok cas code msg = (if ok then cas @ be32 0 else error_img cas (-1) code msg)"

lemma verdict_parse:
  assumes "length cas = SizeCASInfo"
  shows "ParseSimpleResponse (verdict ok cas code msg) = Some (if ok then Inr () else Inl (newError code msg))"
  using ParseSimpleResponse_img [OF assms, of 0 "[]"] error_response [OF assms, of "-1" code msg]
  by (simp add: verdict_def, simp add: ParseSimpleResponse_def)

lemma endTran_verdict:
  assumes "live c" and "length cas = SizeCASInfo" and "framed_ok (verdict ok cas code msg)"
    and "incoming c = response (verdict ok cas code msg) @ rest"
  shows "\<exists>c'. endTran t c = Some ((if ok then Inr () else Inl (newError code msg)), c')
    \<and> autoCommit c' = (ok \<or> autoCommit c) \<and> incoming c' = rest
    \<and> sent_log c' = sent_log c @ [WriteEndTran t (casInfo c)]"
proof -
  let ?r = "if ok then Inr () else Inl (newError code msg)"
  from sendAndRecv_ok [OF assms(1,4,3)] obtain c' where
    c': "sendAndRecv (WriteEndTran t (casInfo c)) c = Some (Inr (verdict ok cas code msg), c')"
    and x: "exchanged c [WriteEndTran t (casInfo c)] rest c'" by blast
  have run: "endTran t c = Some (?r, if ok then c'\<lparr>autoCommit := True\<rparr> else c')"
    using c' verdict_parse [OF assms(2), of ok code msg] by (simp add: endTran_def bindM_def parsed_def)
  have "incoming (c'\<lparr>autoCommit := True\<rparr>) = incoming c'" "sent_log (c'\<lparr>autoCommit := True\<rparr>) = sent_log c'"
    by (simp_all add: incoming_def sent_log_def)
  with run exchangedD(2,5,7) [OF x] show ?thesis by (cases ok) auto
qed

section \<open>Properties\<close>

text \<open>C7: The invariant of a session.  In every state that any sequence of operations, on the connection
  and on the statements, cursors and transactions over it, of late watchers, of unlocked cursor writes
  and reads, and of network behaviour can reach, the socket is present and is open exactly while the
  connection is not closed, and the token has four bytes; the bytes already written stay written, the
  address, the token and the protocol version never change, and a closed connection never opens again.
  When the socket has no deadline at first, it has none between later events either, as long as no
  watcher fires outside the operation that started it.\<close>

theorem session_invariant:
  assumes "session_ok c"
  shows "(session_step\<^sup>*\<^sup>* c c' \<longrightarrow> session_ok c' \<and> prefix (sent_log c) (sent_log c') \<and> identity c' = identity c
      \<and> (closed c \<longrightarrow> closed c'))
    \<and> ((session_event False)\<^sup>*\<^sup>* c c' \<and> deadline_of c = None \<longrightarrow> deadline_of c' = None)"
  using session_reaches [of c c'] calm_session [of c c'] assms by (simp add: evolves_def)

lemma sample_session: "session_ok (sample_conn es)" "deadline_of (sample_conn es) = None"
  by (simp_all add: session_ok_def sample_conn_def deadline_of_def is_open_def)

theorem session_invariant_witness:
  "\<exists>c'. Begin (sample_conn []) = Some (Inr (), c') \<and> session_ok (Close c') \<and> closed (Close c')
    \<and> deadline_of (Close c') = None"
proof -
  let ?c = "(sample_conn [])\<lparr>autoCommit := False\<rparr>"
  have b: "Begin (sample_conn []) = Some (Inr (), ?c)" by (simp add: Begin_def)
  have e: "session_event False (sample_conn []) ?c" "session_event False ?c (Close ?c)"
    using session_event.begin_tran [OF b] session_event.close [of ?c] by auto
  then have "(session_event False)\<^sup>*\<^sup>* (sample_conn []) (Close ?c)" by auto
  moreover have "session_step\<^sup>*\<^sup>* (sample_conn []) (Close ?c)"
    using session_stepI [OF e(1)] session_stepI [OF e(2)] by auto
  ultimately show ?thesis using session_invariant [OF sample_session(1), of "[]" "Close ?c"] sample_session b
    by (auto simp: Close_def Let_def sample_conn_def split: prod.splits)
qed

text \<open>C33: After \<open>Close\<close> the connection is silent: whatever is called on it, its statements, its cursors and
  its transactions, not a byte is written any more.\<close>

theorem closed_session_is_silent:
  assumes "session_ok c" and "session_step\<^sup>*\<^sup>* (Close c) c'"
  shows "closed c' \<and> sent_log c' = sent_log (Close c)"
proof -
  have g: "session_ok (Close c)" using Close_good [OF assms(1)] by (simp add: good_step_def)
  have "closed (Close c)" by (auto simp: Close_def Let_def split: option.splits prod.splits)
  with session_reaches [OF assms(2) g] show ?thesis by (simp add: evolves_def)
qed

theorem closed_session_is_silent_witness:
  "\<exists>r c'. Commit (Close (sample_conn [])) = Some (r, c')
    \<and> sent_log c' = [WriteConClose [0, 0, 0, 0]]"
proof -
  have c: "Close (sample_conn []) = (sample_conn [])\<lparr>closed := True, cSocket := Some
      \<lparr>inbox = [], outcomes = [], sent = [WriteConClose [0, 0, 0, 0]], deadline = None, opened = False\<rparr>\<rparr>"
    by (simp add: Close_def sample_conn_def sock_write_def sock_close_def)
  then obtain r c' where run: "Commit (Close (sample_conn [])) = Some (r, c')"
    by (simp add: Commit_def endTran_def sendAndRecv_def send_def sock_write_def bindM_def)
  from closed_session_is_silent [OF sample_session(1)] session_stepI [OF session_event.commit [OF run]]
  have "sent_log c' = sent_log (Close (sample_conn []))" by blast
  then show ?thesis using run by (simp add: c sent_log_def)
qed

text \<open>C24: The outcome of a transaction is the server's.  \<open>Commit\<close> and \<open>Rollback\<close> send one END_TRAN with
  their own code; on the server's acknowledgement they succeed and leave the transaction, and on the
  server's error they return that error and stay in it.\<close>

theorem transaction_outcome:
  assumes "live c" and "length cas = SizeCASInfo" and "framed_ok (verdict ok cas code msg)"
    and "incoming c = response (verdict ok cas code msg) @ rest"
  shows "(\<exists>c1. Commit c = Some ((if ok then Inr () else Inl (newError code msg)), c1)
      \<and> autoCommit c1 = (ok \<or> autoCommit c) \<and> incoming c1 = rest
      \<and> sent_log c1 = sent_log c @ [WriteEndTran 1 (casInfo c)])
    \<and> (\<exists>c1. Rollback c = Some ((if ok then Inr () else Inl (newError code msg)), c1)
      \<and> autoCommit c1 = (ok \<or> autoCommit c) \<and> incoming c1 = rest
      \<and> sent_log c1 = sent_log c @ [WriteEndTran 2 (casInfo c)])"
  using endTran_verdict [OF assms] by (simp add: Commit_def Rollback_def)

theorem transaction_outcome_witness:
  "\<exists>c1. Commit ((sample_conn [Chunk (response (verdict False [0, 0, 0, 0] (-1021) ''deadlock''))])
      \<lparr>autoCommit := False\<rparr>) = Some (Inl (newError (-1021) ''deadlock''), c1) \<and> \<not> autoCommit c1"
proof -
  let ?v = "verdict False [0, 0, 0, 0] (-1021) ''deadlock''"
  let ?c = "(sample_conn [Chunk (response ?v)])\<lparr>autoCommit := False\<rparr>"
  have c: "live ?c" "incoming ?c = response ?v @ []"
    by (simp_all add: live_def incoming_def sample_conn_def)
  have "framed_ok ?v" by (simp add: verdict_def error_img_def framed_ok_def)
  from transaction_outcome [OF c(1) _ this c(2)] show ?thesis by auto
qed

text \<open>A transaction turns automatic commit on.  \<open>Begin\<close> turns it off, but a successful \<open>Commit\<close> leaves it
  on whatever it was before, so a connection opened with autocommit=false commits every statement
  after its first transaction.\<close>

theorem transaction_forgets_autocommit:
  assumes "live c" and "\<not> closed c" and "length cas = SizeCASInfo" and "incoming c = response (cas @ be32 0) @ rest"
  shows "\<exists>c1 c2. Begin c = Some (Inr (), c1) \<and> \<not> autoCommit c1
    \<and> Commit c1 = Some (Inr (), c2) \<and> autoCommit c2"
proof -
  let ?c = "c\<lparr>autoCommit := False\<rparr>"
  have c: "live ?c" "incoming ?c = response (verdict True cas 0 '''') @ rest"
    using assms(1,4) by (simp_all add: live_def incoming_def verdict_def)
  have "framed_ok (verdict True cas 0 '''')" using assms(3) by (simp add: verdict_def framed_ok_def)
  from endTran_verdict [OF c(1) assms(3) this c(2)] assms(2) show ?thesis
    by (auto simp: Begin_def Commit_def)
qed

theorem transaction_forgets_autocommit_witness:
  "\<exists>c1 c2. Begin ((sample_conn [Chunk (response ack)])\<lparr>autoCommit := False\<rparr>) = Some (Inr (), c1)
    \<and> Commit c1 = Some (Inr (), c2) \<and> autoCommit c2"
proof -
  let ?c = "(sample_conn [Chunk (response ack)])\<lparr>autoCommit := False\<rparr>"
  have c: "live ?c" "\<not> closed ?c" "incoming ?c = response ([0, 0, 0, 0] @ be32 0) @ []"
    by (simp_all add: live_def incoming_def sample_conn_def ack_def be32_def)
  from transaction_forgets_autocommit [OF c(1,2) _ c(3)] show ?thesis by auto
qed

text \<open>C20: \<open>recv\<close> returns exactly the first frame of the stream, however the network cuts it into pieces,
  and leaves the rest to the next call; a stream that ends inside a frame is an error, never data.\<close>

theorem recv_first_frame:
  assumes "live c"
  shows "case first_frame (incoming c) of
      Some (data, rest) \<Rightarrow> \<exists>c'. recv c = Some (Inr data, c') \<and> exchanged c [] rest c'
    | None \<Rightarrow> \<exists>c'. recv c = Some (Inl (short_read
          (if length (incoming c) < 4 then incoming c else drop 4 (incoming c)) (net_failure c)), c')"
  using recv_frame [OF assms] by (auto split: option.splits)

theorem recv_first_frame_witness:
  "\<exists>c'. recv (sample_conn [Chunk [0, 0], Chunk [0, 1, 9], Chunk [], Chunk [9, 9, 9, 7, 5]]) = Some (Inr [9, 9, 9, 9, 7], c')
    \<and> incoming c' = [5]"
proof -
  have "first_frame [0, 0, 0, 1, 9, 9, 9, 9, 7, 5] = Some ([9, 9, 9, 9, 7], [5])"
    by (simp add: first_frame_def frame_length_def)
  with recv_first_frame [OF sample_live(1), of "[Chunk [0, 0], Chunk [0, 1, 9], Chunk [], Chunk [9, 9, 9, 7, 5]]"]
  show ?thesis by (auto simp: sample_live exchanged_def)
qed

text \<open>\<open>Ping\<close> tells the pool the truth about a broken connection: when the answer does not come whole, for
  whatever reason, it returns \<open>driver.ErrBadConn\<close>; when it comes, \<open>Ping\<close> succeeds or returns the
  server's error.\<close>

theorem ping_reports_bad_connection:
  assumes "live c" and "\<not> closed c"
  shows "case first_frame (incoming c) of
      None \<Rightarrow> \<exists>c'. Ping c = Some (Inl ErrBadConn, c')
    | Some (data, rest) \<Rightarrow> \<exists>c'. incoming c' = rest
        \<and> Ping c = map_option (\<lambda>r. (map_sum id (\<lambda>_. ()) r, c')) (ParseGetDbVersion data)"
proof -
  let ?req = "WriteGetDbVersion True (casInfo c)"
  obtain c1 where 1: "send ?req c = Some (Inr (), c1)" "exchanged c [?req] (incoming c) c1"
    using send_ok [OF assms(1)] by blast
  note e = exchangedD [OF 1(2)]
  have run: "sendAndRecv ?req c = recv c1" using 1(1) by (simp add: sendAndRecv_def bindM_def)
  from recv_frame [OF e(1)] show ?thesis
    using assms(2) run unfolding e(2)
    by (fastforce simp: Ping_def Let_def bindM_def parsed_def returnM_def exchanged_def split: option.splits sum.splits)
qed

theorem ping_reports_bad_connection_witness:
  "\<exists>c'. Ping (sample_conn [Chunk [0, 0, 0, 9, 1], ReadFail (NetError ''i/o timeout'')]) = Some (Inl ErrBadConn, c')"
proof -
  have "first_frame [0, 0, 0, 9, 1] = None" by (simp add: first_frame_def frame_length_def)
  with ping_reports_bad_connection [OF sample_live(1), of "[Chunk [0, 0, 0, 9, 1], ReadFail (NetError ''i/o timeout'')]"]
  show ?thesis by (simp add: sample_live)
qed

end
