(* ===== verification/StmtSpec.thy ===== *)
theory StmtSpec
  imports Session
begin

text \<open>
  Prepared statements against an answering server: what \<open>Exec\<close> and \<open>Query\<close> of \<^verbatim>\<open>stmt.go\<close> send and return
  with and without arguments, and the life of the server's handle from \<open>Prepare\<close> to the second \<open>Close\<close>.
\<close>

section \<open>One execution\<close>

text \<open>The answer to EXECUTE, the requests and the answers of an execution, and of the key of an INSERT.\<close>

definition executed_ok :: "int \<Rightarrow> byte list \<Rightarrow> stmt \<Rightarrow> execute_msg \<Rightarrow> bool" where
  "executed_ok pv cas s e \<longleftrightarrow> length cas = SizeCASInfo \<and> 0 \<le> sint (emTotal e)
     \<and> execute_ok (sStmtType s) (sColumns s) e \<and> framed_ok (exec_img pv cas (sColumns s) e)"

definition prepared_request :: "conn \<Rightarrow> stmt \<Rightarrow> byte list" where
  "prepared_request c s = WriteExecute (sQueryHandle s) (sStmtType s) [] (autoCommit c) (casInfo c)"

definition run_requests :: "conn \<Rightarrow> stmt \<Rightarrow> Value list \<Rightarrow> string \<Rightarrow> prepare_msg \<Rightarrow> byte list list" where
  "run_requests c s args sql p =
     (if args = [] then [prepared_request c s]
      else WritePrepareAndExecute sql (autoCommit c) (casInfo c) # close_requests (casInfo c) (sint (pmHandle p)))"

definition run_answers :: "int \<Rightarrow> byte list \<Rightarrow> stmt \<Rightarrow> Value list \<Rightarrow> prepare_msg \<Rightarrow> execute_msg \<Rightarrow> byte list \<Rightarrow> byte list" where
  "run_answers pv cas s args p e a =
     (if args = [] then response (exec_img pv cas (sColumns s) e)
      else query_answer pv p e @ close_answers (sint (pmHandle p)) a)"

definition key_requests :: "conn \<Rightarrow> stmt \<Rightarrow> prepare_msg \<Rightarrow> byte list list" where
  "key_requests c s p =
     (if sStmtType s = StmtInsert
      then WritePrepareAndExecute ''SELECT LAST_INSERT_ID()'' (autoCommit c) (casInfo c)
           # close_requests (casInfo c) (sint (pmHandle p)) else [])"

definition key_answers :: "int \<Rightarrow> stmt \<Rightarrow> prepare_msg \<Rightarrow> execute_msg \<Rightarrow> byte list \<Rightarrow> byte list" where
  "key_answers pv s p e a =
     (if sStmtType s = StmtInsert then query_answer pv p e @ close_answers (sint (pmHandle p)) a else [])"

lemma executePrepared_ok:
  assumes "live c" and "incoming c = response (exec_img (protoVer c) cas (sColumns s) e) @ rest"
    and "executed_ok (protoVer c) cas s e"
  shows "\<exists>c'. executePrepared s c = Some (Inr (exec_result (sColumns s) e), c')
    \<and> exchanged c [prepared_request c s] rest c'"
proof -
  from sendAndRecv_ok [OF assms(1,2)] assms(3) obtain c' where
    c': "sendAndRecv (prepared_request c s) c = Some (Inr (exec_img (protoVer c) cas (sColumns s) e), c')"
      "exchanged c [prepared_request c s] rest c'" by (auto simp: executed_ok_def)
  have "ParseExecute (exec_img (protoVer c) cas (sColumns s) e) (sColumns s) (sStmtType s) (protoVer c')
      = Some (Inr (exec_result (sColumns s) e))"
    using assms(3) exchangedD(4) [OF c'(2)] by (simp add: executed_ok_def ParseExecute_img)
  with c' show ?thesis by (simp add: executePrepared_def prepared_request_def bindM_simps parsed_def)
qed

lemma execInterpolated_run:
  "InterpolateArgs (sQuery s) args = Some (Inr sql) \<Longrightarrow> execInterpolated s args c = execSQL sql c"
  by (simp add: execInterpolated_def bindM_def parsed_def)

text \<open>The first half of \<open>Exec\<close>: run the statement and release what FC=41 allocated.\<close>

definition run_stmt :: "Value list \<Rightarrow> stmt \<Rightarrow> ResultInfo list op" where
  "run_stmt args s =
     (if length args > 0
      then bindM (execInterpolated s args) (\<lambda>paeRes c.
             case closeIfPositive (paeQueryHandle paeRes) c of
               None \<Rightarrow> None | Some c' \<Rightarrow> Some (Inr (paeResultInfos paeRes), c'))
      else bindM (executePrepared s) (\<lambda>res. returnM (erResultInfos res)))"

lemma run_stmt_ok:
  assumes "live c" and "acknowledges a" and "incoming c = run_answers (protoVer c) cas s args p e a @ rest"
    and "args = [] \<Longrightarrow> executed_ok (protoVer c) cas s e"
    and "args \<noteq> [] \<Longrightarrow> answer_ok (protoVer c) p e \<and> InterpolateArgs (sQuery s) args = Some (Inr sql)"
  shows "\<exists>c'. run_stmt args s c = Some (Inr (map fst (emInfos e)), c')
    \<and> exchanged c (run_requests c s args sql p) rest c'"
proof (cases "args = []")
  case True
  with executePrepared_ok [OF assms(1) _ assms(4)] assms(3) obtain c' where
    "executePrepared s c = Some (Inr (exec_result (sColumns s) e), c')" "exchanged c [prepared_request c s] rest c'"
    by (auto simp: run_answers_def)
  with True show ?thesis
    by (simp add: run_stmt_def bindM_simps returnM_def exec_result_def run_requests_def)
next
  case False
  with assms(3) have "incoming c = query_answer (protoVer c) p e @ close_answers (sint (pmHandle p)) a @ rest"
    by (simp add: run_answers_def)
  from execSQL_ok [OF assms(1) this] assms(5) [OF False] obtain c1 where
    1: "execSQL sql c = Some (Inr (pae_result p e), c1)"
    and x1: "exchanged c [WritePrepareAndExecute sql (autoCommit c) (casInfo c)]
      (close_answers (sint (pmHandle p)) a @ rest) c1" by blast
  from closeIfPositive_ok [OF exchangedD(1,2) [OF x1] assms(2)] obtain c2 where
    2: "closeIfPositive (sint (pmHandle p)) c1 = Some c2"
    and x2: "exchanged c1 (close_requests (casInfo c) (sint (pmHandle p))) rest c2"
    using exchangedD(3) [OF x1] by auto
  have "run_stmt args s c = Some (Inr (map fst (emInfos e)), c2)"
    using 1 2 False assms(5) [OF False]
    by (simp add: run_stmt_def bindM_def execInterpolated_run pae_result_def)
  with exchanged_trans [OF x1 x2] False show ?thesis by (simp add: run_requests_def)
qed

lemma Exec_run:
  assumes "\<not> sClosed s" and "\<not> closed c"
  shows "Exec args s c = bindM (run_stmt args s) (\<lambda>infos c.
      case (if sStmtType s = StmtInsert then fetchLastInsertID c else Some (0, c)) of
        None \<Rightarrow> None
      | Some (lastID, c') \<Rightarrow> Some (Inr \<lparr>lastInsertID = lastID, rowsAffected = affectedRows infos\<rparr>, c')) c"
  using assms by (simp add: Exec_def run_stmt_def)

lemma key_ok:
  assumes "live c" and "acknowledges a" and "incoming c = key_answers (protoVer c) s p e a @ rest"
    and "answer_ok (protoVer c) p e"
  shows "\<exists>c'. (if sStmtType s = StmtInsert then fetchLastInsertID c else Some (0, c))
      = Some (if sStmtType s = StmtInsert then first_value (fetched e) else 0, c')
    \<and> exchanged c (key_requests c s p) rest c'"
proof (cases "sStmtType s = StmtInsert")
  case True
  with assms(3) have "incoming c = query_answer (protoVer c) p e @ close_answers (sint (pmHandle p)) a @ rest"
    by (simp add: key_answers_def)
  from fetchLastInsertID_ok [OF assms(1,4,2) this] True show ?thesis by (simp add: key_requests_def)
next
  case False
  with assms(3) exchanged_refl [OF assms(1)] show ?thesis by (simp add: key_answers_def key_requests_def)
qed

section \<open>Properties\<close>

text \<open>C8: Executing a prepared statement.  Without arguments \<open>Exec\<close> sends one EXECUTE for the statement's own
  handle and leaves that handle alone; with arguments it sends the interpolated statement and closes
  the handle the server made for it.  An INSERT then asks for the generated key and closes that
  handle too.  The result has the key and the summed row count, and exactly the answers are consumed.\<close>

theorem prepared_exec_conversation:
  assumes "live c" and "\<not> closed c" and "\<not> sClosed s" and "acknowledges a"
    and "args = [] \<Longrightarrow> executed_ok (protoVer c) cas s e"
    and "args \<noteq> [] \<Longrightarrow> answer_ok (protoVer c) p e \<and> InterpolateArgs (sQuery s) args = Some (Inr sql)"
    and "answer_ok (protoVer c) p' e'"
    and "incoming c = run_answers (protoVer c) cas s args p e a @ key_answers (protoVer c) s p' e' a @ rest"
  shows "\<exists>c'. Exec args s c = Some (Inr
      \<lparr>lastInsertID = (if sStmtType s = StmtInsert then generated_key e' else 0),
       rowsAffected = word_of_int (affected_total e)\<rparr>, c')
    \<and> exchanged c (run_requests c s args sql p @ key_requests c s p') rest c'"
proof -
  from run_stmt_ok [OF assms(1,4,8,5,6)] obtain c1 where
    1: "run_stmt args s c = Some (Inr (map fst (emInfos e)), c1)"
    and x1: "exchanged c (run_requests c s args sql p) (key_answers (protoVer c) s p' e' a @ rest) c1" by blast
  note e1 = exchangedD [OF x1]
  have "incoming c1 = key_answers (protoVer c1) s p' e' a @ rest" "answer_ok (protoVer c1) p' e'"
    using e1(2,4) assms(7) by simp_all
  from key_ok [OF e1(1) assms(4) this] obtain c2 where
    2: "(if sStmtType s = StmtInsert then fetchLastInsertID c1 else Some (0, c1))
      = Some (if sStmtType s = StmtInsert then first_value (fetched e') else 0, c2)"
    and x2: "exchanged c1 (key_requests c s p') rest c2"
    unfolding key_requests_def e1(3,5) by blast
  have "Exec args s c = Some (Inr
      \<lparr>lastInsertID = (if sStmtType s = StmtInsert then first_value (fetched e') else 0),
       rowsAffected = affectedRows (map fst (emInfos e))\<rparr>, c2)"
    unfolding Exec_run [OF assms(3,2)] bindM_simps(3) [where m = "run_stmt args s", OF 1] 2 by simp
  with exchanged_trans [OF x1 x2] show ?thesis unfolding first_value_key affectedRows_sum by blast
qed

theorem prepared_exec_conversation_witness:
  "\<exists>c'. Exec [] \<lparr>sQuery = ''update t set a = 1'', sQueryHandle = 3, sStmtType = 22, sBindCount = 0,
        sColumns = [], sClosed = False\<rparr>
      (sample_conn [Chunk (response (exec_img 5 [0, 0, 0, 0] [] insert_execute))])
     = Some (Inr \<lparr>lastInsertID = 0, rowsAffected = 1\<rparr>, c')
    \<and> sent_log c' = [WriteExecute 3 22 [] True [0, 0, 0, 0]]"
proof -
  let ?s = "\<lparr>sQuery = ''update t set a = 1'', sQueryHandle = 3, sStmtType = 22, sBindCount = 0,
        sColumns = [], sClosed = False\<rparr>"
  let ?c = "sample_conn [Chunk (response (exec_img 5 [0, 0, 0, 0] [] insert_execute))]"
  have ok: "executed_ok (protoVer ?c) [0, 0, 0, 0] ?s insert_execute"
    by (simp add: executed_ok_def insert_execute_def sample_execute_def execute_ok_def info_ok_def countable_list_def
        framed_ok_def exec_img_def execute_tail_def proto_img_def info_img_def)
  have i: "incoming ?c = run_answers (protoVer ?c) [0, 0, 0, 0] ?s [] sample_prepare insert_execute ack
      @ key_answers (protoVer ?c) ?s sample_prepare sample_execute ack @ []"
    by (simp add: sample_live run_answers_def key_answers_def)
  have a: "answer_ok (protoVer ?c) sample_prepare sample_execute" using sample_answers by simp
  have n: "\<not> closed ?c" "\<not> sClosed ?s" by simp_all
  from prepared_exec_conversation [where args = "[]" and sql = "[]", OF sample_live(1) n sample_ack ok _ a i]
  obtain c' where "Exec [] ?s ?c = Some (Inr \<lparr>lastInsertID = 0, rowsAffected = 1\<rparr>, c')"
      "exchanged ?c [WriteExecute 3 22 [] True [0, 0, 0, 0]] [] c'"
    by (auto simp: sample_values run_requests_def key_requests_def prepared_request_def)
  then show ?thesis using exchangedD(7) by fastforce
qed

lemma ParsePrepare_prepared: "prepare_ok p \<Longrightarrow> ParsePrepare (prepare_img p) = Some (Inr
    \<lparr>prQueryHandle = sint (pmHandle p), prStatementType = uint (pmStmt p), prBindCount = sint (pmBind p),
     prColumns = map fst (pmColumns p)\<rparr>)"
  using ParsePrepare_img [of p "[]"] by simp

text \<open>The statement that \<open>Prepare\<close> returns for the server's answer.\<close>

definition prepared :: "string \<Rightarrow> prepare_msg \<Rightarrow> stmt" where
  "prepared q p = \<lparr>sQuery = q, sQueryHandle = sint (pmHandle p), sStmtType = uint (pmStmt p),
     sBindCount = sint (pmBind p), sColumns = map fst (pmColumns p), sClosed = False\<rparr>"

lemma Prepare_ok:
  assumes "live c" and "\<not> closed c" and "incoming c = response (prepare_img p) @ rest"
    and "prepare_ok p" and "framed_ok (prepare_img p)"
  shows "\<exists>c'. Prepare q c = Some (Inr (prepared q p), c') \<and> exchanged c [WritePrepare q (autoCommit c) (casInfo c)] rest c'"
proof -
  from sendAndRecv_ok [OF assms(1,3,5)] obtain c' where
    "sendAndRecv (WritePrepare q (autoCommit c) (casInfo c)) c = Some (Inr (prepare_img p), c')"
    "exchanged c [WritePrepare q (autoCommit c) (casInfo c)] rest c'" by blast
  with assms(2) ParsePrepare_prepared [OF assms(4)] show ?thesis
    by (simp add: Prepare_def bindM_simps parsed_def returnM_def prepared_def)
qed

text \<open>C9: The life of a prepared statement's handle.  \<open>Prepare\<close> gets it, a query without arguments runs on it
  and returns a cursor over the server's rows that does not own it, so closing the cursor sends
  nothing; the first \<open>Close\<close> of the statement sends the one CLOSE, a second one nothing, and afterwards
  the statement can neither query nor execute.\<close>

theorem prepared_handle_lifecycle:
  assumes "live c" and "\<not> closed c" and "acknowledges a" and "prepare_ok p" and "framed_ok (prepare_img p)"
    and "executed_ok (protoVer c) cas (prepared q p) e" and "0 < sint (pmHandle p)"
    and "incoming c = response (prepare_img p) @ response (exec_img (protoVer c) cas (map fst (pmColumns p)) e)
      @ response a @ rest"
  shows "\<exists>c1 r c2 r' s' c3. Prepare q c = Some (Inr (prepared q p), c1)
    \<and> Query [] (prepared q p) c1 = Some (Inr r, c2)
    \<and> rBufferedRows r = (if pmColumns p = [] then [] else fetched e) \<and> rTotalCount r = sint (emTotal e)
    \<and> rows_Close r c2 = Some (r', c2) \<and> rClosed r'
    \<and> stmt_Close (prepared q p) c2 = Some (s', c3) \<and> stmt_Close s' c3 = Some (s', c3)
    \<and> Query args s' c3 = Some (Inl ErrBadConn, c3) \<and> Exec args s' c3 = Some (Inl ErrBadConn, c3)
    \<and> exchanged c [WritePrepare q (autoCommit c) (casInfo c), prepared_request c (prepared q p),
        WriteCloseReqHandle (sint (pmHandle p)) (casInfo c)] rest c3"
proof -
  let ?s = "prepared q p"
  have s: "\<not> sClosed ?s" "sQueryHandle ?s = sint (pmHandle p)" "sColumns ?s = map fst (pmColumns p)"
    by (simp_all add: prepared_def)
  from Prepare_ok [OF assms(1,2,8,4,5), of q] obtain c1 where
    1: "Prepare q c = Some (Inr ?s, c1)" and x1: "exchanged c [WritePrepare q (autoCommit c) (casInfo c)]
      (response (exec_img (protoVer c) cas (map fst (pmColumns p)) e) @ response a @ rest) c1" by blast
  note e1 = exchangedD [OF x1]
  have "incoming c1 = response (exec_img (protoVer c1) cas (sColumns ?s) e) @ response a @ rest"
      "executed_ok (protoVer c1) cas ?s e" using e1(2,4) s(3) assms(6) by simp_all
  from executePrepared_ok [OF e1(1) this] obtain c2 where
    2: "executePrepared ?s c1 = Some (Inr (exec_result (map fst (pmColumns p)) e), c2)"
    and x2: "exchanged c1 [prepared_request c ?s] (response a @ rest) c2"
    unfolding prepared_request_def e1(3,5) s(3) by blast
  define r where "r = stmt_rows ?s (sint (emTotal e)) (int (length (fetched e)))
    (if pmColumns p = [] then [] else fetched e) (map fst (pmColumns p)) (sint (pmHandle p)) False"
  have q: "Query [] ?s c1 = Some (Inr r, c2)"
    using 2 s e1(6) assms(2) by (simp add: Query_def bindM_simps returnM_def exec_result_def r_def)
  have r: "\<not> rClosed r" "\<not> rCloseHandle r" "rTotalCount r = sint (emTotal e)"
      "rBufferedRows r = (if pmColumns p = [] then [] else fetched e)"
    by (simp_all add: r_def stmt_rows_def)
  from closeQueryHandle_ok [OF exchangedD(1,2) [OF x2] assms(3)] obtain c3 where
    3: "closeQueryHandle (sint (pmHandle p)) c2 = Some c3"
    and x3: "exchanged c2 [WriteCloseReqHandle (sint (pmHandle p)) (casInfo c)] rest c3"
    using exchangedD(3) [OF x2] e1(3) by auto
  define s' where "s' = ?s\<lparr>sClosed := True, sQueryHandle := 0\<rparr>"
  have c: "stmt_Close ?s c2 = Some (s', c3)"
    using 3 s assms(7) by (simp add: stmt_Close_def s'_def)
  have dead: "stmt_Close s' c3 = Some (s', c3)" "Query args s' c3 = Some (Inl ErrBadConn, c3)"
      "Exec args s' c3 = Some (Inl ErrBadConn, c3)"
    by (simp_all add: stmt_Close_def Query_def Exec_def s'_def)
  have "rows_Close r c2 = Some (r\<lparr>rClosed := True\<rparr>, c2)" using r by (simp add: rows_Close_def)
  then show ?thesis
    using 1 q r c dead exchanged_trans [OF exchanged_trans [OF x1 x2] x3] by fastforce
qed

theorem prepared_handle_lifecycle_witness:
  "\<exists>c1 r c2. Prepare ''select id from t'' (sample_conn [Chunk (response (prepare_img sample_prepare)
        @ response (exec_img 5 [0, 0, 0, 0] [sample_column] sample_execute) @ response ack)])
      = Some (Inr (prepared ''select id from t'' sample_prepare), c1)
    \<and> Query [] (prepared ''select id from t'' sample_prepare) c1 = Some (Inr r, c2)
    \<and> rBufferedRows r = [[VInt64 42], [VNil]]"
proof -
  let ?c = "sample_conn [Chunk (response (prepare_img sample_prepare)
        @ response (exec_img 5 [0, 0, 0, 0] [sample_column] sample_execute) @ response ack)]"
  let ?q = "''select id from t''"
  have f: "framed_ok (prepare_img sample_prepare)"
    by (simp add: framed_ok_def prepare_img_def sample_prepare_def sample_column_def column_img_def)
  have e: "executed_ok (protoVer ?c) [0, 0, 0, 0] (prepared ?q sample_prepare) sample_execute"
    using sample_ok(2) by (simp add: executed_ok_def prepared_def sample_prepare_def sample_execute_def
      framed_ok_def exec_img_def execute_tail_def proto_img_def rows_img_def row_img_def sample_column_def)
  have h: "0 < sint (pmHandle sample_prepare)" "map fst (pmColumns sample_prepare) = [sample_column]"
      "fetched sample_execute = [[VInt64 42], [VNil]]" "pmColumns sample_prepare \<noteq> []"
    by (simp_all add: sample_values fetched_def sample_execute_def row_val_def sample_prepare_def)
  have i: "incoming ?c = response (prepare_img sample_prepare)
      @ response (exec_img (protoVer ?c) [0, 0, 0, 0] (map fst (pmColumns sample_prepare)) sample_execute)
      @ response ack @ []"
    using h(2) by (simp add: sample_live)
  have n: "\<not> closed ?c" by simp
  from prepared_handle_lifecycle [OF sample_live(1) n sample_ack sample_ok(1) f e h(1) i, of "[]"] h(3,4)
  show ?thesis by auto
qed

end
