(* ===== verification/Watch.thy ===== *)
theory Watch
  imports Session
begin

text \<open>
  \<open>watchContextCancel\<close> of \<^verbatim>\<open>conn.go\<close>: the goroutine that watches a context while \<open>QueryContext\<close> or
  \<open>ExecContext\<close> runs, as a step relation of its interleavings with the operation.  The operation's
  deferred calls run last to first: the deadline is reset, then the goroutine is told to stop.
\<close>

section \<open>The goroutine and the operation\<close>

datatype phase = Running | DeadlineReset | Returned

datatype goroutine = Selecting | Ended

record watched =
  wConn :: conn
  wPhase :: phase
  wGoroutine :: goroutine
  wCancelled :: bool      \<comment> \<open>\<^verbatim>\<open>ctx.Done()\<close> is closed\<close>
  wStopped :: bool        \<comment> \<open>\<^verbatim>\<open>done\<close> is closed\<close>

definition watchContextCancel :: "bool \<Rightarrow> conn \<Rightarrow> watched" where
  "watchContextCancel cancelled c =
     \<lparr>wConn = c, wPhase = Running, wGoroutine = (case cSocket c of None \<Rightarrow> Ended | Some _ \<Rightarrow> Selecting),
      wCancelled = cancelled, wStopped = False\<rparr>"

text \<open>
  Anyone may cancel the context at any time.  The goroutine takes one of the ready branches of its
  \<^verbatim>\<open>select\<close>; with both ready, either one.  The operation reads and writes, resets the deadline, and
  stops the goroutine.
\<close>

inductive watch_step :: "watched \<Rightarrow> watched \<Rightarrow> bool" where
  cancel: "watch_step s (s\<lparr>wCancelled := True\<rparr>)"
| fire: "wGoroutine s = Selecting \<Longrightarrow> wCancelled s \<Longrightarrow>
    watch_step s (s\<lparr>wConn := snd (setDeadline (Some now) (wConn s)), wGoroutine := Ended\<rparr>)"
| quit: "wGoroutine s = Selecting \<Longrightarrow> wStopped s \<Longrightarrow> watch_step s (s\<lparr>wGoroutine := Ended\<rparr>)"
| operate: "wPhase s = Running \<Longrightarrow> sendAndRecv req (wConn s) = Some (r, c) \<Longrightarrow> watch_step s (s\<lparr>wConn := c\<rparr>)"
| reset: "wPhase s = Running \<Longrightarrow> watch_step s (s\<lparr>wConn := resetDeadline (wConn s), wPhase := DeadlineReset\<rparr>)"
| stop: "wPhase s = DeadlineReset \<Longrightarrow> watch_step s (s\<lparr>wPhase := Returned, wStopped := True\<rparr>)"

section \<open>The invariant\<close>

text \<open>The socket stays as open as it was; after the reset the deadline is gone unless the context was cancelled.\<close>

definition watch_ok :: "watched \<Rightarrow> bool" where
  "watch_ok s \<longleftrightarrow> is_open (wConn s) \<and> (wPhase s \<noteq> Running \<and> \<not> wCancelled s \<longrightarrow> deadline_of (wConn s) = None)"

lemma setDeadline_open [simp]: "is_open (snd (setDeadline d c)) = is_open c"
  by (auto simp: setDeadline_def sock_set_deadline_def is_open_def split: option.splits)

lemma setDeadline_sets: "is_open c \<Longrightarrow> deadline_of (snd (setDeadline d c)) = d"
  by (auto simp: setDeadline_def sock_set_deadline_def is_open_def deadline_of_def split: option.splits)

lemma watch_step_ok: "watch_step s s' \<Longrightarrow> watch_ok s \<Longrightarrow> watch_ok s'"
proof (induction rule: watch_step.induct)
  case (operate s req r c)
  from keepsD [OF log.keeps_sendAndRecv operate(2)] operate show ?case
    by (auto simp: watch_ok_def grows_def)
qed (auto simp: watch_ok_def resetDeadline_def setDeadline_sets)

lemma watch_reaches: "watch_step\<^sup>*\<^sup>* s s' \<Longrightarrow> watch_ok s \<Longrightarrow> watch_ok s'"
  by (induction rule: rtranclp_induct) (auto intro: watch_step_ok)

text \<open>The three outcomes of \<open>with_watch\<close> are runs of the goroutine and the operation: the one in which it
  fires before the exchange, the one in which it fires after the reset, and the one in which it does not.\<close>

lemma with_watch_interleaves:
  assumes "with_watch x (sendAndRecv req) c = Some (r, c')"
  shows "\<exists>s. watch_step\<^sup>*\<^sup>* (watchContextCancel False c) s \<and> wPhase s = Returned \<and> wConn s = c'"
proof -
  let ?s0 = "watchContextCancel False c"
  let ?d = "case ctxFires x of
      FiresEarly now \<Rightarrow> if ctxErr x 3 \<noteq> None then fireDeadline now c else c | _ \<Rightarrow> c"
  obtain c1 where run: "sendAndRecv req ?d = Some (r, c1)"
    and c': "c' = (case watch_deadline x of
      None \<Rightarrow> resetDeadline c1 | Some now \<Rightarrow> fireDeadline now (resetDeadline c1))"
    using assms by (auto simp: with_watch_cases split: option.splits)
  have "cSocket d = None \<Longrightarrow> sendAndRecv req d = None" for d
    by (simp add: sendAndRecv_def bindM_def send_def)
  then have "cSocket ?d \<noteq> None" using run by fastforce
  then have sock: "cSocket c \<noteq> None"
    by (auto simp: fireDeadline_def setDeadline_def split: firing.splits if_splits option.splits)
  define fired where "fired s now = s\<lparr>wCancelled := True, wConn := fireDeadline now (wConn s), wGoroutine := Ended\<rparr>"
    for s :: watched and now
  have fire: "watch_step\<^sup>*\<^sup>* s (fired s now)" if "wGoroutine s = Selecting" for s now
  proof -
    have "watch_step (s\<lparr>wCancelled := True\<rparr>) (fired s now)"
      using watch_step.fire [of "s\<lparr>wCancelled := True\<rparr>" now] that by (simp add: fired_def fireDeadline_def)
    with watch_step.cancel [of s] show ?thesis by auto
  qed
  define finished where "finished s = s\<lparr>wConn := resetDeadline c1, wPhase := Returned, wStopped := True\<rparr>"
    for s :: watched
  have finish: "watch_step\<^sup>*\<^sup>* s (finished s)" if "wPhase s = Running" "wConn s = ?d" for s
  proof -
    let ?s1 = "s\<lparr>wConn := c1\<rparr>" and ?s2 = "s\<lparr>wConn := resetDeadline c1, wPhase := DeadlineReset\<rparr>"
    have "watch_step s ?s1" using watch_step.operate [OF that(1), of req r c1] that(2) run by simp
    moreover have "watch_step ?s1 ?s2" using watch_step.reset [of ?s1] that(1) by simp
    moreover have "watch_step ?s2 (finished s)" using watch_step.stop [of ?s2] by (simp add: finished_def)
    ultimately show ?thesis by auto
  qed
  have s0: "wPhase ?s0 = Running" "wConn ?s0 = c" "wGoroutine ?s0 = Selecting"
    using sock by (auto simp: watchContextCancel_def)
  show ?thesis
  proof (cases "watch_deadline x")
    case (Some now)
    then have d: "?d = c" by (auto simp: watch_deadline_def split: firing.splits)
    have "watch_step\<^sup>*\<^sup>* ?s0 (finished ?s0)" by (rule finish) (use s0 d in simp_all)
    also have "watch_step\<^sup>*\<^sup>* (finished ?s0) (fired (finished ?s0) now)"
      by (rule fire) (use s0 in \<open>simp add: finished_def\<close>)
    finally show ?thesis using Some c'
      by (intro exI [of _ "fired (finished ?s0) now"]) (simp add: fired_def finished_def)
  next
    case None
    show ?thesis
    proof (cases "?d = c")
      case True
      have "watch_step\<^sup>*\<^sup>* ?s0 (finished ?s0)" by (rule finish) (use s0 True in simp_all)
      then show ?thesis using None c' by (intro exI [of _ "finished ?s0"]) (simp add: finished_def)
    next
      case False
      then obtain now where d: "?d = fireDeadline now c" by (auto split: firing.splits if_splits)
      have "watch_step\<^sup>*\<^sup>* ?s0 (fired ?s0 now)" by (rule fire) (rule s0)
      also have "watch_step\<^sup>*\<^sup>* (fired ?s0 now) (finished (fired ?s0 now))"
        by (rule finish) (use s0 d in \<open>simp_all add: fired_def\<close>)
      finally show ?thesis using None c'
        by (intro exI [of _ "finished (fired ?s0 now)"]) (simp add: finished_def)
    qed
  qed
qed

section \<open>Properties\<close>

text \<open>C17: The watcher can poison the connection.  As long as its context is not cancelled, an operation that has
  returned leaves no deadline.  But a context that is cancelled only after the operation has returned
  (as a deferred cancel does) can still win the goroutine's select: then the expired deadline stays on
  the socket, and a following operation whose context has no deadline starts its I/O under it.\<close>

theorem watcher_stale_deadline:
  assumes "session_ok c" and "\<not> closed c"
  shows "(\<forall>s. watch_step\<^sup>*\<^sup>* (watchContextCancel False c) s \<and> wPhase s = Returned \<and> \<not> wCancelled s
      \<longrightarrow> deadline_of (wConn s) = None)
    \<and> (\<exists>s1 s. watch_step\<^sup>*\<^sup>* (watchContextCancel False c) s1 \<and> wPhase s1 = Returned \<and> \<not> wCancelled s1
      \<and> watch_step\<^sup>*\<^sup>* s1 s \<and> wGoroutine s = Ended \<and> deadline_of (wConn s) = Some now
      \<and> (\<forall>x. ctxErr x 0 = None \<and> ctxDeadline x = None \<longrightarrow> applyContextDeadline x (wConn s) = (None, wConn s)))"
proof -
  let ?s0 = "watchContextCancel False c"
  have o: "is_open c" and sock: "cSocket c \<noteq> None" using assms by (auto simp: session_ok_def)
  have ok: "watch_ok ?s0" using o by (simp add: watch_ok_def watchContextCancel_def)
  have safe: "\<forall>s. watch_step\<^sup>*\<^sup>* ?s0 s \<and> wPhase s = Returned \<and> \<not> wCancelled s \<longrightarrow> deadline_of (wConn s) = None"
    using watch_reaches [OF _ ok] by (auto simp: watch_ok_def)
  define s1 where "s1 = ?s0\<lparr>wConn := resetDeadline c, wPhase := Returned, wStopped := True\<rparr>"
  have "watch_step ?s0 (?s0\<lparr>wConn := resetDeadline c, wPhase := DeadlineReset\<rparr>)"
    using watch_step.reset [of ?s0] by (simp add: watchContextCancel_def)
  moreover have "watch_step (?s0\<lparr>wConn := resetDeadline c, wPhase := DeadlineReset\<rparr>) s1"
    using watch_step.stop [of "?s0\<lparr>wConn := resetDeadline c, wPhase := DeadlineReset\<rparr>"] by (simp add: s1_def)
  ultimately have r1: "watch_step\<^sup>*\<^sup>* ?s0 s1" by auto
  define s where "s = s1\<lparr>wCancelled := True, wConn := snd (setDeadline (Some now) (resetDeadline c)), wGoroutine := Ended\<rparr>"
  have "wGoroutine (s1\<lparr>wCancelled := True\<rparr>) = Selecting"
    using sock by (auto simp: s1_def watchContextCancel_def)
  from watch_step.fire [OF this, of now] have "watch_step (s1\<lparr>wCancelled := True\<rparr>) s"
    by (simp add: s_def s1_def)
  with watch_step.cancel [of s1] have r2: "watch_step\<^sup>*\<^sup>* s1 s" by auto
  have "deadline_of (wConn s) = Some now"
    using o by (simp add: s_def s1_def setDeadline_sets resetDeadline_def)
  moreover have "applyContextDeadline x (wConn s) = (None, wConn s)"
    if "ctxErr x 0 = None" "ctxDeadline x = None" for x
    using that by (simp add: applyContextDeadline_def split: option.splits)
  moreover have "wPhase s1 = Returned" "\<not> wCancelled s1" "wGoroutine s = Ended"
    by (simp_all add: s_def s1_def watchContextCancel_def)
  ultimately show ?thesis using safe r1 r2 by blast
qed

theorem watcher_stale_deadline_witness:
  "\<exists>s. watch_step\<^sup>*\<^sup>* (watchContextCancel False (sample_conn [])) s \<and> wGoroutine s = Ended
    \<and> deadline_of (wConn s) = Some 1000"
proof -
  have "\<not> closed (sample_conn [])" by simp
  from watcher_stale_deadline [OF sample_session(1) this, of 1000] show ?thesis
    by (meson rtranclp_trans)
qed

end
