(* ===== verification/Connect.thy ===== *)
theory Connect
  imports Session
begin

text \<open>
  The handshake of \<^verbatim>\<open>conn.go\<close>: \<open>connect\<close> asks the broker for a port, moves to the CAS behind that
  port or stays on the broker's socket, and opens the database there.  The network says what each
  dial gives and what the clock shows; a successful \<open>connect\<close> establishes the invariant of a session.
\<close>

section \<open>The handshake\<close>

text \<open>The outcome of the \<open>n\<close>-th dial to an address under a time limit (the text of its error, or a
  socket), and the \<open>n\<close>-th reading of the clock.\<close>

record network =
  dialTimeout :: "nat \<Rightarrow> string \<Rightarrow> int \<Rightarrow> string + socket"
  clock :: "nat \<Rightarrow> int"

definition address :: "string \<Rightarrow> int \<Rightarrow> string" where
  "address host port = host @ '':'' @ FormatInt port"

text \<open>\<^verbatim>\<open>if c.timeout > 0 { s.SetDeadline(time.Now().Add(c.timeout)) }\<close>\<close>

definition arm :: "int \<Rightarrow> int \<Rightarrow> socket \<Rightarrow> socket" where
  "arm now timeout s = (if timeout > 0 then snd (sock_set_deadline (Some (now + timeout)) s) else s)"

definition dial_error :: "string \<Rightarrow> string \<Rightarrow> string \<Rightarrow> go_error" where
  "dial_error what addr err = OperationalError \<lparr>Code = -1, Message = what @ addr @ '': '' @ err\<rparr>"

text \<open>Steps 4 and 5, on the socket of the connection.\<close>

definition openDatabase :: "network \<Rightarrow> unit op" where
  "openDatabase w c =
     (let c = (case cSocket c of None \<Rightarrow> c | Some s \<Rightarrow> c\<lparr>cSocket := Some (arm (clock w 1) (cTimeout c) s)\<rparr>)
      in bindM (send (WriteOpenDatabase (cDatabase c) (cUser c) (cPassword c))) (\<lambda>_.
         bindM recv (\<lambda>data.
         bindM (parsed (ParseOpenDatabase data)) (\<lambda>res c.
           Some (Inr (), resetDeadline
             (c\<lparr>casInfo := odCASInfo res, protoVer := odProtocolVersion res\<rparr>))))) c)"

text \<open>
  \<open>connect\<close> returns its error, the connection, and the broker's socket where that is not the one of
  the connection.  The third component only exists to speak of that socket; the code drops it.
\<close>

type_synonym connected = "go_error option \<times> conn \<times> socket option"

definition finish :: "socket option \<Rightarrow> ((go_error + unit) \<times> conn) option \<Rightarrow> connected option" where
  "finish broker run = (case run of
       None \<Rightarrow> None
     | Some (Inl err, c) \<Rightarrow> Some (Some err, c, broker)
     | Some (Inr _, c) \<Rightarrow> Some (None, c, broker))"

text \<open>Steps 1 and 2, on the broker's socket: the redirected port.\<close>

definition askBroker :: "network \<Rightarrow> int \<Rightarrow> socket \<Rightarrow> (go_error + int) option \<times> socket" where
  "askBroker w timeout s =
     (let s = arm (clock w 0) timeout s; (err, s) = sock_write WriteClientInfoExchange s in
      case err of
        Some e \<Rightarrow> (Some (Inl e), sock_close s)
      | None \<Rightarrow>
          (let (r, s) = sock_read_full 4 s in
           case r of
             Inl e \<Rightarrow> (Some (Inl e), sock_close s)
           | Inr portBuf \<Rightarrow>
               (case Uint32 portBuf of
                  None \<Rightarrow> (None, s)
                | Some v \<Rightarrow> (let newPort = sint v in
                    if newPort < 0
                    then (Some (Inl (OperationalError \<lparr>Code = newPort, Message = ''broker rejected connection''\<rparr>)),
                          sock_close s)
                    else (Some (Inr newPort), s)))))"

definition connect :: "network \<Rightarrow> conn \<Rightarrow> connected option" where
  "connect w c =
     (let brokerAddr = address (cHost c) (cPort c) in
      case dialTimeout w 0 brokerAddr (cTimeout c) of
        Inl err \<Rightarrow> Some (Some (dial_error ''dial broker '' brokerAddr err), c, None)
      | Inr s \<Rightarrow>
          (case askBroker w (cTimeout c) s of
             (None, broker) \<Rightarrow> None
           | (Some (Inl err), broker) \<Rightarrow> Some (Some err, c, Some broker)
           | (Some (Inr newPort), broker) \<Rightarrow>
               if newPort > 0 then
                 (let broker = sock_close broker; casAddr = address (cHost c) newPort in
                  case dialTimeout w 1 casAddr (cTimeout c) of
                    Inl err \<Rightarrow> Some (Some (dial_error ''dial CAS '' casAddr err), c\<lparr>cSocket := None\<rparr>, Some broker)
                  | Inr cas \<Rightarrow> finish (Some broker) (openDatabase w (c\<lparr>cSocket := Some cas\<rparr>)))
               else finish None (openDatabase w (c\<lparr>cSocket := Some broker\<rparr>))))"

section \<open>What the handshake does\<close>

text \<open>The same steps with the socket's deadline and the assignments to the connection moved to the ends.\<close>

definition armed :: "network \<Rightarrow> conn \<Rightarrow> conn" where
  "armed w c = (case cSocket c of None \<Rightarrow> c | Some s \<Rightarrow> c\<lparr>cSocket := Some (arm (clock w 1) (cTimeout c) s)\<rparr>)"

definition conversation :: "byte list \<Rightarrow> OpenDatabaseResult op" where
  "conversation req = bindM (sendAndRecv req) (\<lambda>data. parsed (ParseOpenDatabase data))"

definition admitted :: "OpenDatabaseResult \<Rightarrow> conn \<Rightarrow> conn" where
  "admitted res c = resetDeadline (c\<lparr>casInfo := odCASInfo res, protoVer := odProtocolVersion res\<rparr>)"

lemma armed_fields [simp]:
  "cDatabase (armed w c) = cDatabase c" "cUser (armed w c) = cUser c" "cPassword (armed w c) = cPassword c"
  "settings (armed w c) = settings c" "sent_log (armed w c) = sent_log c" "is_open (armed w c) = is_open c"
  "incoming (armed w c) = incoming c" "live (armed w c) = live c" "net_failure (armed w c) = net_failure c"
  "cSocket (armed w c) = None \<longleftrightarrow> cSocket c = None"
  by (auto simp: armed_def arm_def sock_set_deadline_def settings_def sent_log_def is_open_def incoming_def
      live_def net_failure_def split: option.splits)

lemma openDatabase_conversation:
  "openDatabase w c = (case conversation (WriteOpenDatabase (cDatabase c) (cUser c) (cPassword c)) (armed w c) of
       None \<Rightarrow> None
     | Some (Inl e, c') \<Rightarrow> Some (Inl e, c')
     | Some (Inr res, c') \<Rightarrow> Some (Inr (), admitted res c'))"
proof -
  have "(case cSocket c of None \<Rightarrow> c | Some s \<Rightarrow> c\<lparr>cSocket := Some (arm (clock w 1) (cTimeout c) s)\<rparr>) = armed w c"
    by (simp add: armed_def)
  then show ?thesis
    by (simp add: openDatabase_def conversation_def sendAndRecv_def Let_def)
      (simp add: bindM_def admitted_def split: option.splits sum.splits)
qed

lemma conversation_keeps:
  assumes "conversation req c = Some (r, c')"
  shows "grows c c' \<and> settings c' = settings c"
proof -
  have "keeps grows (conversation req)" "keeps (\<lambda>c c'. settings c' = settings c) (conversation req)"
    unfolding conversation_def
    by (intro log.keeps_bind log.keeps_sendAndRecv log.keeps_return)
      (intro settings.keeps_bind settings.keeps_sendAndRecv settings.keeps_return)
  with assms show ?thesis by (blast dest: keepsD)
qed

lemma ParseOpenDatabase_token: "ParseOpenDatabase data = Some (Inr res) \<Longrightarrow> length (odCASInfo res) = SizeCASInfo"
  by (auto simp: ParseOpenDatabase_def Let_def parseRawBytes_def slice_def split: bind_splits if_splits)

text \<open>The token, the version and the log after the last step; the deadline is gone.\<close>

lemma admitted_fields [simp]:
  "casInfo (admitted res c) = odCASInfo res" "protoVer (admitted res c) = odProtocolVersion res"
  "closed (admitted res c) = closed c" "autoCommit (admitted res c) = autoCommit c"
  "sent_log (admitted res c) = sent_log c" "is_open (admitted res c) = is_open c"
  "incoming (admitted res c) = incoming c" "live (admitted res c) = live c"
  "cSocket (admitted res c) = None \<longleftrightarrow> cSocket c = None"
  by (auto simp: admitted_def resetDeadline_def setDeadline_def sock_set_deadline_def sent_log_def is_open_def
      incoming_def live_def split: option.splits)

lemma admitted_deadline: "is_open c \<Longrightarrow> deadline_of (admitted res c) = None"
  by (auto simp: admitted_def resetDeadline_def setDeadline_def sock_set_deadline_def deadline_of_def is_open_def
      split: option.splits)

text \<open>Whatever the server answers: the socket stays as open as it was, and a success is a session.\<close>

lemma openDatabase_keeps:
  assumes "openDatabase w c = Some (r, c')" and "is_open c"
  shows "is_open c' \<and> closed c' = closed c \<and> prefix (sent_log c) (sent_log c')
    \<and> (r = Inr () \<longrightarrow> deadline_of c' = None \<and> length (casInfo c') = SizeCASInfo)"
proof -
  let ?req = "WriteOpenDatabase (cDatabase c) (cUser c) (cPassword c)"
  obtain x c1 where x: "conversation ?req (armed w c) = Some (x, c1)"
    using assms(1) by (auto simp: openDatabase_conversation split: option.splits)
  from conversation_keeps [OF x] have k: "is_open c1" "prefix (sent_log c) (sent_log c1)" "closed c1 = closed c"
    using assms(2) settings_eqD [of c1 c] by (auto simp: grows_def)
  show ?thesis
  proof (cases x)
    case (Inl e)
    then show ?thesis using assms(1) x k by (auto simp: openDatabase_conversation)
  next
    case (Inr res)
    have "length (odCASInfo res) = SizeCASInfo"
      using x Inr ParseOpenDatabase_token
      by (auto simp: conversation_def bindM_def parsed_def split: option.splits sum.splits)
    then show ?thesis
      using assms(1) x k Inr admitted_deadline [OF k(1)] by (auto simp: openDatabase_conversation)
  qed
qed

text \<open>A server that answers: its result, or its error, is the outcome.\<close>

lemma openDatabase_answer:
  assumes "live c" and "incoming c = response data @ rest" and "framed_ok data"
    and "ParseOpenDatabase data = Some x"
  shows "\<exists>c1. exchanged (armed w c) [WriteOpenDatabase (cDatabase c) (cUser c) (cPassword c)] rest c1
    \<and> openDatabase w c = Some (case x of Inl e \<Rightarrow> (Inl e, c1) | Inr res \<Rightarrow> (Inr (), admitted res c1))"
proof -
  let ?req = "WriteOpenDatabase (cDatabase c) (cUser c) (cPassword c)"
  have "live (armed w c)" "incoming (armed w c) = response data @ rest" using assms(1,2) by simp_all
  from sendAndRecv_ok [OF this assms(3)] obtain c1 where
    "sendAndRecv ?req (armed w c) = Some (Inr data, c1)" "exchanged (armed w c) [?req] rest c1" by blast
  then show ?thesis
    using assms(4) by (auto simp: openDatabase_conversation conversation_def bindM_def parsed_def split: sum.splits)
qed

text \<open>The broker's answer.\<close>

definition fresh :: "socket \<Rightarrow> bool" where
  "fresh s \<longleftrightarrow> opened s \<and> outcomes s = [] \<and> sent s = [] \<and> deadline s = None"

definition fresh_dials :: "network \<Rightarrow> bool" where
  "fresh_dials w \<longleftrightarrow> (\<forall>n a t s. dialTimeout w n a t = Inr s \<longrightarrow> fresh s)"

lemma fresh_dialsD: "fresh_dials w \<Longrightarrow> dialTimeout w n a t = Inr s \<Longrightarrow> fresh s"
  by (simp add: fresh_dials_def)

lemma askBroker_answer:
  assumes "fresh s" and "stream (inbox s) = be32 p @ rest"
  shows "\<exists>s'. askBroker w t s = (if sint p < 0
        then (Some (Inl (OperationalError \<lparr>Code = sint p, Message = ''broker rejected connection''\<rparr>)), sock_close s')
        else (Some (Inr (sint p)), s'))
    \<and> opened s' \<and> outcomes s' = [] \<and> sent s' = [WriteClientInfoExchange] \<and> stream (inbox s') = rest"
proof -
  from read_full_ok [of 4 "inbox s" "[]"] assms(2) obtain es where
    es: "read_full 4 [] (inbox s) = (Inr (be32 p), es)" "stream es = rest" by auto
  let ?s = "(arm (clock w 0) t s)\<lparr>sent := [WriteClientInfoExchange], inbox := es\<rparr>"
  have a: "opened (arm (clock w 0) t s)" "outcomes (arm (clock w 0) t s) = []" "sent (arm (clock w 0) t s) = []"
      "inbox (arm (clock w 0) t s) = inbox s"
    using assms(1) by (auto simp: fresh_def arm_def sock_set_deadline_def)
  have u: "Uint32 (be32 p) = Some p" using Uint32_be32 [of p "[]"] by simp
  show ?thesis
    using a es u by (intro exI [of _ ?s]) (simp add: askBroker_def sock_write_def sock_read_full_def Let_def)
qed

lemma askBroker_keeps:
  assumes "askBroker w t s = (r, s')" and "opened s"
  shows "case r of Some (Inr p) \<Rightarrow> opened s' \<and> 0 \<le> p | Some (Inl e) \<Rightarrow> \<not> opened s' | None \<Rightarrow> False"
proof -
  let ?a = "arm (clock w 0) t s"
  obtain e s1 where s1: "sock_write WriteClientInfoExchange ?a = (e, s1)" by (cases "sock_write WriteClientInfoExchange ?a")
  obtain x s2 where s2: "sock_read_full 4 s1 = (x, s2)" by (cases "sock_read_full 4 s1")
  have "opened s1 = opened ?a" by (metis s1 snd_conv sock_opened(1))
  moreover have "opened s2 = opened s1" by (metis s2 snd_conv sock_opened(2))
  ultimately have o: "opened s2" using assms(2) by (simp add: arm_def)
  show ?thesis
  proof (cases x)
    case (Inr b)
    then obtain v where "Uint32 b = Some v"
      using s2 sock_read_full_length [of 4 s1] Uint32_None_iff [of b] by (cases "Uint32 b") auto
    with Inr assms(1) s1 s2 o show ?thesis
      by (auto simp: askBroker_def Let_def split: option.splits if_splits)
  qed (use assms(1) s1 s2 in \<open>auto simp: askBroker_def Let_def split: option.splits\<close>)
qed

lemma askBroker_short:
  assumes "fresh s" and "length (stream (inbox s)) < 4"
  shows "\<exists>s'. askBroker w t s = (Some (Inl (short_read (stream (inbox s)) (failure (inbox s)))), sock_close s')"
proof -
  have a: "opened (arm (clock w 0) t s)" "outcomes (arm (clock w 0) t s) = []"
      "inbox (arm (clock w 0) t s) = inbox s"
    using assms(1) by (auto simp: fresh_def arm_def sock_set_deadline_def)
  then show ?thesis
    using read_full_short [OF assms(2), of "[]"]
    by (auto simp: askBroker_def sock_write_def sock_read_full_def Let_def)
qed

section \<open>Where connect ends\<close>

text \<open>Both redirections lead to the same last steps on an open socket, with the broker's socket closed
  when it is another one.\<close>

lemma connect_run:
  assumes "connect w c = Some (err, c', broker)" and "\<And>n a t s. dialTimeout w n a t = Inr s \<Longrightarrow> opened s"
  obtains (refused) e where "err = Some e" "c' = c \<or> c' = c\<lparr>cSocket := None\<rparr>" "\<And>b. broker = Some b \<Longrightarrow> \<not> opened b"
    | (reached) s r where "opened s" "openDatabase w (c\<lparr>cSocket := Some s\<rparr>) = Some (r, c')"
      "err = (case r of Inl e \<Rightarrow> Some e | Inr _ \<Rightarrow> None)" "\<And>b. broker = Some b \<Longrightarrow> \<not> opened b"
proof (cases "dialTimeout w 0 (address (cHost c) (cPort c)) (cTimeout c)")
  case (Inl e)
  then show ?thesis using assms(1) refused by (auto simp: connect_def)
next
  case (Inr s)
  obtain x s1 where a: "askBroker w (cTimeout c) s = (x, s1)" by (cases "askBroker w (cTimeout c) s")
  note k = askBroker_keeps [OF a assms(2) [OF Inr]]
  have op: thesis if "opened t" "finish b (openDatabase w (c\<lparr>cSocket := Some t\<rparr>)) = Some (err, c', broker)"
      "b = None \<or> (\<exists>t. b = Some (sock_close t))" for b t
    using that reached [OF that(1)] by (auto simp: finish_def split: option.splits sum.splits)
  consider (fail) e where "x = Some (Inl e)" | (port) p where "x = Some (Inr p)"
    using k by (auto split: option.splits sum.splits)
  then show ?thesis
  proof cases
    case fail
    with a k Inr assms(1) refused show ?thesis by (auto simp: connect_def)
  next
    case (port p)
    show ?thesis
    proof (cases "p > 0")
      case False
      with port a k Inr assms(1) op [of s1 None] show ?thesis by (auto simp: connect_def)
    next
      case True
      show ?thesis
      proof (cases "dialTimeout w 1 (address (cHost c) p) (cTimeout c)")
        case (Inl e)
        with True port a Inr assms(1) refused show ?thesis by (auto simp: connect_def Let_def)
      next
        case (Inr t)
        with True port a \<open>dialTimeout w 0 _ _ = _\<close> assms(1) op [OF assms(2) [OF Inr], of "Some (sock_close s1)"]
        show ?thesis by (auto simp: connect_def Let_def)
      qed
    qed
  qed
qed

section \<open>Properties\<close>

text \<open>C16: A successful \<open>connect\<close> of a connection that is not closed establishes the invariant of a session,
  whatever the network did on sockets that were dialed open: the connection's socket is open with no deadline, its token has four bytes, and a broker socket that is not
  the connection's own is closed.  Every state that later operations and late watchers reach keeps the
  invariant, and has no deadline as long as no watcher fires outside the operation that started it.\<close>

theorem connect_establishes_session:
  assumes "connect w c = Some (None, c', broker)" and "\<not> closed c"
    and "\<And>n a t s. dialTimeout w n a t = Inr s \<Longrightarrow> opened s"
  shows "session_ok c' \<and> is_open c' \<and> deadline_of c' = None \<and> (\<forall>b. broker = Some b \<longrightarrow> \<not> opened b)
    \<and> (session_step\<^sup>*\<^sup>* c' c'' \<longrightarrow> session_ok c'')
    \<and> ((session_event False)\<^sup>*\<^sup>* c' c'' \<longrightarrow> deadline_of c'' = None)"
  using assms(1,3)
proof (rule connect_run)
  fix s r
  assume s: "opened s" "openDatabase w (c\<lparr>cSocket := Some s\<rparr>) = Some (r, c')"
    and r: "None = (case r of Inl e \<Rightarrow> Some e | Inr _ \<Rightarrow> None)"
    and b: "\<And>b. broker = Some b \<Longrightarrow> \<not> opened b"
  have "is_open (c\<lparr>cSocket := Some s\<rparr>)" using s(1) by (simp add: is_open_def)
  from openDatabase_keeps [OF s(2) this] r assms(2)
  have k: "is_open c'" "\<not> closed c'" "deadline_of c' = None" "length (casInfo c') = SizeCASInfo"
    by (auto split: sum.splits)
  then have ok: "session_ok c'" by (auto simp: session_ok_def is_open_def split: option.splits)
  then show ?thesis
    using k b session_reaches [of c' c''] calm_session [of c' c''] by auto
qed auto

text \<open>A network for examples: what the broker and the CAS deliver.\<close>

definition peer :: "read_event list \<Rightarrow> socket" where
  "peer es = \<lparr>inbox = es, outcomes = [], sent = [], deadline = None, opened = True\<rparr>"

definition sample_net :: "read_event list \<Rightarrow> read_event list \<Rightarrow> network" where
  "sample_net broker cas =
     \<lparr>dialTimeout = (\<lambda>n a t. if a = ''db:33000'' then Inr (peer broker)
        else if a = ''db:30001'' then Inr (peer cas) else Inl ''no route to host''), clock = (\<lambda>n. 1000)\<rparr>"

definition idle_conn :: conn where
  "idle_conn = \<lparr>cSocket = None, cHost = ''db'', cPort = 33000, cDatabase = ''demodb'', cUser = ''dba'',
     cPassword = [], cTimeout = 30, casInfo = [0, 0, 0, 0], protoVer = 0, autoCommit = True, closed = False\<rparr>"

text \<open>The server's answer to OPEN_DATABASE.\<close>

definition greeting :: "byte list \<Rightarrow> int32 \<Rightarrow> byte list \<Rightarrow> int32 \<Rightarrow> byte list" where
  "greeting cas rc info sid = cas @ be32 rc @ info @ be32 sid"

lemma fresh_peer [simp]: "fresh (peer es)" "inbox (peer es) = es" "opened (peer es)"
  by (simp_all add: fresh_def peer_def)

lemma sample_addresses: "address ''db'' 33000 = ''db:33000''" "address ''db'' 30001 = ''db:30001''"
  by code_simp+

lemma greeting_facts:
  assumes "length tok = SizeCASInfo" and "length info = SizeBrokerInfo" and "0 \<le> sint rc"
  shows "framed_ok (greeting tok rc info sid)"
    and "ParseOpenDatabase (greeting tok rc info sid) = Some (Inr
      \<lparr>odCASInfo = tok, odProtocolVersion = uint (info ! 4) AND 0x3F, odSessionID = sint sid\<rparr>)"
  using assms ParseOpenDatabase_img [OF assms(1,3,2), of sid "[]"]
  by (simp_all add: greeting_def framed_ok_def)

text \<open>The handshake, when broker and CAS answer.  The ten bytes of the client information go to the
  broker; on port 0 the database is opened on the same socket, on a positive port the broker's socket
  is closed and the database is opened on a socket dialed to that port of the same host.  The
  connection takes the token and the protocol version from the answer, has consumed exactly the
  answer, keeps its settings and is left without a deadline.\<close>

lemma connect_handshake_run:
  assumes "dialTimeout w 0 (address (cHost c) (cPort c)) (cTimeout c) = Inr b" and "fresh b"
    and "stream (inbox b) = be32 p @ extra" and "0 \<le> sint p"
    and "sint p > 0 \<Longrightarrow> dialTimeout w 1 (address (cHost c) (sint p)) (cTimeout c) = Inr s \<and> fresh s"
    and "(if sint p > 0 then stream (inbox s) else extra) = response (greeting tok rc info sid) @ rest"
    and "length tok = SizeCASInfo" and "length info = SizeBrokerInfo" and "0 \<le> sint rc"
  shows "\<exists>c' broker. connect w c = Some (None, c', broker)
    \<and> casInfo c' = tok \<and> protoVer c' = uint (info ! 4) AND 0x3F \<and> autoCommit c' = autoCommit c
    \<and> live c' \<and> incoming c' = rest \<and> deadline_of c' = None
    \<and> sent_log c' = (if sint p > 0 then [] else [WriteClientInfoExchange])
        @ [WriteOpenDatabase (cDatabase c) (cUser c) (cPassword c)]
    \<and> (if sint p > 0 then \<exists>b'. broker = Some b' \<and> \<not> opened b' \<and> sent b' = [WriteClientInfoExchange]
       else broker = None)"
proof -
  from askBroker_answer [OF assms(2,3), of w "cTimeout c"] assms(4) obtain b1 where
    ask: "askBroker w (cTimeout c) b = (Some (Inr (sint p)), b1)" and b1: "opened b1" "outcomes b1 = []"
      "sent b1 = [WriteClientInfoExchange]" "stream (inbox b1) = extra" by auto
  define t where "t = (if sint p > 0 then s else b1)"
  define d where "d = c\<lparr>cSocket := Some t\<rparr>"
  have t: "opened t" "outcomes t = []"
    using assms(5) b1 by (auto simp: t_def fresh_def split: if_splits)
  have d: "live d" "incoming d = response (greeting tok rc info sid) @ rest"
    using t assms(6) b1(4) by (auto simp: live_def incoming_def d_def t_def split: if_splits)
  note g = greeting_facts [OF assms(7-9)]
  from openDatabase_answer [OF d g] obtain c1 where
    x: "exchanged (armed w d) [WriteOpenDatabase (cDatabase c) (cUser c) (cPassword c)] rest c1"
    and run: "openDatabase w d = Some (Inr (), admitted \<lparr>odCASInfo = tok,
      odProtocolVersion = uint (info ! 4) AND 0x3F, odSessionID = sint sid\<rparr> c1)"
    by (auto simp: d_def)
  note e = exchangedD [OF x]
  have "is_open c1" using e(1) by (auto simp: live_def is_open_def split: option.splits)
  note deadline = admitted_deadline [OF this]
  have l: "sent_log d = (if sint p > 0 then [] else [WriteClientInfoExchange])"
    using assms(5) b1(3) by (simp add: d_def t_def sent_log_def fresh_def)
  have a: "autoCommit c1 = autoCommit c"
    using e(9) settings_eqD [of c1 d] by (simp add: d_def)
  have "connect w c = Some (None, admitted \<lparr>odCASInfo = tok, odProtocolVersion = uint (info ! 4) AND 0x3F,
      odSessionID = sint sid\<rparr> c1, if sint p > 0 then Some (sock_close b1) else None)"
    using assms(1,5) ask run by (cases "sint p > 0") (simp_all add: connect_def Let_def finish_def d_def t_def)
  with e l a b1 deadline show ?thesis by (simp add: sock_close_def)
qed


text \<open>A successful \<open>connect\<close> leaves the connection as closed as it was.\<close>

lemma openDatabase_closed:
  assumes "openDatabase w c = Some (r, c')"
  shows "closed c' = closed c"
proof -
  let ?req = "WriteOpenDatabase (cDatabase c) (cUser c) (cPassword c)"
  obtain x c1 where x: "conversation ?req (armed w c) = Some (x, c1)"
    using assms by (auto simp: openDatabase_conversation split: option.splits)
  from conversation_keeps [OF x] have "closed c1 = closed c" using settings_eqD [of c1 c] by simp
  then show ?thesis using assms x by (auto simp: openDatabase_conversation split: sum.splits)
qed

lemma connect_closed: "connect w c = Some (None, c', broker) \<Longrightarrow> closed c' = closed c"
  by (auto simp: connect_def finish_def Let_def dest!: openDatabase_closed
      split: sum.splits option.splits prod.splits if_splits)

theorem connect_establishes_session_witness:
  "\<exists>c' broker. connect (sample_net [Chunk [0, 0, 0, 0, 0, 0, 0, 24], Chunk (greeting [1, 2, 3, 4] 0 [0, 0, 0, 0, 69, 0, 0, 0, 0, 0, 0, 0, 0, 0, 0, 0] 7)] [])
      idle_conn = Some (None, c', broker) \<and> session_ok (Close c')"
proof -
  let ?g = "greeting [1, 2, 3, 4] 0 [0, 0, 0, 0, 69, 0, 0, 0, 0, 0, 0, 0, 0, 0, 0, 0] 7"
  let ?es = "[Chunk [0, 0, 0, 0, 0, 0, 0, 24], Chunk ?g]"
  let ?w = "sample_net ?es []"
  have d: "dialTimeout ?w 0 (address (cHost idle_conn) (cPort idle_conn)) (cTimeout idle_conn) = Inr (peer ?es)"
    by (simp add: sample_net_def idle_conn_def sample_addresses)
  have i: "stream ?es = be32 0 @ [0, 0, 0, 24] @ ?g" by (simp add: be32_def)
  have r: "response ?g = [0, 0, 0, 24] @ ?g" by (simp add: response_def greeting_def be32_def)
  from connect_handshake_run [OF d fresh_peer(1), where p = 0 and tok = "[1, 2, 3, 4]" and rc = 0
      and info = "[0, 0, 0, 0, 69, 0, 0, 0, 0, 0, 0, 0, 0, 0, 0, 0]" and sid = 7 and extra = "[0, 0, 0, 24] @ ?g" and rest = "[]"]
  obtain c' broker where c: "connect ?w idle_conn = Some (None, c', broker)"
    using i r by auto
  have n: "\<not> closed idle_conn" by (simp add: idle_conn_def)
  have o: "opened s" if "dialTimeout ?w n a t = Inr s" for n a t s
    using that by (auto simp: sample_net_def split: if_splits)
  have "session_step\<^sup>*\<^sup>* c' (Close c')"
    by (rule r_into_rtranclp) (rule session_stepI [OF session_event.close])
  with connect_establishes_session [OF c n] o have "session_ok (Close c')" by blast
  with c show ?thesis by blast
qed

section \<open>Every outcome\<close>

text \<open>What a step gives as a function of the streams and of the outcomes of the writes: the opening of the
  database, and the whole of \<open>connect\<close>, with the error it returns (or \<open>None\<close>, a panic) and whether it came
  as far as the opening.\<close>

definition write_failure :: "write_event list \<Rightarrow> go_error option" where
  "write_failure os = (case os of WriteFail k e # _ \<Rightarrow> Some e | _ \<Rightarrow> None)"

definition opening_end :: "write_event list \<Rightarrow> byte list \<Rightarrow> go_error \<Rightarrow> (go_error + unit) option" where
  "opening_end os bytes failed = (case write_failure os of
       Some e \<Rightarrow> Some (Inl e)
     | None \<Rightarrow>
         (case first_frame bytes of
            None \<Rightarrow> Some (Inl (short_read (if length bytes < 4 then bytes else drop 4 bytes) failed))
          | Some (data, rest) \<Rightarrow> map_option (map_sum id (\<lambda>_. ())) (ParseOpenDatabase data)))"

definition connect_end :: "network \<Rightarrow> conn \<Rightarrow> (go_error + unit) option \<times> bool" where
  "connect_end w c = (case dialTimeout w 0 (address (cHost c) (cPort c)) (cTimeout c) of
       Inl e \<Rightarrow> (Some (Inl (dial_error ''dial broker '' (address (cHost c) (cPort c)) e)), False)
     | Inr b \<Rightarrow>
         (case write_failure (outcomes b) of
            Some e \<Rightarrow> (Some (Inl e), False)
          | None \<Rightarrow>
              (case Uint32 (stream (inbox b)) of
                 None \<Rightarrow> (Some (Inl (short_read (stream (inbox b)) (failure (inbox b)))), False)
               | Some p \<Rightarrow>
                   if sint p < 0 then (Some (Inl (OperationalError
                     \<lparr>Code = sint p, Message = ''broker rejected connection''\<rparr>)), False)
                   else if sint p = 0
                   then (opening_end (tl (outcomes b)) (drop 4 (stream (inbox b))) (failure (inbox b)), True)
                   else (case dialTimeout w 1 (address (cHost c) (sint p)) (cTimeout c) of
                     Inl e \<Rightarrow> (Some (Inl (dial_error ''dial CAS '' (address (cHost c) (sint p)) e)), False)
                   | Inr s \<Rightarrow> (opening_end (outcomes s) (stream (inbox s)) (failure (inbox s)), True)))))"

text \<open>Reads from an open socket, whatever its writes will do.\<close>

lemma read_exact_open:
  assumes "is_open c"
  shows "\<exists>c'. read_exact n c = Some (if length (incoming c) < n
        then Inl (short_read (incoming c) (net_failure c)) else Inr (take n (incoming c)), c')
    \<and> (n \<le> length (incoming c) \<longrightarrow> is_open c' \<and> incoming c' = drop n (incoming c) \<and> net_failure c' = net_failure c)"
proof -
  obtain s where s: "cSocket c = Some s" "opened s"
    using assms by (auto simp: is_open_def split: option.splits)
  show ?thesis
  proof (cases "length (stream (inbox s)) < n")
    case True
    from read_full_short [OF this, of "[]"] True s show ?thesis
      by (auto simp: read_exact_def sock_read_full_def incoming_def net_failure_def)
  next
    case False
    then have "n \<le> length (stream (inbox s))" by simp
    from read_full_ok [OF this, of "[]"] False s show ?thesis
      by (cases "n = 0") (auto simp: read_exact_def sock_read_full_def incoming_def net_failure_def is_open_def)
  qed
qed

lemma recv_open:
  assumes "is_open c"
  shows "\<exists>c'. recv c = Some (case first_frame (incoming c) of
      Some (data, rest) \<Rightarrow> Inr data
    | None \<Rightarrow> Inl (short_read (if length (incoming c) < 4 then incoming c else drop 4 (incoming c)) (net_failure c)), c')"
proof (cases "length (incoming c) < 4")
  case True
  with read_exact_open [OF assms, of 4] show ?thesis by (auto simp: first_frame_def recv_def bindM_def)
next
  case False
  obtain v where v: "Uint32 (take 4 (incoming c)) = Some v" "Uint32 (incoming c) = Some v"
    using False Uint32_None_iff [of "incoming c"] by (cases "Uint32 (incoming c)") auto
  have n: "frame_length (incoming c) = unat v + 4" by (simp add: frame_length_def v)
  obtain c1 where 1: "read_exact 4 c = Some (Inr (take 4 (incoming c)), c1)"
      "is_open c1" "incoming c1 = drop 4 (incoming c)" "net_failure c1 = net_failure c"
    using read_exact_open [OF assms, of 4] False by auto
  have "recv c = read_exact (frame_length (incoming c)) c1"
    using 1(1) by (simp add: recv_def bindM_def v n Let_def)
  with read_exact_open [OF 1(2), of "frame_length (incoming c)"] 1(3,4) False show ?thesis
    by (auto simp: first_frame_def)
qed

lemma openDatabase_end:
  assumes "cSocket c = Some s" and "opened s"
  shows "map_option fst (openDatabase w c) = opening_end (outcomes s) (stream (inbox s)) (failure (inbox s))"
proof -
  let ?req = "WriteOpenDatabase (cDatabase c) (cUser c) (cPassword c)"
  have a: "cSocket (armed w c) = Some (arm (clock w 1) (cTimeout c) s)" using assms(1) by (simp add: armed_def)
  have f: "opened (arm n t s)" "outcomes (arm n t s) = outcomes s" "inbox (arm n t s) = inbox s" for n t
    using assms(2) by (simp_all add: arm_def sock_set_deadline_def)
  show ?thesis
  proof (cases "write_failure (outcomes s)")
    case (Some e)
    then obtain c1 where "send ?req (armed w c) = Some (Inl e, c1)"
      using a f by (auto simp: send_def sock_write_def write_failure_def Let_def split: list.splits write_event.splits)
    with Some show ?thesis
      by (simp add: openDatabase_conversation conversation_def sendAndRecv_def bindM_def opening_end_def)
  next
    case None
    then obtain c1 where s1: "send ?req (armed w c) = Some (Inr (), c1)" "is_open c1"
        "incoming c1 = stream (inbox s)" "net_failure c1 = failure (inbox s)"
      using a f by (auto simp: send_def sock_write_def write_failure_def Let_def is_open_def incoming_def
          net_failure_def split: list.splits write_event.splits)
    from recv_open [OF s1(2)] obtain c2 where "recv c1 = Some (case first_frame (stream (inbox s)) of
        Some (data, rest) \<Rightarrow> Inr data | None \<Rightarrow> Inl (short_read (if length (stream (inbox s)) < 4
          then stream (inbox s) else drop 4 (stream (inbox s))) (failure (inbox s))), c2)"
      unfolding s1(3,4) by blast
    with None s1(1) show ?thesis
      by (auto simp: openDatabase_conversation conversation_def sendAndRecv_def bindM_def parsed_def
          opening_end_def split: option.splits sum.splits)
  qed
qed

lemma askBroker_end:
  assumes "opened s"
  shows "fst (askBroker w t s) = Some (case write_failure (outcomes s) of
      Some e \<Rightarrow> Inl e
    | None \<Rightarrow> (case Uint32 (stream (inbox s)) of
        None \<Rightarrow> Inl (short_read (stream (inbox s)) (failure (inbox s)))
      | Some p \<Rightarrow> if sint p < 0
          then Inl (OperationalError \<lparr>Code = sint p, Message = ''broker rejected connection''\<rparr>)
          else Inr (sint p)))"
    and "fst (askBroker w t s) = Some (Inr q) \<Longrightarrow> outcomes (snd (askBroker w t s)) = tl (outcomes s)
      \<and> stream (inbox (snd (askBroker w t s))) = drop 4 (stream (inbox s))
      \<and> failure (inbox (snd (askBroker w t s))) = failure (inbox s)"
proof -
  let ?a = "arm (clock w 0) t s" and ?bs = "stream (inbox s)"
  have f: "opened ?a" "outcomes ?a = outcomes s" "inbox ?a = inbox s"
    using assms by (simp_all add: arm_def sock_set_deadline_def)
  have "fst (askBroker w t s) = Some (case write_failure (outcomes s) of
      Some e \<Rightarrow> Inl e
    | None \<Rightarrow> (case Uint32 ?bs of
        None \<Rightarrow> Inl (short_read ?bs (failure (inbox s)))
      | Some p \<Rightarrow> if sint p < 0
          then Inl (OperationalError \<lparr>Code = sint p, Message = ''broker rejected connection''\<rparr>)
          else Inr (sint p)))
    \<and> (fst (askBroker w t s) = Some (Inr q) \<longrightarrow> outcomes (snd (askBroker w t s)) = tl (outcomes s)
      \<and> stream (inbox (snd (askBroker w t s))) = drop 4 ?bs
      \<and> failure (inbox (snd (askBroker w t s))) = failure (inbox s))"
  proof (cases "write_failure (outcomes s)")
    case (Some e)
    with f show ?thesis
      by (auto simp: askBroker_def sock_write_def write_failure_def Let_def split: list.splits write_event.splits)
  next
    case None
    then obtain s1 where s1: "sock_write WriteClientInfoExchange ?a = (None, s1)"
        "opened s1" "inbox s1 = inbox s" "outcomes s1 = tl (outcomes s)"
      using f by (auto simp: sock_write_def write_failure_def split: list.splits write_event.splits)
    show ?thesis
    proof (cases "length ?bs < 4")
      case True
      then have "Uint32 ?bs = None" by (simp add: Uint32_None_iff)
      with None s1 read_full_short [OF True, of "[]"] show ?thesis
        by (simp add: askBroker_def sock_read_full_def Let_def)
    next
      case False
      then have "4 \<le> length ?bs" by simp
      from read_full_ok [OF this, of "[]"] obtain es where
        es: "read_full 4 [] (inbox s) = (Inr (take 4 ?bs), es)" "stream es = drop 4 ?bs" "failure es = failure (inbox s)"
        by auto
      obtain v where v: "Uint32 (take 4 ?bs) = Some v" "Uint32 ?bs = Some v"
        using False Uint32_None_iff [of ?bs] by (cases "Uint32 ?bs") auto
      with None s1 es show ?thesis
        by (simp add: askBroker_def sock_read_full_def Let_def)
    qed
  qed
  then show "fst (askBroker w t s) = Some (case write_failure (outcomes s) of
      Some e \<Rightarrow> Inl e
    | None \<Rightarrow> (case Uint32 ?bs of
        None \<Rightarrow> Inl (short_read ?bs (failure (inbox s)))
      | Some p \<Rightarrow> if sint p < 0
          then Inl (OperationalError \<lparr>Code = sint p, Message = ''broker rejected connection''\<rparr>)
          else Inr (sint p)))"
    "fst (askBroker w t s) = Some (Inr q) \<Longrightarrow> outcomes (snd (askBroker w t s)) = tl (outcomes s)
      \<and> stream (inbox (snd (askBroker w t s))) = drop 4 ?bs
      \<and> failure (inbox (snd (askBroker w t s))) = failure (inbox s)"
    by blast+
qed

text \<open>An answer to OPEN_DATABASE crashes the caller exactly when it ends before the response code, before
  the error code that a negative one announces, or before the session number.\<close>

lemma open_database_panics_iff:
  "ParseOpenDatabase data = None \<longleftrightarrow> length data < 8
    \<or> (\<exists>rc. Uint32 (drop 4 data) = Some rc \<and> length data < (if sint rc < 0 then 12 else 28))"
proof (cases "length data < 8")
  case True
  have "ParseOpenDatabase data = None"
  proof (cases "length data < 4")
    case True
    then show ?thesis
      using parseRawBytes_panics_iff [of "newPacketReader data" 4]
      by (simp add: ParseOpenDatabase_def newPacketReader_rd)
  next
    case False
    then have "parseRawBytes 4 (newPacketReader data) = Some (take 4 data, rd (take 4 data) (drop 4 data))"
      using parseRawBytes_rd [of 4 "take 4 data" "[]" "drop 4 data"] by (simp add: newPacketReader_rd)
    moreover have "parseInt (rd (take 4 data) (drop 4 data)) = None"
      using True int32.panics_rd by simp
    ultimately show ?thesis by (simp add: ParseOpenDatabase_def)
  qed
  with True show ?thesis by simp
next
  case False
  then have "8 \<le> length data" by simp
  then obtain cas rc body where s: "data = cas @ body" "length cas = 4" "Uint32 body = Some rc"
    "parseRawBytes 4 (newPacketReader data) = Some (cas, rd cas body)"
    "parseInt (rd cas body) = Some (rc, rd (cas @ take 4 body) (drop 4 body))"
    by (rule split_response)
  have l: "drop 4 data = body" using s(1,2) by simp
  show ?thesis
  proof (cases "sint rc < 0")
    case True
    have "raiseError (int (length data) - 8) (rd (cas @ take 4 body) (drop 4 body)) = None
        \<longleftrightarrow> length (drop 4 body) < 4"
      by (rule raiseError_panics) (use s(1,2) False in simp)
    moreover have "ParseOpenDatabase data = None
        \<longleftrightarrow> raiseError (int (length data) - 8) (rd (cas @ take 4 body) (drop 4 body)) = None"
      using True by (cases "raiseError (int (length data) - 8) (rd (cas @ take 4 body) (drop 4 body))")
        (simp_all only: ParseOpenDatabase_def SizeCASInfo_def SizeInt_def s(4,5) Let_def bind.simps prod.case, simp_all)
    ultimately show ?thesis using True False s l by auto
  next
    case nonneg: False
    let ?rest = "drop 4 body" and ?pre = "cas @ take 4 body"
    have run: "ParseOpenDatabase data = do {
       (brokerBytes, reader) \<leftarrow> parseRawBytes SizeBrokerInfo (rd ?pre ?rest);
       b4 \<leftarrow> index brokerBytes 4;
       (sessionID, reader) \<leftarrow> parseInt reader;
       Some (Inr \<lparr>odCASInfo = cas, odProtocolVersion = uint b4 AND 0x3F, odSessionID = sint sessionID\<rparr>) }"
      using nonneg by (simp add: ParseOpenDatabase_def s(4,5))
    have "ParseOpenDatabase data = None \<longleftrightarrow> length ?rest < 20"
    proof (cases "length ?rest < 16")
      case True
      then have "parseRawBytes 16 (rd ?pre ?rest) = None"
        by (subst parseRawBytes_panics_iff) (auto simp: rd_def rwf_def)
      with True show ?thesis by (simp add: run)
    next
      case False
      then have "parseRawBytes 16 (rd ?pre ?rest) = Some (take 16 ?rest, rd (?pre @ take 16 ?rest) (drop 16 ?rest))"
        using parseRawBytes_rd [of 16 "take 16 ?rest" ?pre "drop 16 ?rest"]
        by (simp del: drop_drop append_assoc)
      moreover have "index (take 16 ?rest) 4 = Some (?rest ! 4)" using False by (simp add: index_def)
      moreover have "parseInt (rd (?pre @ take 16 ?rest) (drop 16 ?rest)) = None \<longleftrightarrow> length ?rest < 20"
        using False int32.panics_rd [of "?pre @ take 16 ?rest" "drop 16 ?rest"] by auto
      ultimately show ?thesis
        by (cases "parseInt (rd (?pre @ take 16 ?rest) (drop 16 ?rest))") (auto simp: run)
    qed
    moreover have "length ?rest < 20 \<longleftrightarrow> length data < 28" using s(1,2) False by auto
    ultimately show ?thesis using nonneg False s(3) l by simp
  qed
qed

section \<open>The property\<close>

text \<open>C23: Every outcome of \<open>connect\<close> on a connection that has no socket yet, over all dials, whose sockets are
  open, all streams however they are cut, and all outcomes of the writes.  It fails with the dial's error when the broker is unreachable;
  with the write's error, or an error for the short answer, when the broker hangs up; with the broker's
  own negative port; with the dial's error when the CAS is; and past that point, on the CAS's socket or
  on port 0 on the broker's, with the write's error, an error for a short frame, or the server's error.
  An answer to OPEN_DATABASE that ends before the response code, the error code or the session number
  crashes it.  Otherwise it succeeds.  A broker socket that is not the connection's own is always closed,
  and the connection's socket is open exactly when the opening of the database was reached: also when
  that fails, although the caller then receives no connection that could close it.\<close>

theorem connect_error_outcomes:
  assumes "\<And>n a t s. dialTimeout w n a t = Inr s \<Longrightarrow> opened s" and "cSocket c = None"
  shows "(case connect w c of
      None \<Rightarrow> fst (connect_end w c) = None
    | Some (err, c', broker) \<Rightarrow>
        fst (connect_end w c) = Some (case err of Some e \<Rightarrow> Inl e | None \<Rightarrow> Inr ())
        \<and> (\<forall>b. broker = Some b \<longrightarrow> \<not> opened b) \<and> (is_open c' \<longleftrightarrow> snd (connect_end w c)))
    \<and> (ParseOpenDatabase data = None \<longleftrightarrow> length data < 8
      \<or> (\<exists>rc. Uint32 (drop 4 data) = Some rc \<and> length data < (if sint rc < 0 then 12 else 28)))"
proof -
  have shut: "\<not> is_open c" "\<not> is_open (c\<lparr>cSocket := None\<rparr>)" using assms(2) by (simp_all add: is_open_def)
  have op: "case finish b (openDatabase w (c\<lparr>cSocket := Some s\<rparr>)) of
      None \<Rightarrow> opening_end (outcomes s) (stream (inbox s)) (failure (inbox s)) = None
    | Some (err, c', broker) \<Rightarrow> opening_end (outcomes s) (stream (inbox s)) (failure (inbox s))
          = Some (case err of Some e \<Rightarrow> Inl e | None \<Rightarrow> Inr ()) \<and> broker = b \<and> is_open c'"
    if "opened s" for b s
  proof -
    have "cSocket (c\<lparr>cSocket := Some s\<rparr>) = Some s" by simp
    note e = openDatabase_end [OF this that, of w]
    have "is_open (c\<lparr>cSocket := Some s\<rparr>)" using that by (simp add: is_open_def)
    then show ?thesis
      using e openDatabase_keeps [of w "c\<lparr>cSocket := Some s\<rparr>"]
      by (fastforce simp: finish_def split: option.splits sum.splits)
  qed
  have "case connect w c of
      None \<Rightarrow> fst (connect_end w c) = None
    | Some (err, c', broker) \<Rightarrow>
        fst (connect_end w c) = Some (case err of Some e \<Rightarrow> Inl e | None \<Rightarrow> Inr ())
        \<and> (\<forall>b. broker = Some b \<longrightarrow> \<not> opened b) \<and> (is_open c' \<longleftrightarrow> snd (connect_end w c))"
  proof (cases "dialTimeout w 0 (address (cHost c) (cPort c)) (cTimeout c)")
    case (Inl e)
    then show ?thesis using shut by (simp add: connect_def connect_end_def)
  next
    case (Inr b)
    obtain x b1 where a: "askBroker w (cTimeout c) b = (x, b1)" by force
    note ask = askBroker_end [OF assms(1) [OF Inr], of w "cTimeout c", unfolded a fst_conv snd_conv]
    note keeps = askBroker_keeps [OF a assms(1) [OF Inr]]
    show ?thesis
    proof (cases "write_failure (outcomes b)")
      case (Some e)
      with Inr a ask(1) keeps shut show ?thesis by (simp add: connect_def connect_end_def)
    next
      case ok: None
      show ?thesis
      proof (cases "Uint32 (stream (inbox b))")
        case None
        with ok Inr a ask(1) keeps shut show ?thesis by (simp add: connect_def connect_end_def)
      next
        case (Some p)
        consider "sint p < 0" | "sint p = 0" | "sint p > 0" by linarith
        then show ?thesis
        proof cases
          case 1
          with ok Some Inr a ask(1) keeps shut show ?thesis by (simp add: connect_def connect_end_def)
        next
          case 2
          then have x: "x = Some (Inr 0)" using ok Some ask(1) by simp
          from op [of b1 None] ask(2) [OF x] keeps x ok Some 2 Inr a show ?thesis
            by (auto simp: connect_def connect_end_def split: option.splits)
        next
          case 3
          then have x: "x = Some (Inr (sint p))" using ok Some ask(1) by simp
          show ?thesis
          proof (cases "dialTimeout w 1 (address (cHost c) (sint p)) (cTimeout c)")
            case (Inl e)
            with 3 x ok Some \<open>dialTimeout w 0 _ _ = _\<close> a shut show ?thesis
              by (simp add: connect_def connect_end_def Let_def)
          next
            case (Inr s)
            with op [OF assms(1) [OF Inr], of "Some (sock_close b1)"] 3 x ok Some
              \<open>dialTimeout w 0 _ _ = _\<close> a show ?thesis
              by (auto simp: connect_def connect_end_def Let_def split: option.splits)
          qed
        qed
      qed
    qed
  qed
  with open_database_panics_iff [of data] show ?thesis by blast
qed

lemma first_frame_response:
  assumes "framed_ok data"
  shows "first_frame (response data @ rest) = Some (data, rest)"
proof -
  have "frame_length (response data @ rest) = length data"
    using assms unat_len [OF assms] by (simp add: frame_length_def response_def del: of_int_diff)
  then show ?thesis by (simp add: first_frame_def response_def)
qed

theorem connect_error_outcomes_witness:
  "\<exists>c' broker. connect (sample_net [Chunk (be32 30001)]
      [Chunk (response (error_img [0, 0, 0, 0] (-1) (-677) ''no such database''))]) idle_conn
    = Some (Some (newError (-677) ''no such database''), c', broker) \<and> is_open c'
      \<and> (\<forall>b. broker = Some b \<longrightarrow> \<not> opened b)"
proof -
  let ?m = "error_img [0, 0, 0, 0] (-1) (-677) ''no such database''"
  let ?w = "sample_net [Chunk (be32 30001)] [Chunk (response ?m)]"
  have d: "dialTimeout ?w 0 (address (cHost idle_conn) (cPort idle_conn)) (cTimeout idle_conn) = Inr (peer [Chunk (be32 30001)])"
      "dialTimeout ?w 1 (address (cHost idle_conn) (sint (30001 :: int32))) (cTimeout idle_conn) = Inr (peer [Chunk (response ?m)])"
    by (simp_all add: sample_net_def idle_conn_def sample_addresses)
  have o: "opened s" if "dialTimeout ?w n a t = Inr s" for n a t s
    using that by (auto simp: sample_net_def split: if_splits)
  have "framed_ok ?m" by (simp add: error_img_def framed_ok_def)
  note f = first_frame_response [OF this, of "[]", unfolded append_Nil2]
  have "ParseOpenDatabase ?m = Some (Inl (newError (-677) ''no such database''))"
    using error_response [of "[0, 0, 0, 0]" "-1" "-677" "''no such database''"]
    by (simp add: ParseOpenDatabase_def Let_def)
  then have "opening_end [] (response ?m) IoEOF = Some (Inl (newError (-677) ''no such database''))"
    by (simp add: opening_end_def write_failure_def f)
  moreover have "Uint32 (be32 30001) = Some (30001 :: int32)" using Uint32_be32 [of 30001 "[]"] by simp
  ultimately have e: "connect_end ?w idle_conn = (Some (Inl (newError (-677) ''no such database'')), True)"
    using d by (simp add: connect_end_def peer_def write_failure_def)
  have "cSocket idle_conn = None" by (simp add: idle_conn_def)
  have "case connect ?w idle_conn of
      None \<Rightarrow> fst (connect_end ?w idle_conn) = None
    | Some (err, c', broker) \<Rightarrow>
        fst (connect_end ?w idle_conn) = Some (case err of Some e \<Rightarrow> Inl e | None \<Rightarrow> Inr ())
        \<and> (\<forall>b. broker = Some b \<longrightarrow> \<not> opened b) \<and> (is_open c' \<longleftrightarrow> snd (connect_end ?w idle_conn))"
    by (rule connect_error_outcomes [THEN conjunct1]) (use o \<open>cSocket idle_conn = None\<close> in blast)+
  note all = this [unfolded e fst_conv snd_conv]
  show ?thesis
  proof (cases "connect ?w idle_conn")
    case None
    with all show ?thesis by simp
  next
    case (Some out)
    with all show ?thesis by (cases out) (auto split: option.splits)
  qed
qed

end
