(* ===== verification/GoUrl.thy ===== *)
theory GoUrl
  imports GoStrings
begin

text \<open>
  \<^verbatim>\<open>net/url\<close> as the driver uses it (Go 1.21): \<open>url_parse\<close> with the component decoding of \<open>unescape\<close>, and the
  methods \<open>Hostname\<close>, \<open>Port\<close> and \<open>Query().Get\<close>.  A string is a list of bytes, as in Go.  The fields
  \<^verbatim>\<open>RawPath\<close>, \<^verbatim>\<open>ForceQuery\<close>, \<^verbatim>\<open>OmitHost\<close> and the fragment, which the driver never reads, are left out; a
  fragment that cannot be decoded is still an error.
\<close>

section \<open>Characters\<close>

definition is_alnum :: "char \<Rightarrow> bool" where
  "is_alnum c \<longleftrightarrow> (CHR ''a'' \<le> c \<and> c \<le> CHR ''z'') \<or> (CHR ''A'' \<le> c \<and> c \<le> CHR ''Z'') \<or> is_digit c"

definition is_alpha :: "char \<Rightarrow> bool" where
  "is_alpha c \<longleftrightarrow> (CHR ''a'' \<le> c \<and> c \<le> CHR ''z'') \<or> (CHR ''A'' \<le> c \<and> c \<le> CHR ''Z'')"

definition ishex :: "char \<Rightarrow> bool" where
  "ishex c \<longleftrightarrow> is_digit c \<or> (CHR ''a'' \<le> c \<and> c \<le> CHR ''f'') \<or> (CHR ''A'' \<le> c \<and> c \<le> CHR ''F'')"

definition unhex :: "char \<Rightarrow> nat" where
  "unhex c = (if is_digit c then of_char c - 48
     else if CHR ''a'' \<le> c \<and> c \<le> CHR ''f'' then of_char c - 97 + 10
     else if CHR ''A'' \<le> c \<and> c \<le> CHR ''F'' then of_char c - 65 + 10 else 0)"

definition is_ctl :: "char \<Rightarrow> bool" where
  "is_ctl c \<longleftrightarrow> of_char c < (32 :: nat) \<or> of_char c = (127 :: nat)"

section \<open>Cutting strings\<close>

text \<open>\<^verbatim>\<open>strings.Cut\<close> at the first occurrence of a byte, and at the last one.\<close>

definition cut :: "char \<Rightarrow> string \<Rightarrow> string \<times> string" where
  "cut c s = (takeWhile (\<lambda>x. x \<noteq> c) s, drop 1 (dropWhile (\<lambda>x. x \<noteq> c) s))"

definition cut_last :: "char \<Rightarrow> string \<Rightarrow> string \<times> string" where
  "cut_last c s = (rev (drop 1 (dropWhile (\<lambda>x. x \<noteq> c) (rev s))), rev (takeWhile (\<lambda>x. x \<noteq> c) (rev s)))"

section \<open>Decoding\<close>

datatype encoding = EncodePath | EncodeUserPassword | EncodeHost | EncodeZone | EncodeQueryComponent | EncodeFragment

datatype url_error =
    InvalidControlChar | MissingScheme | ColonInFirstSegment | InvalidPortAfterHost string
  | MissingBracket | InvalidUserinfo | EscapeError string | InvalidHostError string

text \<open>\<^verbatim>\<open>shouldEscape\<close> for a host, the only mode in which decoding asks.\<close>

definition host_char :: "char \<Rightarrow> bool" where
  "host_char c \<longleftrightarrow> is_alnum c \<or> c \<in> set ''!$&()*+,;=:[]<>-_.~'' \<or> c = CHR 0x27 \<or> c = CHR 0x22"

text \<open>Whether an escaped byte is allowed in a host (only bytes beyond ASCII, and the percent sign) or a zone.\<close>

definition escape_allowed :: "encoding \<Rightarrow> char \<Rightarrow> char \<Rightarrow> bool" where
  "escape_allowed mode a b =
     (case mode of
        EncodeHost \<Rightarrow> 8 \<le> unhex a \<or> [a, b] = ''25''
      | EncodeZone \<Rightarrow> [a, b] = ''25'' \<or> (let v = char_of (unhex a * 16 + unhex b) in v = CHR '' '' \<or> host_char v)
      | _ \<Rightarrow> True)"

fun unescape :: "encoding \<Rightarrow> string \<Rightarrow> url_error + string" where
  "unescape mode [] = Inr []"
| "unescape mode (c # s) =
     (if c = CHR ''%'' then
        (case s of
           a # b # r \<Rightarrow>
             if ishex a \<and> ishex b then
               if escape_allowed mode a b
               then map_sum id (\<lambda>t. char_of (unhex a * 16 + unhex b) # t) (unescape mode r)
               else Inl (EscapeError (take 3 (c # s)))
             else Inl (EscapeError (take 3 (c # s)))
         | _ \<Rightarrow> Inl (EscapeError (take 3 (c # s))))
      else if mode \<in> {EncodeHost, EncodeZone} \<and> of_char c < (128 :: nat) \<and> \<not> host_char c
      then Inl (InvalidHostError [c])
      else map_sum id (\<lambda>t. (if c = CHR ''+'' \<and> mode = EncodeQueryComponent then CHR '' '' else c) # t) (unescape mode s))"

section \<open>The parser\<close>

text \<open>A user is a name and, when a colon follows, a password.\<close>

record URL =
  Scheme :: string
  User :: "(string \<times> string option) option"
  Host :: string
  Path :: string
  RawQuery :: string

definition valid_optional_port :: "string \<Rightarrow> bool" where
  "valid_optional_port p \<longleftrightarrow> p = [] \<or> hd p = CHR '':'' \<and> list_all is_digit (tl p)"

definition valid_userinfo :: "string \<Rightarrow> bool" where
  "valid_userinfo s \<longleftrightarrow> list_all (\<lambda>c. is_alnum c \<or> c \<in> set ''-._:~!$&()*+,;=%@'' \<or> c = CHR 0x27) s"

fun getScheme_loop :: "string \<Rightarrow> string \<Rightarrow> string \<Rightarrow> url_error + (string \<times> string)" where
  "getScheme_loop raw done [] = Inr ([], raw)"
| "getScheme_loop raw done (c # s) =
     (if is_alpha c then getScheme_loop raw (done @ [c]) s
      else if is_digit c \<or> c \<in> set ''+-.'' then
        (if done = [] then Inr ([], raw) else getScheme_loop raw (done @ [c]) s)
      else if c = CHR '':'' then (if done = [] then Inl MissingScheme else Inr (done, s))
      else Inr ([], raw))"

definition getScheme :: "string \<Rightarrow> url_error + (string \<times> string)" where
  "getScheme raw = getScheme_loop raw [] raw"

text \<open>The position of \<^verbatim>\<open>%25\<close>, which begins the zone of an IPv6 literal.\<close>

fun before_zone :: "string \<Rightarrow> string option" where
  "before_zone [] = None"
| "before_zone (c # s) = (if take 3 (c # s) = ''%25'' then Some [] else map_option (\<lambda>t. c # t) (before_zone s))"

definition unescape3 :: "string \<Rightarrow> string \<Rightarrow> string \<Rightarrow> url_error + string" where
  "unescape3 a z b =
     (case unescape EncodeHost a of Inl e \<Rightarrow> Inl e | Inr x \<Rightarrow>
        (case unescape EncodeZone z of Inl e \<Rightarrow> Inl e | Inr y \<Rightarrow> map_sum id (\<lambda>w. x @ y @ w) (unescape EncodeHost b)))"

definition parseHost :: "string \<Rightarrow> url_error + string" where
  "parseHost host =
     (if host \<noteq> [] \<and> hd host = CHR ''['' then
        (if CHR '']'' \<notin> set host then Inl MissingBracket
         else let (inside, colonPort) = cut_last (CHR '']'') host in
           if \<not> valid_optional_port colonPort then Inl (InvalidPortAfterHost colonPort)
           else case before_zone inside of
               None \<Rightarrow> unescape EncodeHost host
             | Some h1 \<Rightarrow> unescape3 h1 (drop (length h1) inside) (drop (length inside) host))
      else if CHR '':'' \<in> set host then
        (let colonPort = CHR '':'' # snd (cut_last (CHR '':'') host) in
           if \<not> valid_optional_port colonPort then Inl (InvalidPortAfterHost colonPort)
           else unescape EncodeHost host)
      else unescape EncodeHost host)"

definition parseUserinfo :: "string \<Rightarrow> url_error + (string \<times> string option)" where
  "parseUserinfo u =
     (if \<not> valid_userinfo u then Inl InvalidUserinfo
      else if CHR '':'' \<notin> set u then map_sum id (\<lambda>n. (n, None)) (unescape EncodeUserPassword u)
      else let (name, password) = cut (CHR '':'') u in
        case unescape EncodeUserPassword name of
          Inl e \<Rightarrow> Inl e
        | Inr n \<Rightarrow> map_sum id (\<lambda>p. (n, Some p)) (unescape EncodeUserPassword password))"

definition parseAuthority :: "string \<Rightarrow> url_error + ((string \<times> string option) option \<times> string)" where
  "parseAuthority a =
     (if CHR ''@'' \<notin> set a then map_sum id (\<lambda>h. (None, h)) (parseHost a)
      else let (userinfo, host) = cut_last (CHR ''@'') a in
        case parseHost host of
          Inl e \<Rightarrow> Inl e
        | Inr h \<Rightarrow> map_sum id (\<lambda>u. (Some u, h)) (parseUserinfo userinfo))"

definition toLowerASCII :: "string \<Rightarrow> string" where
  "toLowerASCII s = map (\<lambda>c. if CHR ''A'' \<le> c \<and> c \<le> CHR ''Z'' then char_of (of_char c + 32 :: nat) else c) s"

definition split_query :: "string \<Rightarrow> string \<times> string" where
  "split_query rest =
     (if rest \<noteq> [] \<and> last rest = CHR ''?'' \<and> length (filter (\<lambda>c. c = CHR ''?'') rest) = 1
      then (butlast rest, []) else cut (CHR ''?'') rest)"

text \<open>The scheme is a list of letters, digits and three signs, so lowering its bytes is \<^verbatim>\<open>strings.ToLower\<close>.\<close>

definition parse_no_fragment :: "string \<Rightarrow> url_error + URL" where
  "parse_no_fragment raw =
     (if list_ex is_ctl raw then Inl InvalidControlChar
      else if raw = ''*'' then Inr \<lparr>Scheme = [], User = None, Host = [], Path = ''*'', RawQuery = []\<rparr>
      else case getScheme raw of
        Inl e \<Rightarrow> Inl e
      | Inr (scheme, rest) \<Rightarrow>
          (let scheme = toLowerASCII scheme; (rest, query) = split_query rest in
           if \<not> prefix ''/'' rest \<and> scheme \<noteq> [] then
             Inr \<lparr>Scheme = scheme, User = None, Host = [], Path = [], RawQuery = query\<rparr>
           else if \<not> prefix ''/'' rest \<and> CHR '':'' \<in> set (fst (cut (CHR ''/'') rest)) then Inl ColonInFirstSegment
           else
             (case (if (scheme \<noteq> [] \<or> \<not> prefix ''///'' rest) \<and> prefix ''//'' rest
                    then (let authority = takeWhile (\<lambda>c. c \<noteq> CHR ''/'') (drop 2 rest)
                          in map_sum id (\<lambda>uh. (uh, drop (length authority) (drop 2 rest))) (parseAuthority authority))
                    else Inr ((None, []), rest)) of
                Inl e \<Rightarrow> Inl e
              | Inr ((user, host), path) \<Rightarrow>
                  map_sum id (\<lambda>p. \<lparr>Scheme = scheme, User = user, Host = host, Path = p, RawQuery = query\<rparr>)
                    (unescape EncodePath path))))"

definition url_parse :: "string \<Rightarrow> url_error + URL" where
  "url_parse raw =
     (let (u, frag) = cut (CHR ''#'') raw in
      case parse_no_fragment u of
        Inl e \<Rightarrow> Inl e
      | Inr url \<Rightarrow>
          if frag = [] then Inr url
          else (case unescape EncodeFragment frag of Inl e \<Rightarrow> Inl e | Inr _ \<Rightarrow> Inr url))"

section \<open>Methods\<close>

definition splitHostPort :: "string \<Rightarrow> string \<times> string" where
  "splitHostPort hp =
     (let (host, port) =
        (if CHR '':'' \<in> set hp \<and> valid_optional_port (CHR '':'' # snd (cut_last (CHR '':'') hp))
         then cut_last (CHR '':'') hp else (hp, []))
      in (if host \<noteq> [] \<and> hd host = CHR ''['' \<and> last host = CHR '']'' then butlast (tl host) else host, port))"

definition Hostname :: "URL \<Rightarrow> string" where "Hostname u = fst (splitHostPort (Host u))"

definition Port :: "URL \<Rightarrow> string" where "Port u = snd (splitHostPort (Host u))"

text \<open>\<^verbatim>\<open>Query()\<close> keeps the pairs it can decode, in order; \<open>Get\<close> returns the first value of a key.\<close>

function parseQuery :: "string \<Rightarrow> (string \<times> string) list" where
  "parseQuery query =
     (if query = [] then []
      else let (part, rest) = cut (CHR ''&'') query in
        if CHR '';'' \<in> set part \<or> part = [] then parseQuery rest
        else let (key, val) = cut (CHR ''='') part in
          case unescape EncodeQueryComponent key of
            Inl e \<Rightarrow> parseQuery rest
          | Inr k \<Rightarrow> (case unescape EncodeQueryComponent val of
                Inl e \<Rightarrow> parseQuery rest
              | Inr v \<Rightarrow> (k, v) # parseQuery rest))"
  by pat_completeness auto
termination
proof (relation "measure length", goal_cases)
  case 1
  show ?case by simp
next
  case (2 query x part rest)
  then show ?case using length_dropWhile_le [of "\<lambda>c. c \<noteq> CHR ''&''" query] by (cases query) (auto simp: cut_def)
next
  case (3 query x part rest y key val a)
  then show ?case using length_dropWhile_le [of "\<lambda>c. c \<noteq> CHR ''&''" query] by (cases query) (auto simp: cut_def)
next
  case (4 query x part rest y key val a b)
  then show ?case using length_dropWhile_le [of "\<lambda>c. c \<noteq> CHR ''&''" query] by (cases query) (auto simp: cut_def)
next
  case (5 query x part rest y key val a b)
  then show ?case using length_dropWhile_le [of "\<lambda>c. c \<noteq> CHR ''&''" query] by (cases query) (auto simp: cut_def)
qed

declare parseQuery.simps [simp del]

definition query_get :: "string \<Rightarrow> URL \<Rightarrow> string" where
  "query_get k u = (case map_of (parseQuery (RawQuery u)) k of None \<Rightarrow> [] | Some v \<Rightarrow> v)"

section \<open>Percent encoding\<close>

text \<open>A component with every byte but letters and digits escaped, as RFC 3986 allows, reads back as itself.\<close>

definition hexdigit :: "nat \<Rightarrow> char" where
  "hexdigit n = ''0123456789ABCDEF'' ! n"

definition pct_char :: "char \<Rightarrow> string" where
  "pct_char c = (if is_alnum c then [c] else [CHR ''%'', hexdigit (of_char c div 16), hexdigit (of_char c mod 16)])"

definition pct :: "string \<Rightarrow> string" where
  "pct s = concat (map pct_char s)"

lemma hexdigit_facts:
  assumes "n < 16"
  shows "ishex (hexdigit n) \<and> unhex (hexdigit n) = n \<and> is_alnum (hexdigit n)"
proof -
  have "\<forall>n \<in> set [0..<16]. ishex (hexdigit n) \<and> unhex (hexdigit n) = n \<and> is_alnum (hexdigit n)" by code_simp
  with assms show ?thesis by simp
qed

lemma char_halves: "char_of (of_char c div 16 * 16 + of_char c mod 16 :: nat) = c"
  by simp

lemma of_char_halves: "of_char c div 16 < (16 :: nat)" "of_char c mod 16 < (16 :: nat)"
proof -
  have "of_char c < (256 :: nat)" by (rule nat_of_char_less_256)
  then show "of_char c div 16 < (16 :: nat)" by (simp add: less_mult_imp_div_less)
qed simp

lemma not_alnum_signs [simp]:
  "\<not> is_alnum CHR ''%''" "\<not> is_alnum CHR ''#''" "\<not> is_alnum CHR ''?''" "\<not> is_alnum CHR ''/''"
  "\<not> is_alnum CHR ''@''" "\<not> is_alnum CHR '':''" "\<not> is_alnum CHR ''&''" "\<not> is_alnum CHR ''=''"
  "\<not> is_alnum CHR '';''" "\<not> is_alnum CHR ''+''" "\<not> is_alnum CHR ''[''" "\<not> is_alnum CHR '']''"
  "\<not> is_alnum CHR ''-''" "\<not> is_alnum CHR ''.''"
  by code_simp+

lemma unescape_pct:
  assumes "mode \<notin> {EncodeHost, EncodeZone}"
  shows "unescape mode (pct s @ t) = map_sum id (\<lambda>u. s @ u) (unescape mode t)"
proof (induction s)
  case Nil
  show ?case by (cases "unescape mode t") (simp_all add: pct_def)
next
  case (Cons c s)
  have allowed: "escape_allowed mode a b" for a b
    using assms by (cases mode) (simp_all add: escape_allowed_def)
  show ?case
  proof (cases "is_alnum c")
    case True
    then have "c \<noteq> CHR ''%''" "c \<noteq> CHR ''+''" by auto
    with True Cons assms show ?thesis
      by (cases "unescape mode t") (simp_all add: pct_def pct_char_def)
  next
    case False
    with Cons allowed hexdigit_facts of_char_halves [of c] show ?thesis
      by (cases "unescape mode t") (simp_all add: pct_def pct_char_def)
  qed
qed

lemma pct_chars: "c \<in> set (pct s) \<Longrightarrow> is_alnum c \<or> c = CHR ''%''"
  using hexdigit_facts of_char_halves
  by (fastforce simp: pct_def pct_char_def split: if_splits)

text \<open>A host name: letters, digits, dots and hyphens.\<close>

definition host_name :: "string \<Rightarrow> bool" where
  "host_name h \<longleftrightarrow> h \<noteq> [] \<and> (\<forall>c \<in> set h. is_alnum c \<or> c = CHR ''.'' \<or> c = CHR ''-'')"

lemma unescape_plain:
  assumes "\<forall>c \<in> set s. host_char c \<and> c \<noteq> CHR ''%''"
  shows "unescape EncodeHost s = Inr s"
  using assms by (induction s) simp_all

section \<open>Cutting at a separator\<close>

lemma cut_append: "c \<notin> set a \<Longrightarrow> cut c (a @ c # b) = (a, b)"
  by (auto simp: cut_def takeWhile_append dropWhile_append)

lemma cut_none: "c \<notin> set a \<Longrightarrow> cut c a = (a, [])"
  by (induction a) (auto simp: cut_def)

lemma cut_last_append: "c \<notin> set b \<Longrightarrow> cut_last c (a @ c # b) = (a, b)"
  by (auto simp: cut_last_def takeWhile_append dropWhile_append)

section \<open>Parsing a URL from its parts\<close>

lemma alnum_not_ctl: "is_alnum c \<Longrightarrow> \<not> is_ctl c"
  by (auto simp: is_alnum_def is_digit_def is_ctl_def less_eq_char_def)

definition clean :: "string \<Rightarrow> bool" where
  "clean s \<longleftrightarrow> (\<forall>c \<in> set s. \<not> is_ctl c \<and> c \<noteq> CHR ''#'' \<and> c \<noteq> CHR ''?'')"

lemma clean_append [simp]: "clean (s @ t) \<longleftrightarrow> clean s \<and> clean t"
  by (auto simp: clean_def)

lemma clean_Cons [simp]: "clean (c # s) \<longleftrightarrow> \<not> is_ctl c \<and> c \<noteq> CHR ''#'' \<and> c \<noteq> CHR ''?'' \<and> clean s"
  by (simp add: clean_def)

lemma clean_Nil [simp]: "clean []"
  by (simp add: clean_def)

lemma clean_notin: "clean s \<Longrightarrow> CHR ''#'' \<notin> set s" "clean s \<Longrightarrow> CHR ''?'' \<notin> set s"
  by (auto simp: clean_def)

lemma clean_no_ctl: "clean s \<Longrightarrow> \<not> list_ex is_ctl s"
  by (auto simp: clean_def list_ex_iff)

lemma clean_alnum: "\<forall>c \<in> set s. is_alnum c \<or> c \<in> set ''%.-'' \<Longrightarrow> clean s"
proof -
  have "\<not> is_ctl CHR ''%''" "\<not> is_ctl CHR ''.''" "\<not> is_ctl CHR ''-''" by code_simp+
  then show "\<forall>c \<in> set s. is_alnum c \<or> c \<in> set ''%.-'' \<Longrightarrow> clean s"
    using alnum_not_ctl by (fastforce simp: clean_def)
qed

lemma getScheme_cubrid: "getScheme (''cubrid:'' @ rest) = Inr (''cubrid'', rest)"
proof -
  have "is_alpha c" if "c \<in> set ''cubrid''" for c
  proof -
    have "\<forall>c \<in> set ''cubrid''. is_alpha c" by code_simp
    with that show ?thesis by blast
  qed
  moreover have "\<not> is_alpha CHR '':''" "\<not> is_digit CHR '':''" by code_simp+
  ultimately show ?thesis by (simp add: getScheme_def)
qed

lemma url_parse_parts:
  assumes "clean a" "clean p" "clean q" and "CHR ''/'' \<notin> set a" and "q \<noteq> []"
  shows "url_parse (''cubrid://'' @ a @ ''/'' @ p @ ''?'' @ q) =
    (case parseAuthority a of
       Inl e \<Rightarrow> Inl e
     | Inr (user, host) \<Rightarrow> map_sum id (\<lambda>p. \<lparr>Scheme = ''cubrid'', User = user, Host = host, Path = p, RawQuery = q\<rparr>)
         (unescape EncodePath (CHR ''/'' # p)))"
proof -
  let ?rest = "''//'' @ a @ ''/'' @ p @ ''?'' @ q"
  let ?u = "''cubrid:'' @ ?rest"
  have frag: "cut (CHR ''#'') ?u = (?u, [])"
    using clean_notin [OF assms(1)] clean_notin [OF assms(2)] clean_notin [OF assms(3)] by (intro cut_none) simp
  have ctl: "\<not> list_ex is_ctl ?u"
  proof -
    have "\<not> list_ex is_ctl ''cubrid://''" "\<not> is_ctl CHR ''/''" "\<not> is_ctl CHR ''?''" by code_simp+
    with assms(1-3) [THEN clean_no_ctl] show ?thesis by simp
  qed
  have "CHR ''?'' \<notin> set (''//'' @ a @ ''/'' @ p)"
    using clean_notin [OF assms(1)] clean_notin [OF assms(2)] by simp
  from cut_append [OF this, of q] have "cut (CHR ''?'') ?rest = (''//'' @ a @ ''/'' @ p, q)" by simp
  moreover have "last ?rest \<noteq> CHR ''?''"
    using clean_notin(2) [OF assms(3)] assms(5) last_in_set [OF assms(5)] by (metis append_is_Nil_conv last_append)
  ultimately have query: "split_query ?rest = (''//'' @ a @ ''/'' @ p, q)"
    by (simp add: split_query_def)
  have auth: "takeWhile (\<lambda>c. c \<noteq> CHR ''/'') (a @ ''/'' @ p) = a"
    using assms(4) by (auto simp: takeWhile_append)
  have low: "toLowerASCII ''cubrid'' = ''cubrid''" by code_simp
  have "parse_no_fragment ?u = (case parseAuthority a of
       Inl e \<Rightarrow> Inl e
     | Inr (user, host) \<Rightarrow> map_sum id (\<lambda>p. \<lparr>Scheme = ''cubrid'', User = user, Host = host, Path = p, RawQuery = q\<rparr>)
         (unescape EncodePath (CHR ''/'' # p)))"
    using ctl query auth low getScheme_cubrid [of ?rest]
    by (simp add: parse_no_fragment_def split: sum.splits prod.splits)
  then show ?thesis using frag by (auto simp: url_parse_def split: sum.splits)
qed

lemma host_name_char: "host_name h \<Longrightarrow> c \<in> set h \<Longrightarrow> is_alnum c \<or> c = CHR ''.'' \<or> c = CHR ''-''"
  by (simp add: host_name_def)

lemma port_char: "list_all is_digit port \<Longrightarrow> c \<in> set port \<Longrightarrow> is_alnum c"
  by (simp add: list_all_iff is_alnum_def)

lemma host_port_signs:
  assumes "host_name h" and "list_all is_digit port"
  shows "CHR ''@'' \<notin> set h" "CHR ''@'' \<notin> set port" "CHR '':'' \<notin> set port" "hd h \<noteq> CHR ''[''" "h \<noteq> []"
    "CHR ''/'' \<notin> set h" "CHR ''/'' \<notin> set port"
proof -
  show "h \<noteq> []" using assms(1) by (simp add: host_name_def)
  then have "hd h \<in> set h" by simp
  then show "hd h \<noteq> CHR ''[''" using host_name_char [OF assms(1), of "hd h"] by auto
qed (use host_name_char [OF assms(1)] port_char [OF assms(2)] in force)+

lemma host_port_chars:
  assumes "host_name h" and "list_all is_digit port"
  shows "\<forall>c \<in> set (h @ '':'' @ port). (is_alnum c \<or> c \<in> set ''.-:'') \<and> c \<noteq> CHR ''%''"
  using host_name_char [OF assms(1)] port_char [OF assms(2)] host_name_char [OF assms(1), of "CHR ''%''"]
    port_char [OF assms(2), of "CHR ''%''"] by auto

lemma host_charI: "is_alnum c \<or> c \<in> set ''.-:'' \<Longrightarrow> host_char c"
  by (auto simp: host_char_def)

lemma parseAuthority_parts:
  assumes "CHR ''@'' \<notin> set host" and "parseHost host = Inr host"
  shows "parseAuthority (pct name @ '':'' @ pct password @ ''@'' @ host) =
    Inr (Some (name, Some password), host)"
proof -
  let ?u = "pct name @ '':'' @ pct password"
  have cut_at: "cut_last (CHR ''@'') (?u @ ''@'' @ host) = (?u, host)"
    using cut_last_append [OF assms(1), of ?u] by simp
  have valid: "valid_userinfo ?u"
    using pct_chars by (fastforce simp: valid_userinfo_def list_all_iff)
  have colon: "CHR '':'' \<notin> set (pct name)" using pct_chars [of "CHR '':''" name] by auto
  have cut_colon: "cut (CHR '':'') ?u = (pct name, pct password)"
    using cut_append [OF colon, of "pct password"] by simp
  have dec: "unescape EncodeUserPassword (pct s) = Inr s" for s
    using unescape_pct [of EncodeUserPassword s "[]"] by simp
  show ?thesis
    using cut_at assms(2) valid cut_colon dec by (simp add: parseAuthority_def parseUserinfo_def)
qed

lemma parseHost_name:
  assumes "host_name h" and "list_all is_digit port"
  shows "parseHost (h @ '':'' @ port) = Inr (h @ '':'' @ port)"
proof -
  have signs: "CHR '':'' \<notin> set port" "hd h \<noteq> CHR ''[''" "h \<noteq> []"
    using host_port_signs [OF assms] by simp_all
  have "cut_last (CHR '':'') (h @ '':'' @ port) = (h, port)"
    using cut_last_append [OF signs(1), of h] by simp
  moreover have "unescape EncodeHost (h @ '':'' @ port) = Inr (h @ '':'' @ port)"
    by (rule unescape_plain) (use host_port_chars [OF assms] host_charI in blast)
  ultimately show ?thesis
    using signs assms(2) by (simp add: parseHost_def valid_optional_port_def)
qed

lemma splitHostPort_parts:
  assumes "host_name h" and "list_all is_digit port"
  shows "splitHostPort (h @ '':'' @ port) = (h, port)"
proof -
  have signs: "CHR '':'' \<notin> set port" "hd h \<noteq> CHR ''[''"
    using host_port_signs [OF assms] by simp_all
  have "cut_last (CHR '':'') (h @ '':'' @ port) = (h, port)"
    using cut_last_append [OF signs(1), of h] by simp
  then show ?thesis using signs(2) assms(2) by (simp add: splitHostPort_def valid_optional_port_def)
qed

section \<open>Hosts in brackets\<close>

text \<open>The text of an IPv6 literal: letters, digits, dots and colons, with at least one colon.  In a URL it
  stands in brackets.\<close>

definition ipv6_host :: "string \<Rightarrow> bool" where
  "ipv6_host h \<longleftrightarrow> CHR '':'' \<in> set h \<and> (\<forall>c \<in> set h. is_alnum c \<or> c = CHR ''.'' \<or> c = CHR '':'')"

definition host_text :: "string \<Rightarrow> string" where
  "host_text h = (if CHR '':'' \<in> set h then ''['' @ h @ '']'' else h)"

lemma host_text_name: "host_name h \<Longrightarrow> host_text h = h"
  using host_name_char [of h "CHR '':''"] by (auto simp: host_text_def)

lemma ipv6_char: "ipv6_host h \<Longrightarrow> c \<in> set h \<Longrightarrow> is_alnum c \<or> c = CHR ''.'' \<or> c = CHR '':''"
  by (simp add: ipv6_host_def)

lemma ipv6_text: "ipv6_host h \<Longrightarrow> host_text h = ''['' @ h @ '']''" "ipv6_host h \<Longrightarrow> h \<noteq> []"
  by (auto simp: ipv6_host_def host_text_def)

lemma ipv6_signs:
  assumes "ipv6_host h"
  shows "CHR ''@'' \<notin> set h" "CHR ''/'' \<notin> set h" "CHR ''['' \<notin> set h" "CHR '']'' \<notin> set h" "CHR ''%'' \<notin> set h"
  using ipv6_char [OF assms] by force+

lemma before_zone_plain: "CHR ''%'' \<notin> set s \<Longrightarrow> before_zone s = None"
  by (induction s) auto

lemma parseHost_ipv6:
  assumes "ipv6_host h" and "list_all is_digit port"
  shows "parseHost (''['' @ h @ '']:'' @ port) = Inr (''['' @ h @ '']:'' @ port)"
proof -
  have "CHR '']'' \<notin> set ('':'' @ port)"
    using port_char [OF assms(2), of "CHR '']''"] by auto
  from cut_last_append [OF this, of "''['' @ h"]
  have c: "cut_last (CHR '']'') (''['' @ h @ '']:'' @ port) = (''['' @ h, '':'' @ port)" by simp
  have "is_alnum c \<or> c \<in> set ''.:[]''" if "c \<in> set (''['' @ h @ '']:'' @ port)" for c
    using that ipv6_char [OF assms(1), of c] port_char [OF assms(2), of c] by auto
  moreover have "host_char c" "c \<noteq> CHR ''%''" if "is_alnum c \<or> c \<in> set ''.:[]''" for c
    using that by (auto simp: host_char_def)
  ultimately have "unescape EncodeHost (''['' @ h @ '']:'' @ port) = Inr (''['' @ h @ '']:'' @ port)"
    by (intro unescape_plain) blast
  moreover have "before_zone (''['' @ h) = None"
    by (rule before_zone_plain) (use ipv6_signs(5) [OF assms(1)] in simp)
  ultimately show ?thesis
    using c assms(2) by (simp add: parseHost_def valid_optional_port_def)
qed

lemma splitHostPort_ipv6:
  assumes "list_all is_digit port"
  shows "splitHostPort (''['' @ h @ '']:'' @ port) = (h, port)"
proof -
  have "CHR '':'' \<notin> set port" using port_char [OF assms, of "CHR '':''"] by auto
  from cut_last_append [OF this, of "''['' @ h @ '']''"]
  have "cut_last (CHR '':'') (''['' @ h @ '']:'' @ port) = (''['' @ h @ '']'', port)" by simp
  then show ?thesis using assms by (simp add: splitHostPort_def valid_optional_port_def)
qed

text \<open>Both forms of a host text, with a port.\<close>

lemma host_text_parsed:
  assumes "host_name h \<or> ipv6_host h" and "list_all is_digit port"
  defines "t \<equiv> host_text h @ '':'' @ port"
  shows "parseHost t = Inr t" "splitHostPort t = (h, port)" "CHR ''@'' \<notin> set t" "CHR ''/'' \<notin> set t"
    "clean (host_text h)" "h \<noteq> []"
proof -
  have p: "CHR ''@'' \<notin> set port" "CHR ''/'' \<notin> set port"
    using port_char [OF assms(2)] by force+
  have n: "parseHost t = Inr t \<and> splitHostPort t = (h, port) \<and> CHR ''@'' \<notin> set t \<and> CHR ''/'' \<notin> set t
      \<and> clean (host_text h) \<and> h \<noteq> []" if "host_name h"
  proof -
    have "clean h" by (rule clean_alnum) (use that host_name_char in auto)
    then show ?thesis
      using that assms(2) p parseHost_name [OF that assms(2)] splitHostPort_parts [OF that assms(2)]
        host_port_signs [OF that assms(2)] by (simp add: t_def host_text_name)
  qed
  have i: "parseHost t = Inr t \<and> splitHostPort t = (h, port) \<and> CHR ''@'' \<notin> set t \<and> CHR ''/'' \<notin> set t
      \<and> clean (host_text h) \<and> h \<noteq> []" if "ipv6_host h"
  proof -
    have "\<not> is_ctl CHR ''.''" "\<not> is_ctl CHR '':''" "\<not> is_ctl CHR ''[''" "\<not> is_ctl CHR '']''" by code_simp+
    moreover from this have "clean h"
      using ipv6_char [OF that] alnum_not_ctl by (fastforce simp: clean_def)
    ultimately show ?thesis
      using that p parseHost_ipv6 [OF that assms(2)] splitHostPort_ipv6 [OF assms(2), of h]
        ipv6_signs [OF that] by (simp add: t_def ipv6_text)
  qed
  show "parseHost t = Inr t" "splitHostPort t = (h, port)" "CHR ''@'' \<notin> set t" "CHR ''/'' \<notin> set t"
    "clean (host_text h)" "h \<noteq> []"
    using assms(1) n i by blast+
qed

end
