(* ===== verification/GoParse.thy ===== *)
theory GoParse
  imports GoStrings
begin

text \<open>
  The readers of \<^verbatim>\<open>strconv\<close> and \<^verbatim>\<open>time\<close> that the DSN parser calls: \<open>Atoi\<close>, \<open>ParseBool\<close> and \<open>ParseDuration\<close>.
  \<open>ParseDuration\<close> counts nanoseconds in a 64-bit word, written here as an \<open>int\<close> with its bounds, and
  multiplies a fraction in \<^verbatim>\<open>float64\<close>, written here as a quotient rounded to 53 bits after each operation.
\<close>

section \<open>strconv\<close>

datatype num_error = ErrSyntax | ErrRange

definition Atoi :: "string \<Rightarrow> num_error + int" where
  "Atoi s =
     (let neg = (s \<noteq> [] \<and> hd s = CHR ''-''); digits = (if s \<noteq> [] \<and> (hd s = CHR ''-'' \<or> hd s = CHR ''+'') then tl s else s)
      in if digits = [] \<or> \<not> list_all is_digit digits then Inl ErrSyntax
         else let n = (if neg then - dec_val digits else dec_val digits) in
           if n < - (2 ^ 63) \<or> 2 ^ 63 \<le> n then Inl ErrRange else Inr n)"

definition ParseBool :: "string \<Rightarrow> num_error + bool" where
  "ParseBool s =
     (if s \<in> {''1'', ''t'', ''T'', ''true'', ''TRUE'', ''True''} then Inr True
      else if s \<in> {''0'', ''f'', ''F'', ''false'', ''FALSE'', ''False''} then Inr False
      else Inl ErrSyntax)"

section \<open>float64 quotients\<close>

text \<open>A positive number as numerator and denominator; \<open>round53\<close> is the nearest \<^verbatim>\<open>float64\<close>, ties to even, for
  numbers in the normal range.  It scales the quotient into \<open>[2^52, 2^53)\<close> and keeps the integer part.\<close>

function scale_up :: "int \<Rightarrow> int \<Rightarrow> nat \<Rightarrow> int \<times> nat" where
  "scale_up n d k = (if 0 < n \<and> n < 2 ^ 52 * d then scale_up (2 * n) d (k + 1) else (n, k))"
  by pat_completeness auto
termination by (relation "measure (\<lambda>(n, d, k). nat (2 ^ 52 * d - n))") auto

function scale_down :: "int \<Rightarrow> int \<Rightarrow> nat \<Rightarrow> int \<times> nat" where
  "scale_down n d k = (if 0 < d \<and> 2 ^ 53 * d \<le> n then scale_down n (2 * d) (k + 1) else (d, k))"
  by pat_completeness auto
termination
proof (relation "measure (\<lambda>(n, d, k). nat (n - d))", goal_cases)
  case (2 n d k)
  then have "d < 2 ^ 53 * d" by simp
  with 2 show ?case by (auto simp: nat_less_iff)
qed simp

declare scale_up.simps [simp del] scale_down.simps [simp del]

definition half_even :: "int \<Rightarrow> int \<Rightarrow> int" where
  "half_even n d =
     (let q = n div d; r = n mod d in if 2 * r < d \<or> (2 * r = d \<and> even q) then q else q + 1)"

definition round53 :: "int \<times> int \<Rightarrow> int \<times> int" where
  "round53 x =
     (case x of (n, d) \<Rightarrow>
        (case scale_up n d 0 of (n', up) \<Rightarrow>
           (case scale_down n' d 0 of (d', down) \<Rightarrow> (half_even n' d' * 2 ^ down, 2 ^ up))))"

section \<open>time.ParseDuration\<close>

definition unitMap :: "string \<Rightarrow> int option" where
  "unitMap u =
     (if u = ''ns'' then Some 1
      else if u = ''us'' \<or> u = [char_of (0xC2 :: nat), char_of (0xB5 :: nat), CHR ''s'']
           \<or> u = [char_of (0xCE :: nat), char_of (0xBC :: nat), CHR ''s''] then Some 1000
      else if u = ''ms'' then Some 1000000
      else if u = ''s'' then Some 1000000000
      else if u = ''m'' then Some 60000000000
      else if u = ''h'' then Some 3600000000000
      else None)"

datatype duration_error = InvalidDuration | MissingUnit | UnknownUnit string

fun leadingInt :: "int \<Rightarrow> string \<Rightarrow> (int \<times> string) option" where
  "leadingInt x [] = Some (x, [])"
| "leadingInt x (c # s) =
     (if \<not> is_digit c then Some (x, c # s)
      else if x > 2 ^ 63 div 10 then None
      else let y = x * 10 + digit_val c in if y > 2 ^ 63 then None else leadingInt y s)"

text \<open>The digits of a fraction, their number (the scale is its power of ten), until they overflow.\<close>

fun leadingFraction :: "int \<Rightarrow> nat \<Rightarrow> bool \<Rightarrow> string \<Rightarrow> int \<times> nat \<times> string" where
  "leadingFraction x k over [] = (x, k, [])"
| "leadingFraction x k over (c # s) =
     (if \<not> is_digit c then (x, k, c # s)
      else if over then leadingFraction x k True s
      else if x > (2 ^ 63 - 1) div 10 then leadingFraction x k True s
      else let y = x * 10 + digit_val c in
        if y > 2 ^ 63 then leadingFraction x k True s else leadingFraction y (k + 1) False s)"

text \<open>\<^verbatim>\<open>uint64(float64(f) * (float64(unit) / scale))\<close>; the powers of ten up to the scale are exact.\<close>

definition fraction_nanos :: "int \<Rightarrow> int \<Rightarrow> nat \<Rightarrow> int" where
  "fraction_nanos f unit k =
     (let (fn, fd) = round53 (f, 1); (un, ud) = round53 (unit, 10 ^ k); (pn, pd) = round53 (fn * un, fd * ud)
      in pn div pd)"

definition not_unit :: "char \<Rightarrow> bool" where
  "not_unit c \<longleftrightarrow> c = CHR ''.'' \<or> is_digit c"

text \<open>One number with its unit, and the loop over all of them.\<close>

definition duration_item :: "string \<Rightarrow> duration_error + (int \<times> string)" where
  "duration_item s =
     (if s = [] \<or> \<not> not_unit (hd s) then Inl InvalidDuration
      else case leadingInt 0 s of
        None \<Rightarrow> Inl InvalidDuration
      | Some (v, s1) \<Rightarrow>
          (let pre = length s1 \<noteq> length s;
               (f, k, s2, post) =
                 (if s1 \<noteq> [] \<and> hd s1 = CHR ''.''
                  then (let (f, k, s2) = leadingFraction 0 0 False (tl s1) in (f, k, s2, length s2 \<noteq> length (tl s1)))
                  else (0, 0, s1, False))
           in if \<not> pre \<and> \<not> post then Inl InvalidDuration
              else let u = takeWhile (\<lambda>c. \<not> not_unit c) s2; rest = drop (length u) s2 in
                if u = [] then Inl MissingUnit
                else case unitMap u of
                  None \<Rightarrow> Inl (UnknownUnit u)
                | Some unit \<Rightarrow>
                    if v > 2 ^ 63 div unit then Inl InvalidDuration
                    else let w = v * unit + (if f > 0 then fraction_nanos f unit k else 0) in
                      if w > 2 ^ 63 then Inl InvalidDuration else Inr (w, rest)))"

lemma leadingInt_length: "leadingInt x s = Some (v, r) \<Longrightarrow> length r \<le> length s"
  by (induction x s rule: leadingInt.induct) (auto simp: Let_def split: if_splits)

lemma leadingFraction_length: "leadingFraction x k ov s = (v, j, r) \<Longrightarrow> length r \<le> length s"
  by (induction x k ov s rule: leadingFraction.induct) (auto simp: Let_def split: if_splits)

lemma duration_item_shorter:
  assumes "duration_item s = Inr (w, rest)"
  shows "length rest < length s"
proof -
  obtain v s1 where s1: "leadingInt 0 s = Some (v, s1)"
    using assms by (auto simp: duration_item_def split: if_splits option.splits)
  define t where "t = (if s1 \<noteq> [] \<and> hd s1 = CHR ''.'' then snd (snd (leadingFraction 0 0 False (tl s1))) else s1)"
  have "length t \<le> length s1"
    using leadingFraction_length [of 0 0 False "tl s1"]
    by (cases "leadingFraction 0 0 False (tl s1)") (auto simp: t_def)
  moreover have "length s1 \<le> length s" by (rule leadingInt_length [OF s1])
  moreover have "\<exists>u. u \<noteq> [] \<and> u = takeWhile (\<lambda>c. \<not> not_unit c) t \<and> rest = drop (length u) t"
    using assms s1
    by (auto simp: duration_item_def Let_def t_def split: if_splits prod.splits option.splits)
  then have "length rest < length t" by (cases t) auto
  ultimately show ?thesis by linarith
qed

function duration_loop :: "int \<Rightarrow> string \<Rightarrow> duration_error + int" where
  "duration_loop d s =
     (if s = [] then Inr d
      else case duration_item s of
        Inl e \<Rightarrow> Inl e
      | Inr (v, rest) \<Rightarrow>
          (let d' = (d + v) mod 2 ^ 64 in if d' > 2 ^ 63 then Inl InvalidDuration else duration_loop d' rest))"
  by pat_completeness auto
termination
  by (relation "measure (\<lambda>(d, s). length s)") (auto dest: duration_item_shorter)

declare duration_loop.simps [simp del]

definition ParseDuration :: "string \<Rightarrow> duration_error + int" where
  "ParseDuration orig =
     (let neg = (orig \<noteq> [] \<and> hd orig = CHR ''-'');
          s = (if orig \<noteq> [] \<and> (hd orig = CHR ''-'' \<or> hd orig = CHR ''+'') then tl orig else orig)
      in if s = ''0'' then Inr 0
         else if s = [] then Inl InvalidDuration
         else case duration_loop 0 s of
           Inl e \<Rightarrow> Inl e
         | Inr d \<Rightarrow>
             if neg then Inr (if d = 2 ^ 63 then - (2 ^ 63) else - d)
             else if d > 2 ^ 63 - 1 then Inl InvalidDuration else Inr d)"

section \<open>Reading what FormatInt writes\<close>

definition dec_from :: "int \<Rightarrow> string \<Rightarrow> int" where
  "dec_from x s = foldl (\<lambda>n c. n * 10 + digit_val c) x s"

lemma dec_val_from: "dec_val s = dec_from 0 s"
  by (simp add: dec_val_def dec_from_def)

lemma digit_val_bounds: "is_digit c \<Longrightarrow> 0 \<le> digit_val c \<and> digit_val c \<le> 9"
  by (simp add: is_digit_iff digit_val_def)

lemma dec_from_mono: "list_all is_digit s \<Longrightarrow> 0 \<le> x \<Longrightarrow> x \<le> dec_from x s"
proof (induction s arbitrary: x)
  case (Cons c s)
  then have "0 \<le> digit_val c" using digit_val_bounds by simp
  then have "x \<le> x * 10 + digit_val c" "0 \<le> x * 10 + digit_val c" using Cons.prems(2) by linarith+
  with Cons.IH [OF _ this(2)] Cons.prems(1) show ?case by (simp add: dec_from_def)
qed (simp add: dec_from_def)

lemma leadingInt_digits:
  assumes "list_all is_digit ds" and "0 \<le> x" and "dec_from x ds \<le> 2 ^ 63" and "r = [] \<or> \<not> is_digit (hd r)"
  shows "leadingInt x (ds @ r) = Some (dec_from x ds, r)"
  using assms
proof (induction ds arbitrary: x)
  case Nil
  then show ?case by (cases r) (simp_all add: dec_from_def)
next
  case (Cons c ds)
  let ?y = "x * 10 + digit_val c"
  have c: "is_digit c" "0 \<le> digit_val c" using Cons.prems(1) digit_val_bounds by simp_all
  have y: "0 \<le> ?y" "dec_from ?y ds \<le> 2 ^ 63" using Cons.prems(2,3) c by (simp_all add: dec_from_def)
  have "?y \<le> dec_from ?y ds" using dec_from_mono [of ds ?y] Cons.prems(1) y by simp
  then have "?y \<le> 2 ^ 63" "x \<le> 2 ^ 63 div 10" using y(2) c(2) by linarith+
  with Cons.IH [OF _ y Cons.prems(4)] Cons.prems(1) c show ?case by (simp add: dec_from_def Let_def)
qed

lemma dec_is_digits: "0 \<le> n \<Longrightarrow> list_all is_digit (dec n)"
  using dec_digits [of n] by (simp add: list_all_iff)

lemma FormatInt_dec: "0 \<le> n \<Longrightarrow> FormatInt n = dec n"
  by (simp add: FormatInt_def)

lemma dec_hd: "0 \<le> n \<Longrightarrow> is_digit (hd (dec n))"
  using dec_is_digits [of n] by (cases "dec n") auto

lemma not_digit_signs [simp]: "\<not> is_digit CHR ''-''" "\<not> is_digit CHR ''+''" "\<not> is_digit CHR ''s''"
  "\<not> is_digit CHR ''.''" "\<not> is_digit CHR '':''"
  by code_simp+

lemma Atoi_FormatInt:
  assumes "- (2 ^ 63) \<le> n" and "n < 2 ^ 63"
  shows "Atoi (FormatInt n) = Inr n"
proof (cases "n < 0")
  case True
  then show ?thesis using assms dec_is_digits [of "- n"] by (simp add: Atoi_def FormatInt_def)
next
  case False
  then have d: "is_digit (hd (dec n))" "list_all is_digit (dec n)" using dec_hd dec_is_digits by simp_all
  then have "hd (dec n) \<noteq> CHR ''-''" "hd (dec n) \<noteq> CHR ''+''" by auto
  then show ?thesis using False assms d by (simp add: Atoi_def FormatInt_def)
qed

lemma ParseBool_words: "ParseBool ''true'' = Inr True" "ParseBool ''false'' = Inr False"
  by (simp_all add: ParseBool_def)

lemma ParseDuration_seconds:
  assumes "0 \<le> n" and "n \<le> (2 ^ 63 - 1) div 1000000000"
  shows "ParseDuration (FormatInt n @ ''s'') = Inr (n * 1000000000)"
proof -
  let ?s = "dec n @ ''s''"
  have d: "is_digit (hd (dec n))" "list_all is_digit (dec n)" using assms(1) dec_hd dec_is_digits by simp_all
  then have h: "hd ?s \<noteq> CHR ''-''" "hd ?s \<noteq> CHR ''+''" "not_unit (hd ?s)" "?s \<noteq> ''0''"
    by (auto simp: not_unit_def)
  have v: "dec_from 0 (dec n) = n" using assms(1) by (simp flip: dec_val_from)
  have "n \<le> 2 ^ 63" using assms(2) by simp
  then have "leadingInt 0 ?s = Some (n, ''s'')"
    using leadingInt_digits [OF d(2), of 0 "''s''"] v by simp
  then have item: "duration_item ?s = Inr (n * 1000000000, [])"
    using h assms by (simp add: duration_item_def unitMap_def not_unit_def Let_def)
  have m: "n * 1000000000 mod 2 ^ 64 = n * 1000000000" "n * 1000000000 \<le> 2 ^ 63 - 1"
    using assms by simp_all
  have "duration_loop 0 ?s = Inr (n * 1000000000)"
    using item m by (subst duration_loop.simps) (simp add: duration_loop.simps [of _ "[]"])
  then show ?thesis using h m assms(1) by (simp add: ParseDuration_def FormatInt_def Let_def)
qed

end
