(* ===== verification/Driver.thy ===== *)
theory Driver
  imports Connect GoUrl GoParse
begin

text \<open>
  \<^verbatim>\<open>driver.go\<close>: the DSN parser and \<open>Open\<close>, which connects with the settings of the DSN.  An error of the
  parser is a constructor with the arguments that the code formats into the text.
\<close>

datatype dsn_error =
    InvalidDSN string url_error      \<comment> \<open>cubrid: invalid DSN %q: %w\<close>
  | SchemeNotCubrid string           \<comment> \<open>cubrid: DSN scheme must be 'cubrid', got %q\<close>
  | InvalidPort string num_error     \<comment> \<open>cubrid: invalid port %q: %w\<close>
  | DatabaseRequired                 \<comment> \<open>cubrid: database name is required in DSN\<close>

record config =
  cfgHost :: string
  cfgPort :: int
  cfgDatabase :: string
  cfgUser :: string
  cfgPassword :: string
  cfgTimeout :: int
  cfgAutoCommit :: bool

definition time_Second :: int where "time_Second = 1000000000"

definition default_config :: config where
  "default_config = \<lparr>cfgHost = ''localhost'', cfgPort = 33000, cfgDatabase = [], cfgUser = [], cfgPassword = [],
     cfgTimeout = 30 * time_Second, cfgAutoCommit = True\<rparr>"

text \<open>The optional parts: an empty value, and one that cannot be read, leave the default.\<close>

definition set_options :: "URL \<Rightarrow> config \<Rightarrow> config" where
  "set_options u cfg =
     (let cfg = (let v = query_get ''autocommit'' u in
            if v \<noteq> [] then (case ParseBool v of Inr b \<Rightarrow> cfg\<lparr>cfgAutoCommit := b\<rparr> | Inl _ \<Rightarrow> cfg) else cfg)
      in let v = query_get ''timeout'' u in
         if v \<noteq> [] then (case ParseDuration v of Inr d \<Rightarrow> cfg\<lparr>cfgTimeout := d\<rparr> | Inl _ \<Rightarrow> cfg) else cfg)"

definition set_user :: "URL \<Rightarrow> config \<Rightarrow> config" where
  "set_user u cfg = (case User u of None \<Rightarrow> cfg
     | Some (name, password) \<Rightarrow>
         cfg\<lparr>cfgUser := name, cfgPassword := (case password of None \<Rightarrow> [] | Some p \<Rightarrow> p)\<rparr>)"

definition parseDSN :: "string \<Rightarrow> dsn_error + config" where
  "parseDSN dsn =
     (case url_parse dsn of
        Inl err \<Rightarrow> Inl (InvalidDSN dsn err)
      | Inr u \<Rightarrow>
          if Scheme u \<noteq> ''cubrid'' then Inl (SchemeNotCubrid (Scheme u))
          else
            (let cfg = default_config;
                 cfg = (if Hostname u \<noteq> [] then cfg\<lparr>cfgHost := Hostname u\<rparr> else cfg)
             in case (let portStr = Port u in
                  if portStr \<noteq> [] then
                    (case Atoi portStr of Inl err \<Rightarrow> Inl (InvalidPort portStr err) | Inr p \<Rightarrow> Inr (cfg\<lparr>cfgPort := p\<rparr>))
                  else Inr cfg) of
                Inl e \<Rightarrow> Inl e
              | Inr cfg \<Rightarrow>
                  (let cfg = (if length (Path u) > 1 then cfg\<lparr>cfgDatabase := drop 1 (Path u)\<rparr> else cfg);
                       cfg = set_options u (set_user u cfg)
                   in if cfgDatabase cfg = [] then Inl DatabaseRequired else Inr cfg)))"

datatype open_error = DsnError dsn_error | ConnError go_error

definition new_conn :: "config \<Rightarrow> conn" where
  "new_conn cfg =
     \<lparr>cSocket = None, cHost = cfgHost cfg, cPort = cfgPort cfg, cDatabase = cfgDatabase cfg, cUser = cfgUser cfg,
      cPassword = cfgPassword cfg, cTimeout = cfgTimeout cfg, casInfo = replicate SizeCASInfo 0, protoVer = 0,
      autoCommit = cfgAutoCommit cfg, closed = False\<rparr>"

definition Open :: "network \<Rightarrow> string \<Rightarrow> (open_error + conn) option" where
  "Open w dsn =
     (case parseDSN dsn of
        Inl err \<Rightarrow> Some (Inl (DsnError err))
      | Inr cfg \<Rightarrow>
          (case connect w (new_conn cfg) of
             None \<Rightarrow> None
           | Some (Some err, _, _) \<Rightarrow> Some (Inl (ConnError err))
           | Some (None, c, _) \<Rightarrow> Some (Inr c)))"

section \<open>A DSN for a configuration\<close>

text \<open>
  The DSN format of the package's documentation, with every part present: the parts that may hold any
  byte are percent-encoded, and an IPv6 literal stands in brackets.  Such a configuration has a named
  host (\<open>config_ok\<close>) or an IPv6 literal, a port, a database and a timeout of whole seconds.
\<close>

definition dsn_options :: "bool \<Rightarrow> int \<Rightarrow> string" where
  "dsn_options b secs = ''autocommit='' @ (if b then ''true'' else ''false'') @ ''&timeout='' @ FormatInt secs @ ''s''"

definition dsn_of :: "config \<Rightarrow> string" where
  "dsn_of cfg = ''cubrid://'' @ pct (cfgUser cfg) @ '':'' @ pct (cfgPassword cfg) @ ''@'' @ host_text (cfgHost cfg) @ '':''
     @ FormatInt (cfgPort cfg) @ ''/'' @ pct (cfgDatabase cfg) @ ''?''
     @ dsn_options (cfgAutoCommit cfg) (cfgTimeout cfg div time_Second)"

definition config_rest_ok :: "config \<Rightarrow> bool" where
  "config_rest_ok cfg \<longleftrightarrow> 0 \<le> cfgPort cfg \<and> cfgPort cfg < 2 ^ 63 \<and> cfgDatabase cfg \<noteq> []
     \<and> 0 \<le> cfgTimeout cfg \<and> cfgTimeout cfg < 2 ^ 63 \<and> cfgTimeout cfg mod time_Second = 0"

definition config_ok :: "config \<Rightarrow> bool" where
  "config_ok cfg \<longleftrightarrow> host_name (cfgHost cfg) \<and> config_rest_ok cfg"

lemma clean_pct: "clean (pct s)"
  by (rule clean_alnum) (use pct_chars [of _ s] in auto)

lemma clean_dec: "0 \<le> n \<Longrightarrow> clean (dec n)"
  by (rule clean_alnum) (use port_char [OF dec_is_digits] in auto)

lemma clean_words: "clean ''autocommit=''" "clean ''true''" "clean ''false''" "clean ''&timeout=''" "clean ''s''"
    "clean '':''" "clean ''@''"
  by code_simp+

lemma query_options:
  assumes "0 \<le> n"
  shows "parseQuery (dsn_options b n) =
    [(''autocommit'', if b then ''true'' else ''false''), (''timeout'', dec n @ ''s'')]"
proof -
  let ?b = "if b then ''true'' else ''false''" and ?n = "dec n @ ''s''"
  have n: "\<forall>c \<in> set ?n. is_alnum c"
  proof -
    have "is_alnum CHR ''s''" by code_simp
    then show ?thesis using port_char [OF dec_is_digits [OF assms]] by auto
  qed
  then have ns: "CHR ''&'' \<notin> set ?n" "CHR '';'' \<notin> set ?n" "CHR ''='' \<notin> set ?n" by force+
  have plain: "unescape EncodeQueryComponent s = Inr s" if "\<forall>c \<in> set s. is_alnum c" for s
    using that by (induction s) force+
  have words: "CHR ''&'' \<notin> set (''autocommit='' @ ?b)" "CHR '';'' \<notin> set (''autocommit='' @ ?b)"
      "CHR ''='' \<notin> set ''autocommit''" "CHR ''='' \<notin> set ''timeout''" "CHR '';'' \<notin> set ''timeout=''"
      "CHR ''&'' \<notin> set ''timeout=''" by simp_all
  have alnum: "\<forall>c \<in> set ''autocommit''. is_alnum c" "\<forall>c \<in> set ''timeout''. is_alnum c"
    by code_simp+
  have alnum_b: "\<forall>c \<in> set ?b. is_alnum c"
    by (cases b) (simp_all only: if_True if_False, code_simp+)
  have 1: "cut (CHR ''&'') (dsn_options b n) = (''autocommit='' @ ?b, ''timeout='' @ ?n)"
    using cut_append [OF words(1), of "''timeout='' @ ?n"] assms by (simp add: dsn_options_def FormatInt_dec)
  have 2: "cut (CHR ''='') (''autocommit='' @ ?b) = (''autocommit'', ?b)"
    using cut_append [OF words(3), of ?b] by simp
  have 3: "cut (CHR ''&'') (''timeout='' @ ?n) = (''timeout='' @ ?n, [])"
    by (rule cut_none) (use ns in simp)
  have 4: "cut (CHR ''='') (''timeout='' @ ?n) = (''timeout'', ?n)"
    using cut_append [OF words(4), of ?n] by simp
  have last: "parseQuery (''timeout='' @ ?n) = [(''timeout'', ?n)]"
    using ns plain [OF alnum(2)] plain [OF n]
    by (subst parseQuery.simps) (simp add: 3 [simplified] 4 [simplified] parseQuery.simps [of "[]"])
  have "dsn_options b n \<noteq> []" by (simp add: dsn_options_def)
  then show ?thesis
    using words plain [OF alnum(1)] plain [OF alnum_b] last
    by (subst parseQuery.simps) (simp only: 1 2 prod.case Let_def, simp)
qed

lemma parseDSN_reads_back:
  assumes "host_name (cfgHost cfg) \<or> ipv6_host (cfgHost cfg)" and "config_rest_ok cfg"
  shows "parseDSN (dsn_of cfg) = Inr cfg"
proof -
  let ?port = "dec (cfgPort cfg)" and ?n = "cfgTimeout cfg div time_Second"
  let ?auth = "pct (cfgUser cfg) @ '':'' @ pct (cfgPassword cfg) @ ''@'' @ host_text (cfgHost cfg) @ '':'' @ ?port"
  let ?q = "dsn_options (cfgAutoCommit cfg) ?n"
  note ok = assms(2) [unfolded config_rest_ok_def]
  have port: "list_all is_digit ?port" "FormatInt (cfgPort cfg) = ?port"
    using ok by (simp_all add: dec_is_digits FormatInt_dec)
  have n: "0 \<le> ?n" "?n \<le> (2 ^ 63 - 1) div 1000000000" "?n * 1000000000 = cfgTimeout cfg"
    using ok by (auto simp: time_Second_def)
  note host = host_text_parsed [OF assms(1) port(1)]
  have clean: "clean ?auth" "clean (pct (cfgDatabase cfg))" "clean ?q"
    using host(5) clean_pct clean_dec [of "cfgPort cfg"] clean_dec [OF n(1)] clean_words ok n(1)
    by (simp_all add: dsn_options_def FormatInt_dec)
  have slash: "CHR ''/'' \<notin> set ?auth"
    using pct_chars [of "CHR ''/''"] host(4) by auto
  have q: "?q \<noteq> []" by (simp add: dsn_options_def)
  have path: "unescape EncodePath (CHR ''/'' # pct (cfgDatabase cfg)) = Inr (CHR ''/'' # cfgDatabase cfg)"
    using unescape_pct [of EncodePath "cfgDatabase cfg" "[]"] by simp
  have url: "url_parse (dsn_of cfg) = Inr \<lparr>Scheme = ''cubrid'',
      User = Some (cfgUser cfg, Some (cfgPassword cfg)), Host = host_text (cfgHost cfg) @ '':'' @ ?port,
      Path = CHR ''/'' # cfgDatabase cfg, RawQuery = ?q\<rparr>"
    using url_parse_parts [OF clean slash q] parseAuthority_parts [OF host(3,1)] port(2) path
    by (simp add: dsn_of_def)
  have atoi: "Atoi ?port = Inr (cfgPort cfg)"
    using Atoi_FormatInt [of "cfgPort cfg"] ok by (simp add: FormatInt_dec)
  have opts: "query_get ''autocommit'' u = (if cfgAutoCommit cfg then ''true'' else ''false'')"
      "query_get ''timeout'' u = dec ?n @ ''s''" if "RawQuery u = ?q" for u
    using that query_options [OF n(1), of "cfgAutoCommit cfg"] by (simp_all add: query_get_def)
  have dur: "ParseDuration (dec ?n @ ''s'') = Inr (cfgTimeout cfg)"
    using ParseDuration_seconds [OF n(1,2)] n by (simp add: FormatInt_dec)
  show ?thesis
    using url host(2,6) atoi opts dur ok
    by (simp add: parseDSN_def Hostname_def Port_def set_user_def set_options_def ParseBool_words Let_def)
qed

text \<open>C11: A DSN means what it says.  For every configuration with a named host, a port, a database and a timeout
  of whole seconds, and whatever bytes the user name, the password and the database name hold, the
  parser reads back exactly that configuration from its percent-encoded DSN.\<close>

theorem parseDSN_roundtrip:
  assumes "config_ok cfg"
  shows "parseDSN (dsn_of cfg) = Inr cfg"
  using parseDSN_reads_back [of cfg] assms by (simp add: config_ok_def)

theorem parseDSN_roundtrip_witness:
  "parseDSN ''cubrid://dba:p%40ss@db:33000/demodb?autocommit=false&timeout=30s'' = Inr
     \<lparr>cfgHost = ''db'', cfgPort = 33000, cfgDatabase = ''demodb'', cfgUser = ''dba'', cfgPassword = ''p@ss'',
      cfgTimeout = 30000000000, cfgAutoCommit = False\<rparr>"
proof -
  let ?c = "\<lparr>cfgHost = ''db'', cfgPort = 33000, cfgDatabase = ''demodb'', cfgUser = ''dba'', cfgPassword = ''p@ss'',
      cfgTimeout = 30000000000, cfgAutoCommit = False\<rparr>"
  have "config_ok ?c" "dsn_of ?c = ''cubrid://dba:p%40ss@db:33000/demodb?autocommit=false&timeout=30s''"
    by code_simp+
  with parseDSN_roundtrip [of ?c] show ?thesis by simp
qed

section \<open>What every accepted DSN gives\<close>

lemma Atoi_digits:
  assumes "Atoi s = Inr p" and "list_all is_digit s"
  shows "0 \<le> p \<and> p < 2 ^ 63"
proof -
  have "s \<noteq> []" using assms(1) by (auto simp: Atoi_def)
  then have "is_digit (hd s)" using assms(2) by (cases s) auto
  then have h: "hd s \<noteq> CHR ''-''" "hd s \<noteq> CHR ''+''" by auto
  then have "p = dec_val s" "p < 2 ^ 63" using assms(1) by (auto simp: Atoi_def Let_def split: if_splits)
  moreover have "0 \<le> dec_val s" using dec_from_mono [OF assms(2), of 0] by (simp add: dec_val_from)
  ultimately show ?thesis by simp
qed

lemma Port_digits: "list_all is_digit (Port u)"
  by (auto simp: Port_def splitHostPort_def valid_optional_port_def cut_last_def Let_def split: prod.splits)

lemma duration_loop_bounds:
  "duration_loop d s = Inr r \<Longrightarrow> 0 \<le> d \<Longrightarrow> d \<le> 2 ^ 63 \<Longrightarrow> 0 \<le> r \<and> r \<le> 2 ^ 63"
proof (induction d s rule: duration_loop.induct)
  case (1 d s)
  show ?case
  proof (cases "s = []")
    case True
    with 1(2-4) show ?thesis by (simp add: duration_loop.simps [of d "[]"])
  next
    case False
    then obtain v rest where i: "duration_item s = Inr (v, rest)" "\<not> (d + v) mod 2 ^ 64 > 2 ^ 63"
        "duration_loop ((d + v) mod 2 ^ 64) rest = Inr r"
      using 1(2) by (auto simp: duration_loop.simps [of d s] Let_def split: sum.splits if_splits)
    then show ?thesis using 1(1) [OF False i(1) refl refl i(2,3)] by simp
  qed
qed

lemma ParseDuration_bounds: "ParseDuration s = Inr d \<Longrightarrow> - (2 ^ 63) \<le> d \<and> d < 2 ^ 63"
  using duration_loop_bounds [of 0]
  by (fastforce simp: ParseDuration_def Let_def split: if_splits sum.splits)

text \<open>C34: What every accepted DSN guarantees: a non-empty host and database, a port that is not negative and
  fits an \<^verbatim>\<open>int\<close>, and a timeout that fits a \<^verbatim>\<open>time.Duration\<close>; automatic commit is off exactly when the
  option has one of the six spellings of false, so any other value leaves it on.\<close>

theorem parseDSN_accepts:
  assumes "parseDSN dsn = Inr cfg"
  shows "cfgHost cfg \<noteq> [] \<and> cfgDatabase cfg \<noteq> [] \<and> 0 \<le> cfgPort cfg \<and> cfgPort cfg < 2 ^ 63
    \<and> - (2 ^ 63) \<le> cfgTimeout cfg \<and> cfgTimeout cfg < 2 ^ 63
    \<and> (\<exists>u. url_parse dsn = Inr u \<and> Scheme u = ''cubrid''
         \<and> (cfgAutoCommit cfg
             \<longleftrightarrow> query_get ''autocommit'' u \<notin> {''0'', ''f'', ''F'', ''false'', ''FALSE'', ''False''}))"
proof -
  obtain u where u: "url_parse dsn = Inr u" "Scheme u = ''cubrid''"
    using assms by (auto simp: parseDSN_def split: sum.splits if_splits)
  define c1 where "c1 = (if Hostname u \<noteq> [] then default_config\<lparr>cfgHost := Hostname u\<rparr> else default_config)"
  obtain p where p: "0 \<le> p" "p < 2 ^ 63"
    and cfg: "cfg = set_options u (set_user u ((c1\<lparr>cfgPort := p\<rparr>)\<lparr>cfgDatabase := drop 1 (Path u)\<rparr>))
      \<or> cfg = set_options u (set_user u (c1\<lparr>cfgPort := p\<rparr>))" and db: "cfgDatabase cfg \<noteq> []"
  proof (cases "Port u = []")
    case True
    have "c1 = c1\<lparr>cfgPort := 33000\<rparr>" by (simp add: c1_def default_config_def)
    with True that [of 33000] assms u show ?thesis
      by (auto simp: parseDSN_def c1_def [symmetric] Let_def split: if_splits)
  next
    case False
    then obtain p where "Atoi (Port u) = Inr p"
      using assms u by (auto simp: parseDSN_def Let_def split: sum.splits)
    with False that [of p] Atoi_digits [OF this Port_digits] assms u show ?thesis
      by (auto simp: parseDSN_def c1_def [symmetric] Let_def split: if_splits)
  qed
  have c1: "cfgHost c1 \<noteq> []" "cfgAutoCommit c1" "cfgTimeout c1 = 30 * time_Second"
    by (simp_all add: c1_def default_config_def)
  have bool: "(case ParseBool v of Inl e \<Rightarrow> True | Inr b \<Rightarrow> b)
      \<longleftrightarrow> v \<notin> {''0'', ''f'', ''F'', ''false'', ''FALSE'', ''False''}" for v
    by (auto simp: ParseBool_def)
  have opt: "cfgHost (set_options u c) = cfgHost c" "cfgPort (set_options u c) = cfgPort c"
      "cfgTimeout c = 30 * time_Second \<Longrightarrow> - (2 ^ 63) \<le> cfgTimeout (set_options u c) \<and> cfgTimeout (set_options u c) < 2 ^ 63"
      "cfgAutoCommit c \<Longrightarrow> cfgAutoCommit (set_options u c) \<longleftrightarrow>
        query_get ''autocommit'' u \<notin> {''0'', ''f'', ''F'', ''false'', ''FALSE'', ''False''}" for c
    using ParseDuration_bounds [of "query_get ''timeout'' u"] bool [of "query_get ''autocommit'' u"]
    by (auto simp: set_options_def Let_def time_Second_def split: sum.splits)
  have usr: "cfgHost (set_user u c) = cfgHost c" "cfgPort (set_user u c) = cfgPort c"
      "cfgTimeout (set_user u c) = cfgTimeout c" "cfgAutoCommit (set_user u c) = cfgAutoCommit c" for c
    by (auto simp: set_user_def split: option.splits prod.splits)
  from cfg p c1 db u show ?thesis using opt usr by auto
qed

theorem parseDSN_accepts_witness:
  "\<exists>u. url_parse ''cubrid://h:99999/db?autocommit=off&timeout=never'' = Inr u \<and> Scheme u = ''cubrid''
     \<and> query_get ''autocommit'' u \<notin> {''0'', ''f'', ''F'', ''false'', ''FALSE'', ''False''}"
proof -
  have "parseDSN ''cubrid://h:99999/db?autocommit=off&timeout=never'' = Inr
      \<lparr>cfgHost = ''h'', cfgPort = 99999, cfgDatabase = ''db'', cfgUser = [], cfgPassword = [],
       cfgTimeout = 30000000000, cfgAutoCommit = True\<rparr>" by code_simp
  from parseDSN_accepts [OF this] show ?thesis by auto
qed

section \<open>Opening a connection\<close>

text \<open>C10: From the DSN to the wire.  When the broker answers with a port and the CAS answers, on the broker's
  own socket for port 0 and on a socket dialed to that port of the same host otherwise, the DSN of a
  configuration opens a connection that satisfies the session invariant and has no deadline, has the
  autocommit mode of the DSN and the token and version of the server, has consumed exactly the answer, and has sent the CAS
  exactly one packet: OPEN_DATABASE with the database, the user and the password of the DSN.\<close>

theorem Open_from_dsn:
  assumes "config_ok cfg"
    and "dialTimeout w 0 (address (cfgHost cfg) (cfgPort cfg)) (cfgTimeout cfg) = Inr b" and "fresh b"
    and "stream (inbox b) = be32 p @ extra" and "0 \<le> sint p"
    and "sint p > 0 \<Longrightarrow> dialTimeout w 1 (address (cfgHost cfg) (sint p)) (cfgTimeout cfg) = Inr s \<and> fresh s"
    and "(if sint p > 0 then stream (inbox s) else extra) = response (greeting tok rc info sid) @ rest"
    and "length tok = SizeCASInfo" and "length info = SizeBrokerInfo" and "0 \<le> sint rc"
  shows "\<exists>c. Open w (dsn_of cfg) = Some (Inr c) \<and> session_ok c \<and> deadline_of c = None \<and> \<not> closed c
    \<and> autoCommit c = cfgAutoCommit cfg \<and> casInfo c = tok \<and> protoVer c = uint (info ! 4) AND 0x3F
    \<and> sent_log c = (if sint p > 0 then [] else [WriteClientInfoExchange])
        @ [WriteOpenDatabase (cfgDatabase cfg) (cfgUser cfg) (cfgPassword cfg)]
    \<and> incoming c = rest"
proof -
  let ?c = "new_conn cfg"
  have f: "cHost ?c = cfgHost cfg" "cPort ?c = cfgPort cfg" "cTimeout ?c = cfgTimeout cfg"
      "cDatabase ?c = cfgDatabase cfg" "cUser ?c = cfgUser cfg" "cPassword ?c = cfgPassword cfg"
      "autoCommit ?c = cfgAutoCommit cfg" "\<not> closed ?c"
    by (simp_all add: new_conn_def)
  obtain c broker where c: "connect w ?c = Some (None, c, broker)" "casInfo c = tok"
      "protoVer c = uint (info ! 4) AND 0x3F" "autoCommit c = cfgAutoCommit cfg" "live c" "incoming c = rest"
      "deadline_of c = None" "sent_log c = (if sint p > 0 then [] else [WriteClientInfoExchange])
        @ [WriteOpenDatabase (cfgDatabase cfg) (cfgUser cfg) (cfgPassword cfg)]"
    using connect_handshake_run [of w ?c b p extra s tok rc info sid rest, unfolded f, OF assms(2-10)] by blast
  have "closed c = closed ?c" by (rule connect_closed [OF c(1)])
  moreover have "is_open c" "cSocket c \<noteq> None" using c(5) by (auto simp: live_def is_open_def split: option.splits)
  ultimately have "session_ok c" "\<not> closed c" using c f(8) assms(8) by (simp_all add: session_ok_def)
  with c show ?thesis using parseDSN_reads_back [of cfg] assms(1) by (simp add: Open_def config_ok_def)
qed

theorem Open_from_dsn_witness:
  "\<exists>c. Open (sample_net [Chunk (be32 30001)]
        [Chunk (response (greeting [1, 2, 3, 4] 0 [0, 0, 0, 0, 69, 0, 0, 0, 0, 0, 0, 0, 0, 0, 0, 0] 7))])
      ''cubrid://dba:@db:33000/demodb?autocommit=false&timeout=30s'' = Some (Inr c)
    \<and> session_ok c \<and> \<not> autoCommit c \<and> sent_log c = [WriteOpenDatabase ''demodb'' ''dba'' []]"
proof -
  let ?g = "greeting [1, 2, 3, 4] 0 [0, 0, 0, 0, 69, 0, 0, 0, 0, 0, 0, 0, 0, 0, 0, 0] 7"
  let ?w = "sample_net [Chunk (be32 30001)] [Chunk (response ?g)]"
  let ?c = "\<lparr>cfgHost = ''db'', cfgPort = 33000, cfgDatabase = ''demodb'', cfgUser = ''dba'', cfgPassword = [],
      cfgTimeout = 30000000000, cfgAutoCommit = False\<rparr>"
  have c: "config_ok ?c" "dsn_of ?c = ''cubrid://dba:@db:33000/demodb?autocommit=false&timeout=30s''"
    by code_simp+
  have d: "dialTimeout ?w 0 (address (cfgHost ?c) (cfgPort ?c)) (cfgTimeout ?c) = Inr (peer [Chunk (be32 30001)])"
      "dialTimeout ?w 1 (address (cfgHost ?c) (sint (30001 :: int32))) (cfgTimeout ?c) = Inr (peer [Chunk (response ?g)])
        \<and> fresh (peer [Chunk (response ?g)])"
    by (simp_all add: sample_net_def sample_addresses)
  have i: "stream (inbox (peer [Chunk (be32 30001)])) = be32 30001 @ []" by simp
  have p: "0 \<le> sint (30001 :: int32)" "(0 :: int) \<le> sint (0 :: int32)" by simp_all
  have a: "(if sint (30001 :: int32) > 0 then stream (inbox (peer [Chunk (response ?g)])) else []) = response ?g @ []"
    by simp
  have l: "length [1, 2, 3, 4 :: byte] = SizeCASInfo"
      "length [0, 0, 0, 0, 69, 0, 0, 0, 0, 0, 0, 0, 0, 0, 0, 0 :: byte] = SizeBrokerInfo" by simp_all
  from Open_from_dsn [OF c(1) d(1) fresh_peer(1) i p(1) d(2) a l p(2)]
  show ?thesis unfolding c(2) by auto
qed

section \<open>IPv6 hosts\<close>

text \<open>\<^verbatim>\<open>net.SplitHostPort\<close>, through which \<^verbatim>\<open>net.Dial\<close> reads an address, refuses one that has a colon before the
  last one outside brackets.\<close>

definition too_many_colons :: "string \<Rightarrow> bool" where
  "too_many_colons a \<longleftrightarrow> (a = [] \<or> hd a \<noteq> CHR ''['') \<and> CHR '':'' \<in> set (fst (cut_last (CHR '':'') a))"

lemma FormatInt_no_colon: "CHR '':'' \<notin> set (FormatInt n)"
  using FormatInt_chars [of "CHR '':''" n] by auto

lemma too_many_colons_iff:
  "too_many_colons (address h port) \<longleftrightarrow> CHR '':'' \<in> set h \<and> hd h \<noteq> CHR ''[''"
proof -
  have "cut_last (CHR '':'') (address h port) = (h, FormatInt port)"
    using cut_last_append [OF FormatInt_no_colon, of h port] by (simp add: address_def)
  then show ?thesis by (cases h) (auto simp: too_many_colons_def address_def)
qed

text \<open>C35: An IPv6 literal can be written in a DSN but not dialed.  The parser reads every such
  configuration back from its DSN with the host in brackets, which it strips; \<open>connect\<close> joins host and
  port with a colon only, so the address has too many colons, and \<open>Open\<close> fails on every network whose
  dialer refuses such addresses, as Go's does.  The joined address has too many colons for exactly the
  hosts with a colon that do not begin with a bracket.\<close>

theorem ipv6_host_undialable:
  assumes "ipv6_host (cfgHost cfg)" and "config_rest_ok cfg"
    and "\<And>n a t. too_many_colons a \<Longrightarrow> dialTimeout w n a t = Inl (refusal a)"
  shows "parseDSN (dsn_of cfg) = Inr cfg
    \<and> (let a = address (cfgHost cfg) (cfgPort cfg) in
        too_many_colons a \<and> Open w (dsn_of cfg) = Some (Inl (ConnError (dial_error ''dial broker '' a (refusal a)))))
    \<and> (too_many_colons (address h port) \<longleftrightarrow> CHR '':'' \<in> set h \<and> hd h \<noteq> CHR ''['')"
proof -
  have "hd (cfgHost cfg) \<in> set (cfgHost cfg)" using ipv6_text(2) [OF assms(1)] by simp
  then have "hd (cfgHost cfg) \<noteq> CHR ''[''" using ipv6_signs(3) [OF assms(1)] by metis
  then have "too_many_colons (address (cfgHost cfg) (cfgPort cfg))"
    using assms(1) by (simp add: too_many_colons_iff ipv6_host_def)
  with assms(3) parseDSN_reads_back [of cfg] assms(1,2) too_many_colons_iff [of h port] show ?thesis
    by (simp add: Open_def connect_def new_conn_def)
qed

theorem ipv6_host_undialable_witness:
  "Open \<lparr>dialTimeout = (\<lambda>n a t. if too_many_colons a then Inl ''too many colons in address'' else Inr (peer [])),
        clock = (\<lambda>n. 0)\<rparr> ''cubrid://dba:@[::1]:33000/demodb?autocommit=true&timeout=30s''
     = Some (Inl (ConnError (dial_error ''dial broker '' ''::1:33000'' ''too many colons in address'')))"
proof -
  let ?c = "\<lparr>cfgHost = ''::1'', cfgPort = 33000, cfgDatabase = ''demodb'', cfgUser = ''dba'', cfgPassword = [],
      cfgTimeout = 30000000000, cfgAutoCommit = True\<rparr>"
  let ?w = "\<lparr>dialTimeout = (\<lambda>n a t. if too_many_colons a then Inl ''too many colons in address'' else Inr (peer [])),
        clock = (\<lambda>n. 0)\<rparr>"
  have c: "ipv6_host (cfgHost ?c)" "config_rest_ok ?c"
      "dsn_of ?c = ''cubrid://dba:@[::1]:33000/demodb?autocommit=true&timeout=30s''"
      "address (cfgHost ?c) (cfgPort ?c) = ''::1:33000''"
    by code_simp+
  have "dialTimeout ?w n a t = Inl ((\<lambda>_. ''too many colons in address'') a)" if "too_many_colons a" for n a t
    using that by simp
  from ipv6_host_undialable [OF c(1,2) this, unfolded c(3,4)] show ?thesis by (simp add: Let_def)
qed

end
