(* ===== verification/GormDialector.thy ===== *)
theory GormDialector
  imports GoStrings
begin

text \<open>
  \<^verbatim>\<open>dialector/cubrid.go\<close>: the GORM dialector and migrator.  GORM is not part of the repository: what the
  code calls of it is a parameter of the definitions (the base migrator, the callbacks, the parser of
  models, the explanation of SQL, the query of the catalog), and its structs are records of the fields
  that the code reads or writes.  A writer is the text written so far.
\<close>

section \<open>The dialector\<close>

text \<open>\<^verbatim>\<open>schema.DataType\<close>: the seven kinds that GORM names, and any other text of a \<^verbatim>\<open>type\<close> tag.\<close>

datatype DataType = SchemaBool | SchemaInt | SchemaUint | SchemaFloat | SchemaString | SchemaTime | SchemaBytes
  | CustomType string

record Field =
  fDataType :: DataType
  fSize :: int
  fPrecision :: int
  fAutoIncrement :: bool
  fHasDefaultValue :: bool
  fDefaultValue :: string

text \<open>A connection pool: the one that \<^verbatim>\<open>sql.Open\<close> makes for a driver and a DSN, or one that was passed in.\<close>

datatype 'db pool = SqlDB string string | GivenDB 'db

record 'db Dialector =
  DSN :: string
  dConn :: "'db pool option"

definition OpenDialector :: "string \<Rightarrow> 'db Dialector" where
  "OpenDialector dsn = \<lparr>DSN = dsn, dConn = None\<rparr>"

definition OpenDB :: "'db \<Rightarrow> 'db Dialector" where
  "OpenDB db = \<lparr>DSN = [], dConn = Some (GivenDB db)\<rparr>"

definition Name :: "'db Dialector \<Rightarrow> string" where
  "Name d = ''cubrid''"

definition DefaultValueOf :: "Field \<Rightarrow> string" where
  "DefaultValueOf field = (if fAutoIncrement field then [] else ''DEFAULT'')"

definition BindVarTo :: "string \<Rightarrow> string" where
  "BindVarTo writer = writer @ ''?''"

text \<open>\<^verbatim>\<open>strings.Split\<close> at a byte, and the loop that writes the parts with two quotes between them.\<close>

fun Split :: "char \<Rightarrow> string \<Rightarrow> string list" where
  "Split sep [] = [[]]"
| "Split sep (c # s) =
     (if c = sep then [] # Split sep s
      else case Split sep s of p # ps \<Rightarrow> (c # p) # ps | [] \<Rightarrow> [[c]])"

fun write_parts :: "nat \<Rightarrow> string list \<Rightarrow> string \<Rightarrow> string" where
  "write_parts i [] writer = writer"
| "write_parts i (p # ps) writer =
     (let writer = (if i > 0 then writer @ [CHR 0x22, CHR 0x22] else writer)
      in write_parts (i + 1) ps (writer @ p))"

definition QuoteTo :: "string \<Rightarrow> string \<Rightarrow> string" where
  "QuoteTo writer str =
     (let writer = writer @ [CHR 0x22];
          writer = (if CHR 0x22 \<in> set str then write_parts 0 (Split CHR 0x22 str) writer else writer @ str)
      in writer @ [CHR 0x22])"

text \<open>\<^verbatim>\<open>logger.ExplainSQL\<close> with no pattern for numeric placeholders and the single quote as escaper.\<close>

definition Explain :: "(string \<Rightarrow> string option \<Rightarrow> string \<Rightarrow> 'v list \<Rightarrow> string) \<Rightarrow> string \<Rightarrow> 'v list \<Rightarrow> string" where
  "Explain explainSQL sql vars = explainSQL sql None [CHR 0x27] vars"

definition dataTypeFromTag :: "Field \<Rightarrow> string" where
  "dataTypeFromTag field =
     (if fHasDefaultValue field \<and> fDefaultValue field \<noteq> [] then fDefaultValue field else ''VARCHAR(256)'')"

definition DataTypeOf :: "Field \<Rightarrow> string" where
  "DataTypeOf field =
     (if fAutoIncrement field then
        (if fSize field > 32 then ''BIGINT AUTO_INCREMENT'' else ''INTEGER AUTO_INCREMENT'')
      else case fDataType field of
        SchemaBool \<Rightarrow> ''SMALLINT''
      | SchemaInt \<Rightarrow>
          (if fSize field \<le> 16 then ''SMALLINT'' else if fSize field \<le> 32 then ''INTEGER'' else ''BIGINT'')
      | SchemaUint \<Rightarrow>
          (if fSize field \<le> 8 then ''SMALLINT'' else if fSize field \<le> 16 then ''INTEGER''
           else if fSize field \<le> 32 then ''BIGINT'' else ''BIGINT'')
      | SchemaFloat \<Rightarrow> (if fSize field \<le> 32 then ''FLOAT'' else ''DOUBLE'')
      | SchemaString \<Rightarrow>
          (let size = (if fSize field = 0 then 256 else fSize field) in
           if size \<ge> 1073741823 then ''STRING'' else ''VARCHAR('' @ FormatInt size @ '')'')
      | SchemaTime \<Rightarrow>
          (if fPrecision field > 0 then ''DATETIME('' @ FormatInt (fPrecision field) @ '')'' else ''DATETIME'')
      | SchemaBytes \<Rightarrow> ''BLOB''
      | CustomType t \<Rightarrow> dataTypeFromTag field)"

section \<open>Initialization\<close>

text \<open>
  The part of \<^verbatim>\<open>gorm.DB\<close> that the dialector sets.  \<open>register\<close> stands for
  \<^verbatim>\<open>callbacks.RegisterDefaultCallbacks\<close>; a clause builder turns a clause and a builder into the builder with the
  clause's SQL, and \<open>build\<close> is \<^verbatim>\<open>Clause.Build\<close>.  \<open>sqlOpen\<close> is \<^verbatim>\<open>sql.Open\<close>, which looks a driver up by name
  and connects later; the blank import runs the \<^verbatim>\<open>init\<close> of \<^verbatim>\<open>driver.go\<close>, which registers this one.
\<close>

record ('db, 'c, 'b) gorm_db =
  ConnPool :: "'db pool option"
  dbClauseBuilders :: "string \<rightharpoonup> ('c \<Rightarrow> 'b \<Rightarrow> 'b)"

definition registered_drivers :: "string list" where
  "registered_drivers = [''cubrid'']"

definition sqlOpen :: "string \<Rightarrow> string \<Rightarrow> string + 'db pool" where
  "sqlOpen name dsn =
     (if name \<in> set registered_drivers then Inr (SqlDB name dsn)
      else Inl (''sql: unknown driver '' @ name @ '' (forgotten import?)''))"

definition ClauseBuilders :: "('c \<Rightarrow> 'b \<Rightarrow> 'b) \<Rightarrow> string \<rightharpoonup> ('c \<Rightarrow> 'b \<Rightarrow> 'b)" where
  "ClauseBuilders build = [''ON CONFLICT'' \<mapsto> (\<lambda>c builder. builder), ''INSERT'' \<mapsto> (\<lambda>c builder. build c builder)]"

definition Initialize ::
  "(bool \<Rightarrow> ('db, 'c, 'b) gorm_db \<Rightarrow> ('db, 'c, 'b) gorm_db) \<Rightarrow> ('c \<Rightarrow> 'b \<Rightarrow> 'b)
   \<Rightarrow> 'db Dialector \<Rightarrow> ('db, 'c, 'b) gorm_db \<Rightarrow> string option \<times> ('db, 'c, 'b) gorm_db" where
  "Initialize register build d db =
     (case (case dConn d of Some pool \<Rightarrow> Inr (db\<lparr>ConnPool := Some pool\<rparr>)
            | None \<Rightarrow> map_sum id (\<lambda>sqlDB. db\<lparr>ConnPool := Some sqlDB\<rparr>) (sqlOpen ''cubrid'' (DSN d))) of
        Inl err \<Rightarrow> (Some err, db)
      | Inr db \<Rightarrow>
          (let db = register False db
           in (None, db\<lparr>dbClauseBuilders := dbClauseBuilders db ++ ClauseBuilders build\<rparr>)))"

section \<open>The migrator\<close>

text \<open>The migrator that the dialector makes: the configuration of the base migrator it wraps.\<close>

record ('db, 'g) migrator_config =
  mDB :: 'g
  mDialector :: "'db Dialector"
  mCreateIndexAfterCreateTable :: bool

definition Migrator :: "'g \<Rightarrow> 'db Dialector \<Rightarrow> ('db, 'g) migrator_config" where
  "Migrator db d = \<lparr>mDB = db, mDialector = d, mCreateIndexAfterCreateTable = True\<rparr>"

text \<open>A destination is a table's name or a model; \<open>parse\<close> finds the table of a model and \<open>show_model\<close> is \<^verbatim>\<open>%v\<close>.\<close>

datatype 'm destination = TableName string | ModelValue 'm

definition table_of :: "('m \<Rightarrow> string option) \<Rightarrow> ('m \<Rightarrow> string) \<Rightarrow> 'm destination \<Rightarrow> string" where
  "table_of parse show_model dst =
     (case dst of
        TableName name \<Rightarrow> name
      | ModelValue m \<Rightarrow> (case parse m of Some table \<Rightarrow> table | None \<Rightarrow> show_model m))"

text \<open>\<^verbatim>\<open>DB.Raw(query, args).Scan(&count)\<close>: a query that fails leaves the count at zero.\<close>

definition scan_count :: "(string \<Rightarrow> string list \<Rightarrow> int option) \<Rightarrow> string \<Rightarrow> string list \<Rightarrow> int" where
  "scan_count raw query args = (case raw query args of None \<Rightarrow> 0 | Some count \<Rightarrow> count)"

definition table_query :: string where
  "table_query = ''SELECT COUNT(*) FROM db_class WHERE class_name = ? AND is_system_class = '' @ [CHR 0x27] @ ''NO'' @ [CHR 0x27]"

definition column_query :: string where
  "column_query = ''SELECT COUNT(*) FROM db_attribute WHERE class_name = ? AND attr_name = ?''"

definition index_query :: string where
  "index_query = ''SELECT COUNT(*) FROM db_index WHERE class_name = ? AND index_name = ?''"

definition HasTable where
  "HasTable raw parse show_model dst \<longleftrightarrow> scan_count raw table_query [table_of parse show_model dst] > 0"

definition HasColumn where
  "HasColumn raw parse show_model dst columnName \<longleftrightarrow>
     scan_count raw column_query [table_of parse show_model dst, columnName] > 0"

definition HasIndex where
  "HasIndex raw parse show_model dst indexName \<longleftrightarrow>
     scan_count raw index_query [table_of parse show_model dst, indexName] > 0"

text \<open>The name scanned from the one row, or the empty name when the query fails.\<close>

definition CurrentDatabase :: "(string \<Rightarrow> string option) \<Rightarrow> string" where
  "CurrentDatabase row = (case row ''SELECT DATABASE()'' of None \<Rightarrow> [] | Some name \<Rightarrow> name)"

text \<open>The base migrator's \<open>CreateTable\<close> acts on the database, here an explicit state.\<close>

fun CreateTable :: "('m \<Rightarrow> 's \<Rightarrow> 'e option \<times> 's) \<Rightarrow> 'm list \<Rightarrow> 's \<Rightarrow> 'e option \<times> 's" where
  "CreateTable base [] db = (None, db)"
| "CreateTable base (d # dst) db =
     (case base d db of
        (Some err, db') \<Rightarrow> (Some err, db')
      | (None, db') \<Rightarrow> CreateTable base dst db')"

definition AutoMigrate :: "('m list \<Rightarrow> 's \<Rightarrow> 'e option \<times> 's) \<Rightarrow> 'm list \<Rightarrow> 's \<Rightarrow> 'e option \<times> 's" where
  "AutoMigrate base dst db = base dst db"

text \<open>The SQL of the base migrator's column definition, corrected.\<close>

definition FullDataTypeOf :: "(Field \<Rightarrow> string) \<Rightarrow> Field \<Rightarrow> string" where
  "FullDataTypeOf base field =
     (let sql = ReplaceAll (base field) ''AUTOINCREMENT'' ''AUTO_INCREMENT'' in TrimSuffix sql '' DEFAULT '')"

section \<open>Quoted identifiers\<close>

text \<open>The reader of a quoted identifier in SQL: up to a quote that is not doubled.\<close>

fun ident_body :: "string \<Rightarrow> (string \<times> string) option" where
  "ident_body [] = None"
| "ident_body [c] = (if c = CHR 0x22 then Some ([], []) else None)"
| "ident_body (c # d # s) =
     (if c = CHR 0x22 then
        (if d = CHR 0x22 then map_option (apfst (\<lambda>t. CHR 0x22 # t)) (ident_body s) else Some ([], d # s))
      else map_option (apfst (\<lambda>t. c # t)) (ident_body (d # s)))"

definition read_ident :: "string \<Rightarrow> (string \<times> string) option" where
  "read_ident s = (if s \<noteq> [] \<and> hd s = CHR 0x22 then ident_body (tl s) else None)"

definition doubled :: "string \<Rightarrow> string" where
  "doubled s = concat (map (\<lambda>c. if c = CHR 0x22 then [c, c] else [c]) s)"

lemma write_parts_Suc:
  "write_parts (Suc i) ps w = w @ concat (map (\<lambda>p. [CHR 0x22, CHR 0x22] @ p) ps)"
  by (induction ps arbitrary: i w) simp_all

lemma Split_doubled:
  "\<exists>p ps. Split CHR 0x22 s = p # ps \<and> doubled s = p @ concat (map (\<lambda>p. [CHR 0x22, CHR 0x22] @ p) ps)"
proof (induction s)
  case (Cons c s)
  then obtain p ps where "Split CHR 0x22 s = p # ps"
      "doubled s = p @ concat (map (\<lambda>p. [CHR 0x22, CHR 0x22] @ p) ps)" by blast
  then show ?case by (auto simp: doubled_def)
qed (simp add: doubled_def)

lemma write_parts_Split: "write_parts 0 (Split CHR 0x22 s) w = w @ doubled s"
  using Split_doubled [of s] by (auto simp: write_parts_Suc)

lemma QuoteTo_doubled: "QuoteTo w s = w @ [CHR 0x22] @ doubled s @ [CHR 0x22]"
proof (cases "CHR 0x22 \<in> set s")
  case False
  then have "doubled s = s" by (induction s) (auto simp: doubled_def)
  with False show ?thesis by (simp add: QuoteTo_def)
qed (simp add: QuoteTo_def write_parts_Split)

lemma ident_body_doubled:
  assumes "rest = [] \<or> hd rest \<noteq> CHR 0x22"
  shows "ident_body (doubled s @ CHR 0x22 # rest) = Some (s, rest)"
proof (induction s)
  case Nil
  show ?case using assms by (cases rest) (simp_all add: doubled_def)
next
  case (Cons c s)
  show ?case
  proof (cases "c = CHR 0x22")
    case True
    with Cons show ?thesis by (simp add: doubled_def)
  next
    case False
    obtain x y where "doubled s @ CHR 0x22 # rest = x # y" by (cases "doubled s @ CHR 0x22 # rest") auto
    with Cons False show ?thesis by (simp add: doubled_def)
  qed
qed

section \<open>Properties\<close>

text \<open>C36: A quoted identifier is one identifier.  Whatever bytes a table or column name holds, quotes included,
  \<open>QuoteTo\<close> appends a quoted identifier that SQL reads back as exactly that name, and reading stops
  at its closing quote, so no part of the name can become SQL.\<close>

theorem quoted_name_roundtrip:
  assumes "rest = [] \<or> hd rest \<noteq> CHR 0x22"
  shows "\<exists>q. QuoteTo writer name = writer @ q \<and> read_ident (q @ rest) = Some (name, rest)"
  using ident_body_doubled [OF assms, of name] by (simp add: QuoteTo_doubled read_ident_def)

theorem quoted_name_roundtrip_witness:
  "\<exists>q. QuoteTo ''SELECT * FROM '' [CHR ''a'', CHR 0x22, CHR '';''] = ''SELECT * FROM '' @ q
    \<and> read_ident (q @ '' WHERE'') = Some ([CHR ''a'', CHR 0x22, CHR '';''], '' WHERE'')"
  using quoted_name_roundtrip [of "'' WHERE''" "''SELECT * FROM ''" "[CHR ''a'', CHR 0x22, CHR '';'']"] by simp

section \<open>Column types\<close>

text \<open>The values that a Go integer field of some bits holds, and those of CUBRID's integer columns.\<close>

definition field_range :: "Field \<Rightarrow> int set" where
  "field_range f = (if fDataType f = SchemaUint then {0..2 ^ nat (fSize f) - 1}
     else {- (2 ^ nat (fSize f - 1))..2 ^ nat (fSize f - 1) - 1})"

definition column_range :: "string \<Rightarrow> int set" where
  "column_range t =
     (if t = ''SMALLINT'' then {- (2 ^ 15)..2 ^ 15 - 1}
      else if t \<in> {''INTEGER'', ''INTEGER AUTO_INCREMENT''} then {- (2 ^ 31)..2 ^ 31 - 1}
      else if t \<in> {''BIGINT'', ''BIGINT AUTO_INCREMENT''} then {- (2 ^ 63)..2 ^ 63 - 1} else {})"

lemma column_ranges [simp]:
  "column_range ''SMALLINT'' = {- 32768..32767}"
  "column_range ''INTEGER'' = {- 2147483648..2147483647}"
  "column_range ''INTEGER AUTO_INCREMENT'' = {- 2147483648..2147483647}"
  "column_range ''BIGINT'' = {- 9223372036854775808..9223372036854775807}"
  "column_range ''BIGINT AUTO_INCREMENT'' = {- 9223372036854775808..9223372036854775807}"
  by (simp_all add: column_range_def)

lemma range_subset: "{a..b} \<subseteq> {c..d} \<longleftrightarrow> b < a \<or> c \<le> a \<and> b \<le> (d :: int)"
  by auto

text \<open>C37: Integer columns are wide enough, with two exceptions.  For every signed or unsigned field of 8, 16, 32
  or 64 bits, the column type that \<open>DataTypeOf\<close> chooses holds every value of the field, except for an
  unsigned field of 64 bits, and an unsigned field of 32 bits with AUTO_INCREMENT.\<close>

theorem integer_columns_wide_enough:
  assumes "fDataType f = SchemaInt \<or> fDataType f = SchemaUint" and "fSize f \<in> {8, 16, 32, 64}"
  shows "field_range f \<subseteq> column_range (DataTypeOf f)
    \<longleftrightarrow> \<not> (fDataType f = SchemaUint \<and> (fSize f = 64 \<or> fSize f = 32 \<and> fAutoIncrement f))"
proof -
  have "fSize f = 8 \<or> fSize f = 16 \<or> fSize f = 32 \<or> fSize f = 64" using assms(2) by simp
  then show ?thesis
    using assms(1)
    by (elim disjE; cases "fAutoIncrement f"; simp add: field_range_def DataTypeOf_def range_subset)
qed

theorem integer_columns_wide_enough_witness:
  "\<not> field_range \<lparr>fDataType = SchemaUint, fSize = 32, fPrecision = 0, fAutoIncrement = True,
      fHasDefaultValue = False, fDefaultValue = []\<rparr> \<subseteq> column_range ''INTEGER AUTO_INCREMENT''"
  using integer_columns_wide_enough [of "\<lparr>fDataType = SchemaUint, fSize = 32, fPrecision = 0, fAutoIncrement = True,
      fHasDefaultValue = False, fDefaultValue = []\<rparr>"] by (simp add: DataTypeOf_def)

text \<open>The \<^verbatim>\<open>type\<close> tag is not read.  For a field whose tag names a type of its own, the column type does not
  depend on that name: it is the field's default value when it has one, and VARCHAR(256) otherwise.\<close>

theorem type_tag_ignored:
  "DataTypeOf (f\<lparr>fDataType := CustomType t\<rparr>) =
     (if fAutoIncrement f then (if fSize f > 32 then ''BIGINT AUTO_INCREMENT'' else ''INTEGER AUTO_INCREMENT'')
      else if fHasDefaultValue f \<and> fDefaultValue f \<noteq> [] then fDefaultValue f else ''VARCHAR(256)'')"
  by (simp add: DataTypeOf_def dataTypeFromTag_def)

section \<open>Column definitions\<close>

lemma ReplaceAll_step:
  "old \<noteq> [] \<Longrightarrow> prefix old s \<Longrightarrow> ReplaceAll s old new = new @ ReplaceAll (drop (length old) s) old new"
  "old \<noteq> [] \<Longrightarrow> \<not> prefix old (c # s) \<Longrightarrow> ReplaceAll (c # s) old new = c # ReplaceAll s old new"
  by (subst ReplaceAll.simps, cases s, auto)+

lemma ReplaceAll_absent: "old \<noteq> [] \<Longrightarrow> \<not> sublist old s \<Longrightarrow> ReplaceAll s old new = s"
proof (induction s)
  case (Cons c s)
  then have "\<not> prefix old (c # s)" "\<not> sublist old s" by (auto dest: prefix_imp_sublist simp: sublist_Cons_right)
  with Cons show ?case by (simp add: ReplaceAll_step(2))
qed simp

text \<open>A tail of the word starts with another letter than the replacement, so it matches only old text.\<close>

lemma ReplaceAll_tail:
  "suffix u ''UTOINCREMENT'' \<Longrightarrow> prefix u (ReplaceAll s ''AUTOINCREMENT'' ''AUTO_INCREMENT'') \<Longrightarrow> prefix u s"
proof (induction u arbitrary: s)
  case (Cons x u)
  from set_mono_suffix [OF Cons.prems(1)] have "x \<in> set ''UTOINCREMENT''" by auto
  then have x: "x \<noteq> CHR ''A''" by auto
  have u: "suffix u ''UTOINCREMENT''" using Cons.prems(1) by (rule suffix_ConsD)
  show ?case
  proof (cases s)
    case Nil
    with Cons.prems(2) show ?thesis by simp
  next
    case (Cons c s')
    show ?thesis
    proof (cases "prefix ''AUTOINCREMENT'' s")
      case True
      with Cons.prems(2) x show ?thesis by (simp add: ReplaceAll_step(1))
    next
      case False
      with Cons Cons.prems(2) Cons.IH [OF u, of s'] show ?thesis by (simp add: ReplaceAll_step(2))
    qed
  qed
qed simp

lemma ReplaceAll_removes: "\<not> sublist ''AUTOINCREMENT'' (ReplaceAll s ''AUTOINCREMENT'' ''AUTO_INCREMENT'')"
proof (induction s rule: length_induct)
  case (1 s)
  show ?case
  proof (cases "prefix ''AUTOINCREMENT'' s")
    case True
    then have "length (drop (length ''AUTOINCREMENT'') s) < length s" by (auto simp: prefix_def)
    with 1 have "\<not> sublist ''AUTOINCREMENT'' (ReplaceAll (drop (length ''AUTOINCREMENT'') s) ''AUTOINCREMENT'' ''AUTO_INCREMENT'')"
      by blast
    with True show ?thesis by (simp add: ReplaceAll_step(1) sublist_Cons_right)
  next
    case False
    show ?thesis
    proof (cases s)
      case (Cons c s')
      with 1 have tail: "\<not> sublist ''AUTOINCREMENT'' (ReplaceAll s' ''AUTOINCREMENT'' ''AUTO_INCREMENT'')" by simp
      have "\<not> prefix ''AUTOINCREMENT'' (c # ReplaceAll s' ''AUTOINCREMENT'' ''AUTO_INCREMENT'')"
        using ReplaceAll_tail [of "''UTOINCREMENT''" s'] False Cons by auto
      with tail False Cons show ?thesis by (simp add: ReplaceAll_step(2) sublist_Cons_right)
    qed simp
  qed
qed

text \<open>The pieces of a text around a keyword.  Every text has them; and as no end of AUTOINCREMENT is a
  beginning of it, replacing the keyword leaves the pieces alone.\<close>

fun join_with :: "string \<Rightarrow> string list \<Rightarrow> string" where
  "join_with kw [] = []"
| "join_with kw [p] = p"
| "join_with kw (p # q # ps) = p @ kw @ join_with kw (q # ps)"

definition pieces :: "string \<Rightarrow> string list \<Rightarrow> string \<Rightarrow> bool" where
  "pieces kw ps s \<longleftrightarrow> ps \<noteq> [] \<and> s = join_with kw ps \<and> (\<forall>p\<in>set ps. \<not> sublist kw p)"

lemma pieces_exist:
  assumes "kw \<noteq> []"
  shows "\<exists>ps. pieces kw ps s"
proof (induction s rule: length_induct)
  case (1 s)
  show ?case
  proof (cases "sublist kw s")
    case False
    then show ?thesis by (intro exI [of _ "[s]"]) (simp add: pieces_def)
  next
    case True
    define n where "n = (LEAST n. prefix kw (drop n s))"
    have "\<exists>n. prefix kw (drop n s)"
      using True by (metis append_eq_conv_conj prefixI sublist_def)
    then have n: "prefix kw (drop n s)" unfolding n_def by (rule LeastI_ex)
    then obtain t where t: "drop n s = kw @ t" by (auto simp: prefix_def)
    then have s: "s = take n s @ kw @ t" by (metis append_take_drop_id)
    have "length t < length s" using arg_cong [OF s, of length] assms by (cases kw) auto
    with 1 obtain ps where ps: "pieces kw ps t" by blast
    have "\<not> sublist kw (take n s)"
    proof
      assume "sublist kw (take n s)"
      then obtain a b where ab: "take n s = a @ kw @ b" by (auto simp: sublist_def)
      have "prefix kw (drop (length a) s)" by (subst s) (simp add: ab)
      then have "n \<le> length a" unfolding n_def by (rule Least_le)
      moreover have "length a + length kw \<le> n" using arg_cong [OF ab, of length] by simp
      ultimately show False using assms by (cases kw) auto
    qed
    with ps s have "pieces kw (take n s # ps) s" by (cases ps) (auto simp: pieces_def)
    then show ?thesis by blast
  qed
qed

lemma ReplaceAll_skip:
  assumes "old \<noteq> []" and "\<And>i. i < length p \<Longrightarrow> \<not> prefix old (drop i (p @ t))"
  shows "ReplaceAll (p @ t) old new = p @ ReplaceAll t old new"
  using assms(2)
proof (induction p)
  case (Cons c p)
  have "\<not> prefix old (drop i (p @ t))" if "i < length p" for i
    using Cons.prems [of "Suc i"] that by simp
  with Cons show ?case
    using Cons.prems [of 0] ReplaceAll_step(2) [OF assms(1), of c "p @ t" new] by simp
qed simp

lemma no_overlap:
  assumes "\<forall>n\<in>set [1..<length kw]. drop n kw \<noteq> take (length kw - n) kw"
    and "\<not> sublist kw p" and "i < length p"
  shows "\<not> prefix kw (drop i (p @ kw @ t))"
proof
  let ?q = "drop i p"
  assume "prefix kw (drop i (p @ kw @ t))"
  then obtain z where "?q @ kw @ t = kw @ z" using assms(3) by (auto simp: prefix_def)
  then have kw: "kw = take (length kw) (?q @ kw @ t)" by simp
  show False
  proof (cases "length ?q < length kw")
    case True
    with kw have "kw = ?q @ take (length kw - length ?q) kw" by simp
    then have "drop (length ?q) kw = take (length kw - length ?q) kw" by (metis append_eq_conv_conj)
    moreover have "length ?q \<in> set [1..<length kw]" using True assms(3) by simp
    ultimately show False using assms(1) by blast
  next
    case False
    with kw have "kw = take (length kw) ?q" by simp
    then have "sublist kw ?q" by (metis sublist_take)
    moreover have "sublist ?q p" by (rule sublist_drop)
    ultimately show False using assms(2) sublist_order.order_trans by blast
  qed
qed

lemma keyword_no_overlap:
  "\<not> sublist ''AUTOINCREMENT'' p \<Longrightarrow> i < length p \<Longrightarrow>
    \<not> prefix ''AUTOINCREMENT'' (drop i (p @ ''AUTOINCREMENT'' @ t))"
  by (rule no_overlap) code_simp

lemma ReplaceAll_pieces:
  assumes "ps \<noteq> []" and "\<forall>p\<in>set ps. \<not> sublist ''AUTOINCREMENT'' p"
  shows "ReplaceAll (join_with ''AUTOINCREMENT'' ps) ''AUTOINCREMENT'' new = join_with new ps"
  using assms
proof (induction "''AUTOINCREMENT''" ps rule: join_with.induct)
  case (2 p)
  then show ?case by (simp add: ReplaceAll_absent)
next
  case (3 p q ps)
  let ?t = "join_with ''AUTOINCREMENT'' (q # ps)"
  have "ReplaceAll (p @ ''AUTOINCREMENT'' @ ?t) ''AUTOINCREMENT'' new
      = p @ ReplaceAll (''AUTOINCREMENT'' @ ?t) ''AUTOINCREMENT'' new"
    by (rule ReplaceAll_skip) (use 3 keyword_no_overlap [of p] in auto)
  also have "\<dots> = p @ new @ ReplaceAll ?t ''AUTOINCREMENT'' new"
    using ReplaceAll_step(1) [of "''AUTOINCREMENT''" "''AUTOINCREMENT'' @ ?t" new] by simp
  finally show ?case using 3 by simp
qed simp

text \<open>C38: The corrected column definition.  Whatever text the base migrator produces, the result is that text
  with AUTO_INCREMENT in the place of every AUTOINCREMENT, a keyword that CUBRID does not know, between
  pieces that are kept as they are, and without the dangling DEFAULT when it ends in one.  So the result
  never contains AUTOINCREMENT.\<close>

theorem column_definition_corrected:
  "(\<exists>ps. pieces ''AUTOINCREMENT'' ps (base field))
   \<and> (pieces ''AUTOINCREMENT'' ps (base field) \<longrightarrow>
        (join_with ''AUTO_INCREMENT'' ps = u @ '' DEFAULT '' \<longrightarrow> FullDataTypeOf base field = u)
      \<and> (\<not> suffix '' DEFAULT '' (join_with ''AUTO_INCREMENT'' ps)
          \<longrightarrow> FullDataTypeOf base field = join_with ''AUTO_INCREMENT'' ps))
   \<and> \<not> sublist ''AUTOINCREMENT'' (FullDataTypeOf base field)"
proof -
  have "prefix (TrimSuffix s suf) s" for s suf by (simp add: TrimSuffix_def take_is_prefix)
  then have "sublist (FullDataTypeOf base field) (ReplaceAll (base field) ''AUTOINCREMENT'' ''AUTO_INCREMENT'')"
    unfolding FullDataTypeOf_def Let_def by (rule prefix_imp_sublist)
  with ReplaceAll_removes have no: "\<not> sublist ''AUTOINCREMENT'' (FullDataTypeOf base field)"
    using sublist_order.order_trans by blast
  have run: "FullDataTypeOf base field = TrimSuffix (join_with ''AUTO_INCREMENT'' ps) '' DEFAULT ''"
    if "pieces ''AUTOINCREMENT'' ps (base field)"
    using that ReplaceAll_pieces [of ps "''AUTO_INCREMENT''"] by (simp add: pieces_def FullDataTypeOf_def)
  have "TrimSuffix (u @ '' DEFAULT '') '' DEFAULT '' = u" by (simp add: TrimSuffix_def suffix_def)
  moreover have "\<not> suffix '' DEFAULT '' t \<Longrightarrow> TrimSuffix t '' DEFAULT '' = t" for t by (simp add: TrimSuffix_def)
  ultimately show ?thesis using no run pieces_exist [of "''AUTOINCREMENT''" "base field"] by simp
qed

theorem column_definition_corrected_witness:
  "FullDataTypeOf (\<lambda>f. ''INTEGER AUTOINCREMENT DEFAULT '') \<lparr>fDataType = SchemaInt, fSize = 32, fPrecision = 0,
     fAutoIncrement = True, fHasDefaultValue = True, fDefaultValue = []\<rparr> = ''INTEGER AUTO_INCREMENT''"
proof -
  have "pieces ''AUTOINCREMENT'' [''INTEGER '', '' DEFAULT ''] ''INTEGER AUTOINCREMENT DEFAULT ''" by code_simp
  from column_definition_corrected [of "\<lambda>f. ''INTEGER AUTOINCREMENT DEFAULT ''"
      "\<lparr>fDataType = SchemaInt, fSize = 32, fPrecision = 0, fAutoIncrement = True, fHasDefaultValue = True,
        fDefaultValue = []\<rparr>" "[''INTEGER '', '' DEFAULT '']"
      "''INTEGER AUTO_INCREMENT''", THEN conjunct2, THEN conjunct1, rule_format, OF this]
  show ?thesis by simp
qed

section \<open>The catalog\<close>

text \<open>
  A database that runs the counting queries: a table is a list of rows, a row gives its columns their
  values.  The query is read as text, word by word: a table, and conditions that compare a column with
  a bind argument or with a quoted literal, joined by AND.  It fails when the text is not of this form,
  the table does not exist, or the arguments are too few or too many.
\<close>

type_synonym row = "string \<rightharpoonup> string"

definition operand :: "string \<Rightarrow> string list \<Rightarrow> (string \<times> string list) option" where
  "operand w args =
     (if w = ''?'' then (case args of [] \<Rightarrow> None | a # as \<Rightarrow> Some (a, as))
      else if length w \<ge> 2 \<and> hd w = CHR 0x27 \<and> last w = CHR 0x27 \<and> CHR 0x27 \<notin> set (butlast (tl w))
      then Some (butlast (tl w), args) else None)"

fun conditions :: "string list \<Rightarrow> string list \<Rightarrow> (string \<times> string) list option" where
  "conditions (col # eq # w # ws) args =
     (if eq \<noteq> ''='' then None
      else case operand w args of
        None \<Rightarrow> None
      | Some (v, args') \<Rightarrow>
          (case ws of
             [] \<Rightarrow> if args' = [] then Some [(col, v)] else None
           | join # ws' \<Rightarrow> if join = ''AND'' then map_option ((#) (col, v)) (conditions ws' args') else None))"
| "conditions _ args = None"

definition satisfies :: "row \<Rightarrow> (string \<times> string) list \<Rightarrow> bool" where
  "satisfies r cs = list_all (\<lambda>(col, v). r col = Some v) cs"

definition run_count :: "(string \<rightharpoonup> row list) \<Rightarrow> string \<Rightarrow> string list \<Rightarrow> int option" where
  "run_count db q args =
     (case Split CHR '' '' q of
        sel # cnt # frm # table # whr # ws \<Rightarrow>
          if [sel, cnt, frm, whr] = [''SELECT'', ''COUNT(*)'', ''FROM'', ''WHERE''] then
            (case (conditions ws args, db table) of
               (Some cs, Some rs) \<Rightarrow> Some (int (length (filter (\<lambda>r. satisfies r cs) rs)))
             | _ \<Rightarrow> None)
          else None
      | _ \<Rightarrow> None)"

lemma query_words:
  "Split CHR '' '' table_query = [''SELECT'', ''COUNT(*)'', ''FROM'', ''db_class'', ''WHERE'', ''class_name'', ''='', ''?'',
     ''AND'', ''is_system_class'', ''='', [CHR 0x27] @ ''NO'' @ [CHR 0x27]]"
  "Split CHR '' '' column_query = [''SELECT'', ''COUNT(*)'', ''FROM'', ''db_attribute'', ''WHERE'', ''class_name'', ''='', ''?'',
     ''AND'', ''attr_name'', ''='', ''?'']"
  "Split CHR '' '' index_query = [''SELECT'', ''COUNT(*)'', ''FROM'', ''db_index'', ''WHERE'', ''class_name'', ''='', ''?'',
     ''AND'', ''index_name'', ''='', ''?'']"
  by code_simp+

lemma query_counts:
  "run_count db table_query [t] = map_option (\<lambda>rs. int (length (filter
     (\<lambda>r. r ''class_name'' = Some t \<and> r ''is_system_class'' = Some ''NO'') rs))) (db ''db_class'')"
  "run_count db column_query [t, a] = map_option (\<lambda>rs. int (length (filter
     (\<lambda>r. r ''class_name'' = Some t \<and> r ''attr_name'' = Some a) rs))) (db ''db_attribute'')"
  "run_count db index_query [t, a] = map_option (\<lambda>rs. int (length (filter
     (\<lambda>r. r ''class_name'' = Some t \<and> r ''index_name'' = Some a) rs))) (db ''db_index'')"
  by (simp_all add: run_count_def query_words operand_def satisfies_def split: option.splits)

lemma count_found: "0 < scan_count raw q args \<longleftrightarrow> (\<exists>n. raw q args = Some n \<and> 0 < n)"
  by (auto simp: scan_count_def split: option.splits)

text \<open>C39: The migrator's questions about the schema.  On a database that reads the text of the query and runs
  it over its catalog tables, \<open>HasTable\<close> holds exactly when \<^verbatim>\<open>db_class\<close> has a row with the name that is
  not a system class, \<open>HasColumn\<close> exactly when \<^verbatim>\<open>db_attribute\<close> has one with both names, and
  \<open>HasIndex\<close> exactly when \<^verbatim>\<open>db_index\<close> has one.  The name is the destination itself when it is a string, the table of
  a model that has a schema, and the printed form of any other value.\<close>

theorem schema_questions:
  assumes "dst = TableName table \<or> (\<exists>m. dst = ModelValue m \<and> (parse m = Some table \<or> parse m = None \<and> show_model m = table))"
  shows "(HasTable (run_count db) parse show_model dst \<longleftrightarrow> (\<exists>rs r. db ''db_class'' = Some rs \<and> r \<in> set rs
        \<and> r ''class_name'' = Some table \<and> r ''is_system_class'' = Some ''NO''))
    \<and> (HasColumn (run_count db) parse show_model dst column \<longleftrightarrow> (\<exists>rs r. db ''db_attribute'' = Some rs \<and> r \<in> set rs
        \<and> r ''class_name'' = Some table \<and> r ''attr_name'' = Some column))
    \<and> (HasIndex (run_count db) parse show_model dst idx \<longleftrightarrow> (\<exists>rs r. db ''db_index'' = Some rs \<and> r \<in> set rs
        \<and> r ''class_name'' = Some table \<and> r ''index_name'' = Some idx))"
proof -
  have "table_of parse show_model dst = table" using assms by (auto simp: table_of_def)
  then show ?thesis
    by (auto simp: HasTable_def HasColumn_def HasIndex_def count_found query_counts filter_empty_conv)
qed

theorem schema_questions_witness:
  "HasTable (run_count [''db_class'' \<mapsto> [[''class_name'' \<mapsto> ''users'', ''is_system_class'' \<mapsto> ''NO''],
       [''class_name'' \<mapsto> ''db_user'', ''is_system_class'' \<mapsto> ''YES'']]]) (\<lambda>m :: nat. None) (\<lambda>m. ''?'') (TableName ''users'')
   \<and> \<not> HasTable (run_count [''db_class'' \<mapsto> [[''class_name'' \<mapsto> ''users'', ''is_system_class'' \<mapsto> ''NO''],
       [''class_name'' \<mapsto> ''db_user'', ''is_system_class'' \<mapsto> ''YES'']]]) (\<lambda>m :: nat. None) (\<lambda>m. ''?'') (TableName ''db_user'')"
  using schema_questions [of "TableName ''users''" "''users''" "\<lambda>m :: nat. None" "\<lambda>m. ''?''"]
    schema_questions [of "TableName ''db_user''" "''db_user''" "\<lambda>m :: nat. None" "\<lambda>m. ''?''"]
  by auto

text \<open>\<open>CreateTable\<close> creates the models in order and stops at the first that fails: its error is returned
  and the models after it are not touched.\<close>

theorem create_table_stops:
  "CreateTable base (ds @ d # rest) db =
     (case CreateTable base ds db of
        (Some err, db') \<Rightarrow> (Some err, db')
      | (None, db') \<Rightarrow> (case base d db' of
          (Some err, db'') \<Rightarrow> (Some err, db'')
        | (None, db'') \<Rightarrow> CreateTable base rest db''))"
  by (induction ds arbitrary: db) (auto split: prod.splits option.splits)

text \<open>Initialization always succeeds: a dialector with a pool installs that pool, one with a DSN installs the pool
  of the registered driver for that DSN, however malformed, and neither connects.  After it ON CONFLICT
  clauses write nothing, INSERT clauses are built as GORM builds them, and other clauses keep their builders.\<close>

theorem initialize_outcome:
  "fst (Initialize register build d db) = None
    \<and> snd (Initialize register build (OpenDialector dsn) db)
       = (let db1 = register False (db\<lparr>ConnPool := Some (SqlDB ''cubrid'' dsn)\<rparr>) in
         db1\<lparr>dbClauseBuilders := (dbClauseBuilders db1)(''ON CONFLICT'' \<mapsto> (\<lambda>c b. b), ''INSERT'' \<mapsto> build)\<rparr>)
    \<and> snd (Initialize register build (OpenDB pool) db)
       = (let db1 = register False (db\<lparr>ConnPool := Some (GivenDB pool)\<rparr>) in
         db1\<lparr>dbClauseBuilders := (dbClauseBuilders db1)(''ON CONFLICT'' \<mapsto> (\<lambda>c b. b), ''INSERT'' \<mapsto> build)\<rparr>)"
  by (simp add: Initialize_def OpenDialector_def OpenDB_def sqlOpen_def registered_drivers_def ClauseBuilders_def
      Let_def split: option.splits)

end
