(* ===== verification/Spec2Isabelle.thy ===== *)
theory Spec2Isabelle
  imports SqlLex Requests Params StmtSpec Watch Driver GormDialector
begin

text \<open>
  \<^bold>\<open>cubrid-go\<close>, a pure Go driver for CUBRID behind \<^verbatim>\<open>database/sql\<close>, with a GORM dialector.

  \<^bold>\<open>The program.\<close>  \<^verbatim>\<open>driver.go\<close> reads a DSN and opens a connection.  \<^verbatim>\<open>conn.go\<close> performs the handshake with the
  broker and the CAS and then exchanges framed packets with the CAS: prepare, execute, query, ping,
  transactions (\<^verbatim>\<open>tx.go\<close>) and statements (\<^verbatim>\<open>stmt.go\<close>) under a mutex, and cursors (\<^verbatim>\<open>rows.go\<close>) without one.
  While a query or execution runs, a goroutine watches its context and may move the socket's deadline.  \<^verbatim>\<open>protocol.go\<close>
  builds the requests and parses the responses with the writer and reader of \<^verbatim>\<open>packet.go\<close>, the constants of
  \<^verbatim>\<open>constants.go\<close> and the error classes of \<^verbatim>\<open>errors.go\<close>.  Arguments are not bound on the server: \<^verbatim>\<open>types.go\<close>
  writes them as SQL literals in place of the question marks.  \<^verbatim>\<open>dialector/cubrid.go\<close> adapts GORM.

  \<^bold>\<open>Conventions.\<close>  A Go string or byte slice is a list of bytes, an \<^verbatim>\<open>int16/32/64\<close> a word of that width, an \<^verbatim>\<open>int\<close>
  an \<open>int\<close>.  An error return is the left side of a sum, a panic is \<open>None\<close>; an operation on a connection
  is a function \<open>conn \<Rightarrow> ((go_error + 'a) \<times> conn) option\<close>, sequenced by \<open>bindM\<close>.  The network is a script: a
  socket holds the pieces and errors its reads will deliver and the outcomes of its writes, and records
  what was written, its deadline and whether it is open.  A theorem for all scripts is one for all
  behaviours of the peer.  A context says what its \<^verbatim>\<open>Err()\<close> gives at each point where an operation looks, its
  deadline, and when the goroutine of \<open>watchContextCancel\<close> fires, if it does: before the deferred reset of
  the deadline or after it (\<open>with_watch\<close>).

  \<^bold>\<open>Theories.\<close>
  \<^item> \<open>GoBase\<close>, \<open>GoStrings\<close>, \<open>GoTime\<close>, \<open>GoFloat\<close>, \<open>GoParse\<close>, \<open>GoUrl\<close>: what the driver uses of Go and its standard
    library (slices, big-endian words, decimal numbers, \<^verbatim>\<open>strings\<close>, \<^verbatim>\<open>time.Time\<close> and its calendar, the shortest
    decimal form of a \<^verbatim>\<open>float64\<close>, \<^verbatim>\<open>Atoi\<close>, \<^verbatim>\<open>ParseBool\<close>, \<^verbatim>\<open>ParseDuration\<close>, \<^verbatim>\<open>net/url\<close>).  \<open>GoBase\<close> is the prelude:
    it also declares the lemma collections \<open>go_const\<close>, \<open>wire_simps\<close> and \<open>advances_intro\<close>.
  \<^item> \<open>Errors\<close> (\<^verbatim>\<open>errors.go\<close>): the error values and \<open>newError\<close>; the search finds the first match, and the class is
    the one of the first keyword list that occurs in the message.
  \<^item> \<open>Values\<close>, \<open>Constants\<close>, \<open>Packet\<close> (\<^verbatim>\<open>constants.go\<close>, \<^verbatim>\<open>packet.go\<close>): driver values, every constant, writer and
    reader.  Each \<open>write\<close> has a \<open>wire_simps\<close> lemma for the matching \<open>parse\<close>, and each read panics exactly
    beyond the buffer.
  \<^item> \<open>Protocol\<close> (\<^verbatim>\<open>protocol.go\<close>): every request builder and response parser.  \<open>Requests\<close> and \<open>Params\<close> decode the
    requests again; \<open>Responses\<close> states the server's messages as records with their images and shows that
    the parsers return them, through the locales \<open>message\<close> and \<open>wire_codec\<close>, which are interpreted on the
    column, result, cell and row parsers.
  \<^item> \<open>SqlText\<close> (\<^verbatim>\<open>types.go\<close>): literals, the placeholder scanner, \<open>InterpolateArgs\<close>.  \<open>SqlLex\<close> is an independent
    lexer of SQL; it gives the exact result of interpolation and shows that a value stays one token.
  \<^item> \<open>Socket\<close>, \<open>Conn\<close> (\<^verbatim>\<open>conn.go\<close>, \<^verbatim>\<open>tx.go\<close>), \<open>Rows\<close> (\<^verbatim>\<open>rows.go\<close>), \<open>Stmt\<close> (\<^verbatim>\<open>stmt.go\<close>): the state and the operations.
    The structs that point to their connection are records passed along with it.
  \<^item> \<open>Wire\<close>: what every operation built from reads and writes keeps (locale \<open>io_relation\<close>, interpreted three
    times here and on \<open>quiet\<close> in \<open>Session\<close>), and what a request and its answer do to a live connection
    (\<open>exchanged\<close>).  \<open>ConnSpec\<close>, \<open>Cursor\<close> and \<open>StmtSpec\<close> build the conversations of the operations on it:
    which packets are sent in which order, what is returned, which handles are released.
  \<^item> \<open>Session\<close>: the events of a whole session, with late watchers and unlocked cursor reads and writes among
    them, its invariant, transactions, framing.  \<open>Watch\<close>: the goroutine of \<open>watchContextCancel\<close> as a step
    relation of its interleavings with an operation, of which the outcomes of \<open>with_watch\<close> are runs.
  \<^item> \<open>Connect\<close> (\<open>connect\<close> of \<^verbatim>\<open>conn.go\<close>) and \<open>Driver\<close> (\<^verbatim>\<open>driver.go\<close>): the handshake over a network that says what each
    dial gives; the DSN parser and \<open>Open\<close>, from a DSN to the packet that opens the database.
  \<^item> \<open>GormDialector\<close> (\<^verbatim>\<open>dialector/cubrid.go\<close>): the dialector and migrator, with GORM as parameters.

  \<^bold>\<open>What the theorems show.\<close>  The cursor delivers exactly the server's rows and ends; executions send exactly
  the packets they should and release every handle; interpolation is exact and confines every value,
  with its exceptions stated; requests and responses round-trip; every reachable state of a session
  satisfies the invariant that a successful \<open>connect\<close> establishes (the socket is open exactly while the
  connection is, the token has its length; a deadline is absent only as long as no watcher fires outside
  its operation); every outcome of \<open>connect\<close> is known; a DSN is read back exactly.  The conversations of
  \<open>QueryContext\<close> and \<open>ExecContext\<close> say what they need of the context: that it has not ended when the
  operation starts, and the two cases of the look after the execution.  Several
  theorems state what goes wrong, and when: a timeout leaves the late answer for the next request, a
  cancelled query keeps its handle, a dropped connection looks like the end of the rows, a short packet
  panics, the watcher can leave an expired deadline, a failed handshake leaks its socket, an IPv6 host
  cannot be dialed, some unsigned columns are too narrow.

  \<^bold>\<open>Bounds.\<close>  The only fuel is that of \<open>shortest_loop\<close> in \<open>GoFloat\<close> (18 rounds, one more than the 17 digits that
  always identify a \<^verbatim>\<open>float64\<close>); every other loop is structural or has a termination proof.  A packet is
  shorter than \<open>2^32\<close> bytes (\<open>framed_ok\<close>), and counts in messages fit their \<^verbatim>\<open>int32\<close> (\<open>countable_list\<close>).

  \<^bold>\<open>Not modelled.\<close>  The mutex (each operation is one step, as the mutex makes it; the methods of \<^verbatim>\<open>rows.go\<close> take
  no mutex and are one step because \<^verbatim>\<open>database/sql\<close> holds the lock of the driver connection around them),
  the effect of a passed deadline on a read (it is an error in the socket's script), the registration in \<^verbatim>\<open>init\<close>
  beyond the driver's name, texts of \<^verbatim>\<open>fmt.Errorf\<close> in the DSN parser (its errors are constructors with the same
  arguments), GORM itself, and the repository's tests.
\<close>

end
